theory Spec2Isabelle
  imports Complex_Main "HOL-Library.AList"
begin

section \<open>Python values, errors and containers\<close>

text \<open>
  The solver script is Python. Its floats are taken as exact reals, with one extra value
  for NaN where the script can produce one (the mean of an empty list); infinities and
  rounding are outside the model. Integers are unbounded. Every exception the script can
  raise is a value of \<open>error\<close>, and a function that can raise returns \<open>error + 'a\<close>.
\<close>

datatype error =
    KeyError | IndexError | ValueError | ZeroDivisionError
  | NotImplementedError | AssertionError | AttributeError | GurobiError

definition ebind :: "error + 'a \<Rightarrow> ('a \<Rightarrow> error + 'b) \<Rightarrow> error + 'b" where
  "ebind r f = (case r of Inl e \<Rightarrow> Inl e | Inr v \<Rightarrow> f v)"

text \<open>A comprehension whose body can raise: left to right, the first exception wins.\<close>

fun emap :: "('a \<Rightarrow> error + 'b) \<Rightarrow> 'a list \<Rightarrow> error + 'b list" where
  "emap f [] = Inr []"
| "emap f (x # xs) =
     (case f x of
        Inl e \<Rightarrow> Inl e
      | Inr y \<Rightarrow> (case emap f xs of Inl e \<Rightarrow> Inl e | Inr ys \<Rightarrow> Inr (y # ys)))"

text \<open>A comprehension with a condition that can raise.\<close>

fun efilter :: "('a \<Rightarrow> error + bool) \<Rightarrow> 'a list \<Rightarrow> error + 'a list" where
  "efilter p [] = Inr []"
| "efilter p (x # xs) =
     (case p x of
        Inl e \<Rightarrow> Inl e
      | Inr b \<Rightarrow> (case efilter p xs of
                    Inl e \<Rightarrow> Inl e
                  | Inr ys \<Rightarrow> Inr (if b then x # ys else ys)))"

text \<open>A loop that updates a state and can raise.\<close>

fun efold :: "('a \<Rightarrow> 's \<Rightarrow> error + 's) \<Rightarrow> 'a list \<Rightarrow> 's \<Rightarrow> error + 's" where
  "efold f [] s = Inr s"
| "efold f (x # xs) s = (case f x s of Inl e \<Rightarrow> Inl e | Inr s' \<Rightarrow> efold f xs s')"

text \<open>\<open>any\<close> over a generator that can raise: it stops at the first true value.\<close>

fun eany :: "('a \<Rightarrow> error + bool) \<Rightarrow> 'a list \<Rightarrow> error + bool" where
  "eany p [] = Inr False"
| "eany p (x # xs) =
     (case p x of Inl e \<Rightarrow> Inl e | Inr b \<Rightarrow> (if b then Inr True else eany p xs))"

text \<open>
  A \<open>dict\<close> is an association list with distinct keys in insertion order: \<open>d[k] = v\<close> is
  \<open>AList.update\<close>, \<open>d[k]\<close> raises \<open>KeyError\<close> on a missing key, \<open>d.values()\<close> is
  \<open>map snd\<close>.
\<close>

definition lookup :: "('k \<times> 'v) list \<Rightarrow> 'k \<Rightarrow> error + 'v" where
  "lookup d k = (case map_of d k of None \<Rightarrow> Inl KeyError | Some v \<Rightarrow> Inr v)"

definition py_dict :: "('k \<times> 'v) list \<Rightarrow> ('k \<times> 'v) list" where
  "py_dict kvs = fold (\<lambda>(k, v). AList.update k v) kvs []"

definition py_range :: "int \<Rightarrow> int list" where
  "py_range n = [0..n - 1]"

definition py_range2 :: "int \<Rightarrow> int \<Rightarrow> int list" where
  "py_range2 a b = [a..b - 1]"

definition py_enumerate :: "'a list \<Rightarrow> (int \<times> 'a) list" where
  "py_enumerate xs = zip (py_range (int (length xs))) xs"

text \<open>\<open>int(r)\<close> on a float truncates toward zero.\<close>

definition py_int :: "real \<Rightarrow> int" where
  "py_int r = (if 0 \<le> r then \<lfloor>r\<rfloor> else \<lceil>r\<rceil>)"

text \<open>Floats that may be NaN: \<open>None\<close> is NaN.\<close>

definition np_mean :: "real option list \<Rightarrow> real option" where
  "np_mean xs =
     (if xs = [] \<or> None \<in> set xs then None
      else Some (sum_list (map the xs) / real (length xs)))"

definition py_fsum :: "real option list \<Rightarrow> real option" where
  "py_fsum xs = (if None \<in> set xs then None else Some (sum_list (map the xs)))"

definition py_int_f :: "real option \<Rightarrow> error + int" where
  "py_int_f r = (case r of None \<Rightarrow> Inl ValueError | Some v \<Rightarrow> Inr (py_int v))"

text \<open>True division \<open>a / b\<close>.\<close>

definition py_truediv :: "real \<Rightarrow> real \<Rightarrow> error + real" where
  "py_truediv a b = (if b = 0 then Inl ZeroDivisionError else Inr (a / b))"

definition CAPACITY :: real where
  "CAPACITY = 5"

definition COST_PER_COURIER_AND_PERIOD :: real where
  "COST_PER_COURIER_AND_PERIOD = 1"

definition COST_PER_PARCEL_AND_PERIOD :: real where
  "COST_PER_PARCEL_AND_PERIOD = COST_PER_COURIER_AND_PERIOD / CAPACITY"

definition EPS :: real where
  "EPS = 1 / 1000000"

section \<open>The instance\<close>

text \<open>
  The JSON payload. Area and region identifiers are opaque; they are numbered here.
  The fields the script reads are taken as present with the declared JSON types.
\<close>

type_synonym area = nat
type_synonym region = nat

record area_data =
  area_id :: area
  demand :: "real list"
  required_couriers :: "real list"

record scenario =
  scenario_num :: int
  data :: "area_data list"

record dregion =
  r_id :: region
  r_areas :: "area list"

record json_instance =
  j_regions :: "dregion list"
  j_num_time_intervals :: int
  j_num_scenarios :: int
  j_demand_baseline :: string
  j_demand_type :: string
  j_scenarios :: "scenario list"

text \<open>
  The command line (\<open>args\<close>) and the keyword arguments of a programmatic call. The keywords
  other than \<open>max_n_shifts\<close> are taken as supplied; \<open>k_max_n_shifts = None\<close> is the keyword
  left out, \<open>a_max_n_shifts = None\<close> is the option \<open>-u\<close> left out, which argparse stores
  as \<open>None\<close>. \<open>ibasename\<close> is the instance file's name without directory and extension
  (computed by \<open>os.path\<close>), given with the configuration.
\<close>

record namespace =
  a_model :: string
  a_ibasename :: string
  a_outsourcing_cost_multiplier :: real
  a_regional_multiplier :: real
  a_global_multiplier :: real
  a_max_n_shifts :: "int option"

record kwargs =
  k_model :: string
  k_ibasename :: string
  k_outsourcing_cost_multiplier :: real
  k_regional_multiplier :: real
  k_global_multiplier :: real
  k_max_n_shifts :: "int option"

datatype config = Args namespace | Kwargs kwargs

text \<open>
  The attributes of an \<open>Instance\<close>. An attribute that may not have been assigned is an
  option: \<open>max_n_shift = None\<close> and \<open>max_n_shifts = None\<close> say that the object has no such
  attribute; \<open>max_n_shifts = Some None\<close> is the attribute holding Python's \<open>None\<close>.
  The attribute \<open>name\<close> (a formatted string used for the output path only) is left out.
\<close>

record Instance =
  json :: json_instance
  reg_multiplier :: real
  glb_multiplier :: real
  outsourcing_cost_multiplier :: real
  model :: string
  outsourcing_cost :: real
  n_regions :: int
  n_areas :: int
  n_periods :: int
  n_scenarios :: int
  periods :: "int list"
  scenarios :: "int list"
  regions :: "region list"
  areas :: "area list"
  reg_areas :: "(region \<times> area list) list"
  area_regs :: "(area \<times> region) list"
  sdemand :: "((int \<times> area \<times> int) \<times> real) list"
  srequired :: "((int \<times> area \<times> int) \<times> real) list"
  ub_reg :: "(region \<times> int) list"
  ub_global :: int
  shifts :: "int list list"
  max_n_shift :: "int option"
  max_n_shifts :: "int option option"
  ibasename :: string

subsection \<open>Upper bounds\<close>

text \<open>
  The script computes the two means, the sum over a region's areas and the product with
  the multiplier in double precision (\<open>np.mean\<close>, \<open>sum\<close>, \<open>*\<close>) and truncates with
  \<open>int\<close>. Here the same operations are exact. The two agree as long as no operation
  rounds; at a rounding boundary the script's integer can differ by one from the one
  computed here, and a product that overflows raises \<open>OverflowError\<close> in the script. The
  theorems below use the stored integers and the keys of \<open>ub_reg\<close> only; on the sample
  instances the script and these definitions compute the same integers.
\<close>

definition mhat1_entry :: "Instance \<Rightarrow> area \<times> int \<Rightarrow> error + ((area \<times> int) \<times> real option)" where
  "mhat1_entry inst = (\<lambda>(a, theta).
     ebind (emap (\<lambda>s. lookup (srequired inst) (s, a, theta)) (scenarios inst))
       (\<lambda>rs. Inr ((a, theta), np_mean (map Some rs))))"

definition mhat2_entry ::
  "Instance \<Rightarrow> ((area \<times> int) \<times> real option) list \<Rightarrow> area \<Rightarrow> error + (area \<times> real option)" where
  "mhat2_entry inst mhat1 a =
     ebind (emap (\<lambda>theta. lookup mhat1 (a, theta)) (periods inst))
       (\<lambda>ms. Inr (a, np_mean ms))"

definition ub_reg_entry ::
  "Instance \<Rightarrow> (area \<times> real option) list \<Rightarrow> region \<Rightarrow> error + (region \<times> int)" where
  "ub_reg_entry inst mhat2 region =
     ebind (lookup (reg_areas inst) region) (\<lambda>ras.
     ebind (emap (lookup mhat2) ras) (\<lambda>ms.
     ebind (py_int_f (map_option ((*) (reg_multiplier inst)) (py_fsum ms))) (\<lambda>u.
     Inr (region, u))))"

definition get_ubs :: "Instance \<Rightarrow> error + ((region \<times> int) list \<times> int)" where
  "get_ubs inst =
     ebind (emap (mhat1_entry inst) (List.product (areas inst) (periods inst))) (\<lambda>kvs1.
     let mhat1 = py_dict kvs1 in
     ebind (emap (mhat2_entry inst mhat1) (areas inst)) (\<lambda>kvs2.
     let mhat2 = py_dict kvs2 in
     ebind (emap (ub_reg_entry inst mhat2) (regions inst)) (\<lambda>kvs3.
     let ub_reg' = py_dict kvs3;
         ub_global' = py_int (glb_multiplier inst * real_of_int (sum_list (map snd ub_reg')))
     in Inr (ub_reg', ub_global'))))"

subsection \<open>Shifts\<close>

definition get_shifts :: "Instance \<Rightarrow> error + int list list" where
  "get_shifts inst =
     (if n_periods inst = 8 then
        (let shifts' = [py_range 4, py_range2 4 8] in
         if concat shifts' = periods inst then Inr shifts' else Inl AssertionError)
      else Inl NotImplementedError)"

subsection \<open>Derived data\<close>

definition area_regs_entry ::
  "region list \<Rightarrow> (region \<times> area list) list \<Rightarrow> area \<Rightarrow> error + (area \<times> region)" where
  "area_regs_entry rs ras a =
     ebind (efilter (\<lambda>region. ebind (lookup ras region) (\<lambda>as. Inr (a \<in> set as))) rs) (\<lambda>found.
     case found of [] \<Rightarrow> Inl IndexError | region # _ \<Rightarrow> Inr (a, region))"

definition load_series ::
  "(area_data \<Rightarrow> real list) \<Rightarrow> scenario list \<Rightarrow> ((int \<times> area \<times> int) \<times> real) list" where
  "load_series field scs =
     fold (\<lambda>sc. fold (\<lambda>d. fold (\<lambda>(theta, v). AList.update (scenario_num sc, area_id d, theta) v)
                              (py_enumerate (field d)))
                     (data sc))
          scs []"

definition set_max_n_shifts :: "config \<Rightarrow> Instance \<Rightarrow> error + Instance" where
  "set_max_n_shifts cfg inst =
     (if model inst = ''partflex'' then
        (case cfg of
           Kwargs kw \<Rightarrow>
             (case k_max_n_shifts kw of
                None \<Rightarrow> Inl KeyError
              | Some v \<Rightarrow> Inr (inst\<lparr>max_n_shift := Some v\<rparr>))
         | Args ns \<Rightarrow> Inr (inst\<lparr>max_n_shifts := Some (a_max_n_shifts ns)\<rparr>))
      else Inr inst)"

text \<open>
  The attributes assigned before the bounds are derived; \<open>ars\<close> is the dictionary
  \<open>area_regs\<close>. The attributes assigned later hold placeholders.
\<close>

definition init_data :: "config \<Rightarrow> json_instance \<Rightarrow> (area \<times> region) list \<Rightarrow> Instance" where
  "init_data cfg js ars =
     \<lparr>json = js,
      reg_multiplier =
        (case cfg of Kwargs kw \<Rightarrow> k_regional_multiplier kw | Args ns \<Rightarrow> a_regional_multiplier ns),
      glb_multiplier =
        (case cfg of Kwargs kw \<Rightarrow> k_global_multiplier kw | Args ns \<Rightarrow> a_global_multiplier ns),
      outsourcing_cost_multiplier =
        (case cfg of Kwargs kw \<Rightarrow> k_outsourcing_cost_multiplier kw
                   | Args ns \<Rightarrow> a_outsourcing_cost_multiplier ns),
      model = (case cfg of Kwargs kw \<Rightarrow> k_model kw | Args ns \<Rightarrow> a_model ns),
      outsourcing_cost =
        COST_PER_COURIER_AND_PERIOD *
        (case cfg of Kwargs kw \<Rightarrow> k_outsourcing_cost_multiplier kw
                   | Args ns \<Rightarrow> a_outsourcing_cost_multiplier ns),
      n_regions = int (length (j_regions js)),
      n_areas = sum_list (map (\<lambda>r. int (length (r_areas r))) (j_regions js)),
      n_periods = j_num_time_intervals js,
      n_scenarios = j_num_scenarios js,
      periods = py_range (j_num_time_intervals js),
      scenarios = py_range (j_num_scenarios js),
      regions = map r_id (j_regions js),
      areas = concat (map r_areas (j_regions js)),
      reg_areas = py_dict (map (\<lambda>r. (r_id r, r_areas r)) (j_regions js)),
      area_regs = ars,
      sdemand = load_series demand (j_scenarios js),
      srequired = load_series required_couriers (j_scenarios js),
      ub_reg = [],
      ub_global = 0,
      shifts = [],
      max_n_shift = None,
      max_n_shifts = None,
      ibasename = (case cfg of Kwargs kw \<Rightarrow> k_ibasename kw | Args ns \<Rightarrow> a_ibasename ns)\<rparr>"

definition compute_data :: "config \<Rightarrow> json_instance \<Rightarrow> error + Instance" where
  "compute_data cfg js =
     ebind (emap (area_regs_entry (map r_id (j_regions js))
                    (py_dict (map (\<lambda>r. (r_id r, r_areas r)) (j_regions js))))
                 (concat (map r_areas (j_regions js)))) (\<lambda>ars.
     let inst0 = init_data cfg js (py_dict ars) in
     ebind (get_ubs inst0) (\<lambda>(ubr, ubg).
     let inst1 = inst0\<lparr>ub_reg := ubr, ub_global := ubg\<rparr> in
     ebind (get_shifts inst1) (\<lambda>sh.
     set_max_n_shifts cfg (inst1\<lparr>shifts := sh\<rparr>))))"

section \<open>The optimisation model\<close>

text \<open>
  What the script hands to the MILP library: variable declarations and linear
  constraints, in the order they are added. An expression keeps the shape the script
  writes; \<open>Sum\<close> is Python's \<open>sum\<close> over a generator and the \<open>sum\<close> of a
  \<open>tupledict\<close>. A bound \<open>v_ub = None\<close> is the library's default (no upper bound).
\<close>

datatype var =
    X area int
  | Omega area int int
  | Y area area int
  | Zplus area int
  | Zminus area int
  | W int

datatype vtype = INTEGER | CONTINUOUS | BINARY

datatype sense = LE | GE | EQ

datatype expr =
    Num real
  | V var
  | Add expr expr
  | Sub expr expr
  | Mul real expr
  | MulR expr real
  | Sum "expr list"

record vardecl =
  v_var :: var
  v_type :: vtype
  v_lb :: real
  v_ub :: "real option"
  v_obj :: real

record constr =
  c_name :: string
  c_lhs :: expr
  c_sense :: sense
  c_rhs :: expr

record milp =
  m_vars :: "vardecl list"
  m_constrs :: "constr list"

definition addVars ::
  "'k list \<Rightarrow> ('k \<Rightarrow> var) \<Rightarrow> vtype \<Rightarrow> real \<Rightarrow> real \<Rightarrow> milp \<Rightarrow> milp" where
  "addVars idx mk vt lb ob md =
     md\<lparr>m_vars := m_vars md @
          map (\<lambda>k. \<lparr>v_var = mk k, v_type = vt, v_lb = lb, v_ub = None, v_obj = ob\<rparr>) idx\<rparr>"

definition addConstrs :: "('k \<Rightarrow> error + constr) \<Rightarrow> 'k list \<Rightarrow> milp \<Rightarrow> error + milp" where
  "addConstrs gen idx md =
     ebind (emap gen idx) (\<lambda>cs. Inr (md\<lparr>m_constrs := m_constrs md @ cs\<rparr>))"

text \<open>\<open>td[k]\<close> on a \<open>tupledict\<close> of variables with the keys \<open>keys\<close>.\<close>

definition td_get :: "'k list \<Rightarrow> ('k \<Rightarrow> var) \<Rightarrow> 'k \<Rightarrow> error + expr" where
  "td_get keys mk k = (if k \<in> set keys then Inr (V (mk k)) else Inl KeyError)"

text \<open>\<open>td[k].UB = u\<close>.\<close>

definition set_UB :: "'k list \<Rightarrow> ('k \<Rightarrow> var) \<Rightarrow> real \<Rightarrow> 'k \<Rightarrow> milp \<Rightarrow> error + milp" where
  "set_UB keys mk u k md =
     (if k \<in> set keys then
        Inr (md\<lparr>m_vars := map (\<lambda>d. if v_var d = mk k then d\<lparr>v_ub := Some u\<rparr> else d) (m_vars md)\<rparr>)
      else Inl KeyError)"

definition mkX :: "area \<times> int \<Rightarrow> var" where
  "mkX = (\<lambda>(a, theta). X a theta)"

definition mkOmega :: "area \<times> int \<times> int \<Rightarrow> var" where
  "mkOmega = (\<lambda>(a, theta, s). Omega a theta s)"

definition mkY :: "area \<times> area \<times> int \<Rightarrow> var" where
  "mkY = (\<lambda>(a1, a2, theta). Y a1 a2 theta)"

definition mkZplus :: "area \<times> int \<Rightarrow> var" where
  "mkZplus = (\<lambda>(a, theta). Zplus a theta)"

definition mkZminus :: "area \<times> int \<Rightarrow> var" where
  "mkZminus = (\<lambda>(a, theta). Zminus a theta)"

text \<open>
  The attributes of a \<open>Solver\<close>. The variable containers hold their keys; one that has
  not been assigned is \<open>None\<close>.
\<close>

record Solver =
  s_args :: namespace
  s_i :: Instance
  s_m :: milp
  s_x :: "(area \<times> int) list"
  s_omega :: "(area \<times> int \<times> int) list"
  s_y :: "(area \<times> area \<times> int) list option"
  s_zplus :: "(area \<times> int) list option"
  s_zminus :: "(area \<times> int) list option"
  s_w :: "int list option"

text \<open>Reading an attribute that may not have been assigned.\<close>

definition attr :: "'a option \<Rightarrow> error + 'a" where
  "attr v = (case v of None \<Rightarrow> Inl AttributeError | Some a \<Rightarrow> Inr a)"

definition new_Solver :: "namespace \<Rightarrow> Instance \<Rightarrow> Solver" where
  "new_Solver ns inst =
     \<lparr>s_args = ns, s_i = inst, s_m = \<lparr>m_vars = [], m_constrs = []\<rparr>, s_x = [], s_omega = [],
      s_y = None, s_zplus = None, s_zminus = None, s_w = None\<rparr>"

subsection \<open>The base model\<close>

definition x_keys :: "Instance \<Rightarrow> (area \<times> int) list" where
  "x_keys inst = List.product (areas inst) (periods inst)"

definition omega_keys :: "Instance \<Rightarrow> (area \<times> int \<times> int) list" where
  "omega_keys inst =
     concat (map (\<lambda>a. concat (map (\<lambda>theta. map (\<lambda>s. (a, theta, s)) (scenarios inst))
                                  (periods inst)))
                 (areas inst))"

definition reg_bound :: "Instance \<Rightarrow> region \<times> int \<Rightarrow> error + constr" where
  "reg_bound inst = (\<lambda>(region, theta).
     ebind (lookup (reg_areas inst) region) (\<lambda>ras.
     ebind (emap (\<lambda>a. td_get (x_keys inst) mkX (a, theta)) ras) (\<lambda>xs.
     ebind (lookup (ub_reg inst) region) (\<lambda>u.
     Inr \<lparr>c_name = ''reg_bound'', c_lhs = Sum xs, c_sense = LE, c_rhs = Num (real_of_int u)\<rparr>))))"

definition x_sum_theta :: "Instance \<Rightarrow> int \<Rightarrow> expr" where
  "x_sum_theta inst theta = Sum (map (\<lambda>k. V (mkX k)) (filter (\<lambda>(a, t). t = theta) (x_keys inst)))"

definition global_bound :: "Instance \<Rightarrow> int \<Rightarrow> error + constr" where
  "global_bound inst theta =
     Inr \<lparr>c_name = ''global_bound'', c_lhs = x_sum_theta inst theta, c_sense = LE,
          c_rhs = Num (real_of_int (ub_global inst))\<rparr>"

definition set_omega :: "Instance \<Rightarrow> area \<times> int \<times> int \<Rightarrow> error + constr" where
  "set_omega inst = (\<lambda>(a, theta, s).
     ebind (lookup (srequired inst) (s, a, theta)) (\<lambda>r1.
     ebind (td_get (omega_keys inst) mkOmega (a, theta, s)) (\<lambda>om.
     ebind (lookup (srequired inst) (s, a, theta)) (\<lambda>r2.
     ebind (td_get (x_keys inst) mkX (a, theta)) (\<lambda>xv.
     ebind (lookup (sdemand inst) (s, a, theta)) (\<lambda>d.
     Inr \<lparr>c_name = ''set_omega'', c_lhs = Mul r1 om, c_sense = GE,
          c_rhs = MulR (MulR (Sub (Num r2) xv) d) (outsourcing_cost inst)\<rparr>))))))"

definition build_base_model :: "Solver \<Rightarrow> error + Solver" where
  "build_base_model sv =
     (let inst = s_i sv;
          m1 = addVars (x_keys inst) mkX INTEGER 0 1 \<lparr>m_vars = [], m_constrs = []\<rparr>
      in
      ebind (py_truediv 1 (real_of_int (n_scenarios inst))) (\<lambda>w.
      let m2 = addVars (omega_keys inst) mkOmega CONTINUOUS 0 w m1 in
      ebind (addConstrs (reg_bound inst) (List.product (regions inst) (periods inst)) m2) (\<lambda>m3.
      ebind (addConstrs (global_bound inst) (periods inst) m3) (\<lambda>m4.
      ebind (addConstrs (set_omega inst) (omega_keys inst) m4) (\<lambda>m5.
      Inr (sv\<lparr>s_m := m5, s_x := x_keys inst, s_omega := omega_keys inst\<rparr>))))))"

subsection \<open>Movement variables\<close>

definition y_idx :: "Instance \<Rightarrow> error + (area \<times> area \<times> int) list" where
  "y_idx inst =
     efilter (\<lambda>(a1, a2, theta).
                if a1 \<noteq> a2 then
                  ebind (lookup (area_regs inst) a1) (\<lambda>r1.
                  ebind (lookup (area_regs inst) a2) (\<lambda>r2. Inr (r1 = r2)))
                else Inr False)
       (concat (map (\<lambda>a1. concat (map (\<lambda>a2. map (\<lambda>theta. (a1, a2, theta)) (periods inst))
                                       (areas inst)))
                    (areas inst)))"

definition add_y_vars :: "Solver \<Rightarrow> error + Solver" where
  "add_y_vars sv =
     ebind (y_idx (s_i sv)) (\<lambda>yk.
     Inr (sv\<lparr>s_m := addVars yk mkY INTEGER 0 EPS (s_m sv), s_y := Some yk\<rparr>))"

text \<open>\<open>y.sum('*', a, theta)\<close> and \<open>y.sum(a, '*', theta)\<close>.\<close>

definition y_sum_in :: "(area \<times> area \<times> int) list \<Rightarrow> area \<Rightarrow> int \<Rightarrow> expr" where
  "y_sum_in yk a theta =
     Sum (map (\<lambda>k. V (mkY k)) (filter (\<lambda>(a1, a2, t). a2 = a \<and> t = theta) yk))"

definition y_sum_out :: "(area \<times> area \<times> int) list \<Rightarrow> area \<Rightarrow> int \<Rightarrow> expr" where
  "y_sum_out yk a theta =
     Sum (map (\<lambda>k. V (mkY k)) (filter (\<lambda>(a1, a2, t). a1 = a \<and> t = theta) yk))"

text \<open>The pairs \<open>(region, a1)\<close> of \<open>for region in regions for a1 in reg_areas[region]\<close>.\<close>

definition region_area_pairs :: "Instance \<Rightarrow> error + (region \<times> area) list" where
  "region_area_pairs inst =
     ebind (emap (\<lambda>region. ebind (lookup (reg_areas inst) region)
                              (\<lambda>ras. Inr (map (Pair region) ras)))
                 (regions inst))
       (\<lambda>ps. Inr (concat ps))"

subsection \<open>The fixed model\<close>

definition fix_region_fixed :: "Instance \<Rightarrow> region \<times> int list \<times> int \<Rightarrow> error + constr" where
  "fix_region_fixed inst = (\<lambda>(region, shift, theta).
     ebind (lookup (reg_areas inst) region) (\<lambda>ras1.
     ebind (emap (\<lambda>a. td_get (x_keys inst) mkX (a, theta)) ras1) (\<lambda>xs1.
     ebind (lookup (reg_areas inst) region) (\<lambda>ras2.
     ebind (emap (\<lambda>a. case shift of
                         [] \<Rightarrow> Inl IndexError
                       | t0 # _ \<Rightarrow> td_get (x_keys inst) mkX (a, t0)) ras2) (\<lambda>xs2.
     Inr \<lparr>c_name = ''fix_region_n_couriers_in_shift'', c_lhs = Sum xs1, c_sense = EQ,
          c_rhs = Sum xs2\<rparr>)))))"

definition flow_balance_fixed ::
  "Instance \<Rightarrow> (area \<times> area \<times> int) list \<Rightarrow> (region \<times> area) \<times> int list \<times> int \<Rightarrow> error + constr" where
  "flow_balance_fixed inst yk = (\<lambda>((region, a1), shift, theta).
     ebind (td_get (x_keys inst) mkX (a1, theta)) (\<lambda>x1.
     ebind (td_get (x_keys inst) mkX (a1, theta - 1)) (\<lambda>x0.
     Inr \<lparr>c_name = ''flow_balance'', c_lhs = x1, c_sense = EQ,
          c_rhs = Sub (Add x0 (y_sum_in yk a1 theta)) (y_sum_out yk a1 theta)\<rparr>)))"

text \<open>The pairs \<open>(shift, theta)\<close> of \<open>for shift in shifts for theta in shift[1:]\<close>.\<close>

definition shift_tail_pairs :: "Instance \<Rightarrow> (int list \<times> int) list" where
  "shift_tail_pairs inst = concat (map (\<lambda>shift. map (Pair shift) (tl shift)) (shifts inst))"

definition build_fixed_model :: "Solver \<Rightarrow> error + Solver" where
  "build_fixed_model sv0 =
     ebind (build_base_model sv0) (\<lambda>sv1.
     ebind (add_y_vars sv1) (\<lambda>sv.
     let inst = s_i sv in
     ebind (addConstrs (fix_region_fixed inst)
              (List.product (regions inst) (shift_tail_pairs inst)) (s_m sv)) (\<lambda>m1.
     ebind (region_area_pairs inst) (\<lambda>rps.
     ebind (attr (s_y sv)) (\<lambda>yk.
     ebind (addConstrs (flow_balance_fixed inst yk)
              (List.product rps (shift_tail_pairs inst)) m1) (\<lambda>m2.
     Inr (sv\<lparr>s_m := m2\<rparr>)))))))"

subsection \<open>The flexible model\<close>

definition fix_region_flex ::
  "Instance \<Rightarrow> (area \<times> int) list \<Rightarrow> (area \<times> int) list \<Rightarrow> int \<Rightarrow> region \<times> int \<Rightarrow> error + constr" where
  "fix_region_flex inst zpk zmk shift_len = (\<lambda>(region, theta).
     ebind (lookup (reg_areas inst) region) (\<lambda>ras1.
     ebind (emap (\<lambda>a. td_get zmk mkZminus (a, theta)) ras1) (\<lambda>zs1.
     ebind (lookup (reg_areas inst) region) (\<lambda>ras2.
     ebind (emap (\<lambda>a. td_get zpk mkZplus (a, theta + shift_len - 1)) ras2) (\<lambda>zs2.
     Inr \<lparr>c_name = ''fix_region_n_couriers_in_shift'', c_lhs = Sum zs1, c_sense = EQ,
          c_rhs = Sum zs2\<rparr>)))))"

definition flow_balance_flex ::
  "Instance \<Rightarrow> (area \<times> area \<times> int) list \<Rightarrow> (area \<times> int) list \<Rightarrow> (area \<times> int) list \<Rightarrow>
     (region \<times> area) \<times> int \<Rightarrow> error + constr" where
  "flow_balance_flex inst yk zpk zmk = (\<lambda>((region, a1), theta).
     ebind (td_get (x_keys inst) mkX (a1, theta)) (\<lambda>x1.
     ebind (td_get (x_keys inst) mkX (a1, theta - 1)) (\<lambda>x0.
     ebind (td_get zmk mkZminus (a1, theta)) (\<lambda>zm.
     ebind (td_get zpk mkZplus (a1, theta - 1)) (\<lambda>zp.
     Inr \<lparr>c_name = ''flow_balance'', c_lhs = x1, c_sense = EQ,
          c_rhs = Sub (Add (Sub (Add x0 (y_sum_in yk a1 theta)) (y_sum_out yk a1 theta)) zm) zp\<rparr>)))))"

definition flow_balance_first_period ::
  "Instance \<Rightarrow> (area \<times> int) list \<Rightarrow> area \<Rightarrow> error + constr" where
  "flow_balance_first_period inst zmk a =
     ebind (td_get (x_keys inst) mkX (a, 0)) (\<lambda>x0.
     ebind (td_get zmk mkZminus (a, 0)) (\<lambda>zm.
     Inr \<lparr>c_name = ''flow_balance_first_period'', c_lhs = x0, c_sense = EQ, c_rhs = zm\<rparr>))"

text \<open>The keys \<open>(a, theta)\<close> of \<open>for theta in thetas: for a in areas\<close>.\<close>

definition theta_area_keys :: "Instance \<Rightarrow> int list \<Rightarrow> (area \<times> int) list" where
  "theta_area_keys inst thetas = concat (map (\<lambda>theta. map (\<lambda>a. (a, theta)) (areas inst)) thetas)"

text \<open>
  For a period count other than 8 the method returns the exception object instead of
  raising it: the caller goes on with the variables and no shift constraint.
\<close>

definition build_flexible_model :: "Solver \<Rightarrow> error + Solver" where
  "build_flexible_model sv0 =
     ebind (build_base_model sv0) (\<lambda>sv1.
     ebind (add_y_vars sv1) (\<lambda>sv2.
     let inst = s_i sv2;
         zk = x_keys inst;
         m1 = addVars zk mkZplus INTEGER 0 0 (s_m sv2);
         m2 = addVars zk mkZminus INTEGER 0 0 m1;
         sv = sv2\<lparr>s_m := m2, s_zplus := Some zk, s_zminus := Some zk\<rparr>
     in
     if n_periods inst = 8 then
       (let shift_len = 4 in
        ebind (efold (set_UB zk mkZminus 0)
                 (theta_area_keys inst (py_range2 (n_periods inst - shift_len + 1) (n_periods inst)))
                 m2) (\<lambda>m3.
        ebind (efold (set_UB zk mkZplus 0)
                 (theta_area_keys inst (py_range (shift_len - 1))) m3) (\<lambda>m4.
        ebind (addConstrs (fix_region_flex inst zk zk shift_len)
                 (List.product (regions inst)
                    (filter (\<lambda>theta. theta < n_periods inst + 1 - shift_len) (periods inst)))
                 m4) (\<lambda>m5.
        ebind (region_area_pairs inst) (\<lambda>rps.
        ebind (attr (s_y sv)) (\<lambda>yk.
        ebind (addConstrs (flow_balance_flex inst yk zk zk)
                 (List.product rps (filter (\<lambda>theta. theta > 0) (periods inst))) m5) (\<lambda>m6.
        ebind (addConstrs (flow_balance_first_period inst zk) (areas inst) m6) (\<lambda>m7.
        Inr (sv\<lparr>s_m := m7\<rparr>)))))))))
     else Inr sv))"

subsection \<open>The partially flexible model\<close>

definition link_z_w ::
  "Instance \<Rightarrow> (area \<times> int) list \<Rightarrow> int list \<Rightarrow> region \<times> int \<Rightarrow> error + constr" where
  "link_z_w inst zmk w_idx = (\<lambda>(region, theta).
     ebind (lookup (reg_areas inst) region) (\<lambda>ras.
     ebind (emap (\<lambda>a. td_get zmk mkZminus (a, theta)) ras) (\<lambda>zs.
     ebind (lookup (ub_reg inst) region) (\<lambda>u.
     ebind (td_get w_idx W theta) (\<lambda>wv.
     Inr \<lparr>c_name = ''link_z_w'', c_lhs = Sum zs, c_sense = LE,
          c_rhs = Mul (real_of_int u) wv\<rparr>)))))"

text \<open>
  The cap is read from the attribute \<open>max_n_shifts\<close> when the last constraint is built.
  An object without the attribute raises \<open>AttributeError\<close>; the value \<open>None\<close> is not an
  operand the MILP library accepts in a constraint.
\<close>

definition limit_n_shifts :: "Instance \<Rightarrow> int list \<Rightarrow> error + constr" where
  "limit_n_shifts inst w_idx =
     (case max_n_shifts inst of
        None \<Rightarrow> Inl AttributeError
      | Some None \<Rightarrow> Inl GurobiError
      | Some (Some k) \<Rightarrow>
          Inr \<lparr>c_name = ''limit_n_shifts'', c_lhs = Sum (map (\<lambda>theta. V (W theta)) w_idx),
               c_sense = LE, c_rhs = Num (real_of_int k)\<rparr>)"

definition build_partflex_model :: "Solver \<Rightarrow> error + Solver" where
  "build_partflex_model sv0 =
     ebind (build_flexible_model sv0) (\<lambda>sv.
     let inst = s_i sv in
     if n_periods inst = 8 then
       (let shift_len = 4;
            w_idx = py_range (n_periods inst - shift_len + 1);
            m1 = addVars w_idx W BINARY 0 0 (s_m sv)
        in
        ebind (attr (s_zminus sv)) (\<lambda>zmk.
        ebind (addConstrs (link_z_w inst zmk w_idx) (List.product (regions inst) w_idx) m1) (\<lambda>m2.
        ebind (limit_n_shifts inst w_idx) (\<lambda>c.
        Inr (sv\<lparr>s_m := m2\<lparr>m_constrs := m_constrs m2 @ [c]\<rparr>, s_w := Some w_idx\<rparr>)))))
     else Inr sv)"

section \<open>Solutions\<close>

text \<open>
  The MILP library is an external collaborator. What the development relies on is its
  contract: the values it returns for a model satisfy every constraint that was added
  and the bounds of every variable. Integrality and optimality are not used.
\<close>

fun eval :: "(var \<Rightarrow> real) \<Rightarrow> expr \<Rightarrow> real" where
  "eval sol (Num c) = c"
| "eval sol (V v) = sol v"
| "eval sol (Add e1 e2) = eval sol e1 + eval sol e2"
| "eval sol (Sub e1 e2) = eval sol e1 - eval sol e2"
| "eval sol (Mul c e) = c * eval sol e"
| "eval sol (MulR e c) = eval sol e * c"
| "eval sol (Sum es) = sum_list (map (eval sol) es)"

definition holds :: "(var \<Rightarrow> real) \<Rightarrow> constr \<Rightarrow> bool" where
  "holds sol c =
     (case c_sense c of
        LE \<Rightarrow> eval sol (c_lhs c) \<le> eval sol (c_rhs c)
      | GE \<Rightarrow> eval sol (c_lhs c) \<ge> eval sol (c_rhs c)
      | EQ \<Rightarrow> eval sol (c_lhs c) = eval sol (c_rhs c))"

definition in_bounds :: "(var \<Rightarrow> real) \<Rightarrow> vardecl \<Rightarrow> bool" where
  "in_bounds sol d =
     (v_lb d \<le> sol (v_var d) \<and> (case v_ub d of None \<Rightarrow> True | Some u \<Rightarrow> sol (v_var d) \<le> u))"

definition feasible :: "(var \<Rightarrow> real) \<Rightarrow> milp \<Rightarrow> bool" where
  "feasible sol md = (list_all (holds sol) (m_constrs md) \<and> list_all (in_bounds sol) (m_vars md))"

section \<open>Results extraction\<close>

text \<open>
  A solved model: the value \<open>.X\<close> of every variable and the attributes the script reads
  after \<open>optimize\<close>.
\<close>

record solved =
  val_X :: "var \<Rightarrow> real"
  ObjVal :: real
  Runtime :: real
  NumVars :: int
  NumConstrs :: int
  NumNZs :: int

text \<open>The values a results dictionary holds; a float may be NaN (\<open>RFloat None\<close>).\<close>

datatype rvalue =
    RStr string
  | RInt int
  | RFloat "real option"
  | RIntSeries "(area \<times> int list) list"
  | RFloatSeries "(area \<times> real list) list"
  | RRegionFloats "(region \<times> real) list"

text \<open>\<open>td[k].X\<close>.\<close>

definition td_X :: "'k list \<Rightarrow> ('k \<Rightarrow> var) \<Rightarrow> solved \<Rightarrow> 'k \<Rightarrow> error + real" where
  "td_X keys mk sol k = (if k \<in> set keys then Inr (val_X sol (mk k)) else Inl KeyError)"

definition scenarios_with_demand :: "Instance \<Rightarrow> area \<Rightarrow> int \<Rightarrow> error + int list" where
  "scenarios_with_demand inst a theta =
     efilter (\<lambda>s. ebind (lookup (srequired inst) (s, a, theta)) (\<lambda>r. Inr (r > 0))) (scenarios inst)"

definition outsourced_term :: "Solver \<Rightarrow> solved \<Rightarrow> area \<Rightarrow> int \<Rightarrow> int \<Rightarrow> error + real" where
  "outsourced_term sv sol a theta s =
     ebind (lookup (srequired (s_i sv)) (s, a, theta)) (\<lambda>r1.
     ebind (td_X (s_x sv) mkX sol (a, theta)) (\<lambda>xv.
     ebind (lookup (sdemand (s_i sv)) (s, a, theta)) (\<lambda>d.
     ebind (lookup (srequired (s_i sv)) (s, a, theta)) (\<lambda>r2.
     py_truediv ((r1 - xv) * d) r2))))"

definition outsourced_pct_term :: "Solver \<Rightarrow> solved \<Rightarrow> area \<Rightarrow> int \<Rightarrow> int \<Rightarrow> error + real" where
  "outsourced_pct_term sv sol a theta s =
     ebind (lookup (srequired (s_i sv)) (s, a, theta)) (\<lambda>r1.
     ebind (td_X (s_x sv) mkX sol (a, theta)) (\<lambda>xv.
     ebind (lookup (srequired (s_i sv)) (s, a, theta)) (\<lambda>r2.
     py_truediv (100 * (r1 - xv)) r2)))"

definition inhouse_term :: "Solver \<Rightarrow> solved \<Rightarrow> area \<Rightarrow> int \<Rightarrow> int \<Rightarrow> error + real" where
  "inhouse_term sv sol a theta s =
     ebind (lookup (sdemand (s_i sv)) (s, a, theta)) (\<lambda>d.
     ebind (td_X (s_x sv) mkX sol (a, theta)) (\<lambda>xv.
     ebind (lookup (srequired (s_i sv)) (s, a, theta)) (\<lambda>r.
     py_truediv (d * xv) r)))"

text \<open>
  One pass of the loop over the periods of an area: the three values appended to
  \<open>outsourced\<close>, \<open>outsourced_pct\<close> and \<open>inhouse\<close>.
\<close>

definition parcel_estimates ::
  "Solver \<Rightarrow> solved \<Rightarrow> area \<Rightarrow> int \<Rightarrow> error + (real \<times> real \<times> real)" where
  "parcel_estimates sv sol a theta =
     ebind (scenarios_with_demand (s_i sv) a theta) (\<lambda>swd.
     if length swd = 0 then Inr (0, 0, 0)
     else
       ebind (emap (outsourced_term sv sol a theta) swd) (\<lambda>ts1.
       ebind (emap (outsourced_pct_term sv sol a theta) swd) (\<lambda>ts2.
       ebind (emap (inhouse_term sv sol a theta) swd) (\<lambda>ts3.
       let tot_outsourced = max (sum_list ts1) 0;
           tot_outsourced_pct = max (sum_list ts2) 0;
           tot_inhouse = sum_list ts3
       in
       ebind (py_truediv tot_outsourced (real (length swd))) (\<lambda>avg_outsourced.
       ebind (py_truediv tot_outsourced_pct (real (length swd))) (\<lambda>avg_outsourced_pct.
       ebind (py_truediv tot_inhouse (real (length swd))) (\<lambda>avg_inhouse.
       Inr (avg_outsourced, avg_outsourced_pct, avg_inhouse))))))))"

text \<open>The body of the loop over the areas: the three lists of one area.\<close>

definition area_estimates ::
  "Solver \<Rightarrow> solved \<Rightarrow> area \<Rightarrow> error + (area \<times> real list \<times> real list \<times> real list)" where
  "area_estimates sv sol a =
     ebind (emap (parcel_estimates sv sol a) (periods (s_i sv))) (\<lambda>es.
     Inr (a, map fst es, map (\<lambda>e. fst (snd e)) es, map (\<lambda>e. snd (snd e)) es))"

definition hired_couriers_entry :: "Solver \<Rightarrow> solved \<Rightarrow> area \<Rightarrow> error + (area \<times> int list)" where
  "hired_couriers_entry sv sol a =
     ebind (emap (\<lambda>theta. td_X (s_x sv) mkX sol (a, theta)) (periods (s_i sv))) (\<lambda>xs.
     Inr (a, map py_int xs))"

definition regional_hired_pct_entry :: "Solver \<Rightarrow> solved \<Rightarrow> region \<Rightarrow> error + (region \<times> real)" where
  "regional_hired_pct_entry sv sol region =
     ebind (lookup (reg_areas (s_i sv)) region) (\<lambda>ras.
     ebind (emap (td_X (s_x sv) mkX sol) (List.product ras (periods (s_i sv)))) (\<lambda>xs.
     ebind (lookup (ub_reg (s_i sv)) region) (\<lambda>u.
     ebind (py_truediv (100 * sum_list xs) (real_of_int (u * n_periods (s_i sv)))) (\<lambda>p.
     Inr (region, p)))))"

text \<open>One entry of \<open>pct_movement\<close>.\<close>

definition pct_movement_entry ::
  "Solver \<Rightarrow> solved \<Rightarrow> (area \<times> area \<times> int) list \<Rightarrow> region \<times> int \<Rightarrow> error + real option" where
  "pct_movement_entry sv sol yk = (\<lambda>(r, theta).
     ebind (efilter (\<lambda>(a1, a2).
                if a1 \<noteq> a2 then
                  ebind (lookup (area_regs (s_i sv)) a1) (\<lambda>r1.
                  if r1 = r then
                    ebind (lookup (area_regs (s_i sv)) a2) (\<lambda>r2. Inr (r2 = r))
                  else Inr False)
                else Inr False)
              (List.product (areas (s_i sv)) (areas (s_i sv)))) (\<lambda>pairs.
     ebind (emap (\<lambda>(a1, a2). td_X yk mkY sol (a1, a2, theta)) pairs) (\<lambda>ys.
     ebind (lookup (reg_areas (s_i sv)) r) (\<lambda>ras.
     ebind (emap (\<lambda>a. td_X (s_x sv) mkX sol (a, theta)) ras) (\<lambda>xs.
     let movements = sum_list ys; employed = sum_list xs in
     if employed = 0 then Inr (Some 0)
     else ebind (py_truediv (100 * movements) employed) (\<lambda>p. Inr (Some p)))))))"

text \<open>\<open>ibasename.split('_')[0]\<close>.\<close>

definition city_of :: "string \<Rightarrow> string" where
  "city_of nm = takeWhile (\<lambda>c. c \<noteq> CHR ''_'') nm"

definition basic_results :: "Solver \<Rightarrow> solved \<Rightarrow> error + (string \<times> rvalue) list" where
  "basic_results sv sol =
     (let inst = s_i sv;
          results0 = py_dict [
            (''instance'', RStr (ibasename inst)),
            (''model'', RStr (a_model (s_args sv))),
            (''city'', RStr (city_of (ibasename inst))),
            (''DB'', RStr (j_demand_baseline (json inst))),
            (''DT'', RStr (j_demand_type (json inst))),
            (''OC'', RFloat (Some (a_outsourcing_cost_multiplier (s_args sv)))),
            (''RM'', RFloat (Some (reg_multiplier inst))),
            (''GM'', RFloat (Some (glb_multiplier inst))),
            (''num_periods'', RInt (j_num_time_intervals (json inst))),
            (''num_scenarios'', RInt (j_num_scenarios (json inst))),
            (''obj_value'', RFloat (Some (ObjVal sol))),
            (''elapsed_time'', RFloat (Some (Runtime sol))),
            (''n_variables'', RInt (NumVars sol)),
            (''n_constraints'', RInt (NumConstrs sol)),
            (''n_nonzeroes'', RInt (NumNZs sol))];
          hiring_costs = sum_list (map (\<lambda>k. val_X sol (mkX k)) (s_x sv));
          outsourcing_costs = ObjVal sol - hiring_costs
      in
      ebind (emap (hired_couriers_entry sv sol) (areas inst)) (\<lambda>hired.
      ebind (emap (area_estimates sv sol) (areas inst)) (\<lambda>ests.
      let hired_couriers = py_dict hired;
          outsourced_parcels = py_dict (map (\<lambda>(a, os, ps, hs). (a, os)) ests);
          outsourced_parcels_pct = py_dict (map (\<lambda>(a, os, ps, hs). (a, ps)) ests);
          inhouse_parcels = py_dict (map (\<lambda>(a, os, ps, hs). (a, hs)) ests)
      in
      ebind (emap (regional_hired_pct_entry sv sol) (regions inst)) (\<lambda>rhp.
      let regional_hired_pct = py_dict rhp;
          regional_avg_hired_pct = np_mean (map (\<lambda>kv. Some (snd kv)) regional_hired_pct)
      in
      ebind (py_truediv (100 * sum_list (map (\<lambda>k. val_X sol (mkX k)) (s_x sv)))
               (real_of_int (ub_global inst * n_periods inst))) (\<lambda>global_avg_hired_pct.
      ebind (case s_y sv of
               None \<Rightarrow> Inr results0
             | Some yk \<Rightarrow>
                 ebind (emap (pct_movement_entry sv sol yk)
                          (List.product (regions inst) (periods inst))) (\<lambda>pm.
                 Inr (AList.update ''courier_moved_pct'' (RFloat (np_mean pm)) results0)))
        (\<lambda>results1.
      Inr (fold (\<lambda>(k, v). AList.update k v) [
             (''hiring_costs'', RFloat (Some hiring_costs)),
             (''outsourcing_costs'', RFloat (Some outsourcing_costs)),
             (''hired_couriers'', RIntSeries hired_couriers),
             (''outsourced_parcels'', RFloatSeries outsourced_parcels),
             (''inhouse_parcels'', RFloatSeries inhouse_parcels),
             (''regional_hired_pct'', RRegionFloats regional_hired_pct),
             (''regional_avg_hired_pct'', RFloat regional_avg_hired_pct),
             (''global_avg_hired_pct'', RFloat (Some global_avg_hired_pct))]
           results1)))))))"

definition fixed_results :: "Solver \<Rightarrow> solved \<Rightarrow> error + (string \<times> rvalue) list" where
  "fixed_results sv sol =
     ebind (basic_results sv sol) (\<lambda>results.
     Inr (AList.update ''n_shift_start_periods'' (RInt 2) results))"

text \<open>One pass of the loop that counts the periods in which a shift starts.\<close>

definition count_start :: "Solver \<Rightarrow> solved \<Rightarrow> (area \<times> int) list \<Rightarrow> int \<Rightarrow> int \<Rightarrow> error + int" where
  "count_start sv sol zmk theta periods_with_start =
     (if \<not> (\<exists>a\<in>set (areas (s_i sv)). (a, theta) \<in> set zmk) then Inr periods_with_start
      else
        ebind (eany (\<lambda>a. ebind (td_X zmk mkZminus sol (a, theta)) (\<lambda>v. Inr (v > 1 / 10)))
                 (areas (s_i sv))) (\<lambda>b.
        Inr (if b then periods_with_start + 1 else periods_with_start)))"

definition flex_results :: "Solver \<Rightarrow> solved \<Rightarrow> error + (string \<times> rvalue) list" where
  "flex_results sv sol =
     ebind (basic_results sv sol) (\<lambda>results.
     ebind (attr (s_zminus sv)) (\<lambda>zmk.
     ebind (efold (count_start sv sol zmk) (periods (s_i sv)) 0) (\<lambda>periods_with_start.
     ebind (py_truediv (100 * real_of_int periods_with_start)
              (real_of_int (n_periods (s_i sv)))) (\<lambda>pct.
     Inr (AList.update ''periods_with_start_pct'' (RFloat (Some pct))
            (AList.update ''periods_with_start'' (RInt periods_with_start) results))))))"

text \<open>
  The four entry points. \<open>optimize\<close> is the external solver: its outcome is the
  argument \<open>sol\<close>.
\<close>

definition solve_base :: "Solver \<Rightarrow> solved \<Rightarrow> error + (string \<times> rvalue) list" where
  "solve_base sv0 sol = ebind (build_base_model sv0) (\<lambda>sv. basic_results sv sol)"

definition solve_fixed :: "Solver \<Rightarrow> solved \<Rightarrow> error + (string \<times> rvalue) list" where
  "solve_fixed sv0 sol = ebind (build_fixed_model sv0) (\<lambda>sv. fixed_results sv sol)"

definition solve_partflex :: "Solver \<Rightarrow> solved \<Rightarrow> error + (string \<times> rvalue) list" where
  "solve_partflex sv0 sol = ebind (build_partflex_model sv0) (\<lambda>sv. flex_results sv sol)"

definition solve_flex :: "Solver \<Rightarrow> solved \<Rightarrow> error + (string \<times> rvalue) list" where
  "solve_flex sv0 sol = ebind (build_flexible_model sv0) (\<lambda>sv. flex_results sv sol)"

section \<open>Sample inputs\<close>

text \<open>
  A city of one region with two areas, eight periods and one scenario; area 1 needs no
  courier in period 4. The command line asks for the flexible model.
\<close>

definition js_w :: json_instance where
  "js_w =
     \<lparr>j_regions = [\<lparr>r_id = 0, r_areas = [0, 1]\<rparr>],
      j_num_time_intervals = 8,
      j_num_scenarios = 1,
      j_demand_baseline = ''uniform'',
      j_demand_type = ''peak'',
      j_scenarios =
        [\<lparr>scenario_num = 0,
          data =
            [\<lparr>area_id = 0, demand = [10, 10, 10, 10, 10, 10, 10, 10],
              required_couriers = [2, 2, 2, 2, 2, 2, 2, 2]\<rparr>,
             \<lparr>area_id = 1, demand = [10, 10, 10, 10, 0, 10, 10, 10],
              required_couriers = [2, 2, 2, 2, 0, 2, 2, 2]\<rparr>]\<rparr>]\<rparr>"

definition ns_w :: namespace where
  "ns_w =
     \<lparr>a_model = ''flex'', a_ibasename = ''paris_db=1'',
      a_outsourcing_cost_multiplier = 3 / 2, a_regional_multiplier = 3 / 2,
      a_global_multiplier = 1, a_max_n_shifts = None\<rparr>"

definition inst_w :: Instance where
  "inst_w = projr (compute_data (Args ns_w) js_w)"

text \<open>The same city with six periods.\<close>

definition js_six :: json_instance where
  "js_six =
     \<lparr>j_regions = [\<lparr>r_id = 0, r_areas = [0]\<rparr>],
      j_num_time_intervals = 6,
      j_num_scenarios = 1,
      j_demand_baseline = ''uniform'',
      j_demand_type = ''peak'',
      j_scenarios =
        [\<lparr>scenario_num = 0,
          data =
            [\<lparr>area_id = 0, demand = [10, 10, 10, 10, 10, 10],
              required_couriers = [2, 2, 2, 2, 2, 2]\<rparr>]\<rparr>]\<rparr>"

text \<open>The same city with no period at all.\<close>

definition js_nil :: json_instance where
  "js_nil =
     \<lparr>j_regions = [\<lparr>r_id = 0, r_areas = [0]\<rparr>],
      j_num_time_intervals = 0,
      j_num_scenarios = 1,
      j_demand_baseline = ''uniform'',
      j_demand_type = ''peak'',
      j_scenarios =
        [\<lparr>scenario_num = 0,
          data = [\<lparr>area_id = 0, demand = [], required_couriers = []\<rparr>]\<rparr>]\<rparr>"

text \<open>
  The models built for the sample instance, and a staffing plan for them: two couriers
  in every area and period, starting at periods 0 and 4 and ending at periods 3 and 7,
  nobody moving.
\<close>

definition base_w :: Solver where
  "base_w = projr (build_base_model (new_Solver ns_w inst_w))"
definition fixed_w :: Solver where
  "fixed_w = projr (build_fixed_model (new_Solver ns_w inst_w))"
definition flex_w :: Solver where
  "flex_w = projr (build_flexible_model (new_Solver ns_w inst_w))"
definition sol_w :: "var \<Rightarrow> real" where
  "sol_w v = (case v of
       X a theta \<Rightarrow> 2
     | Zminus a theta \<Rightarrow> (if theta = 0 \<or> theta = 4 then 2 else 0)
     | Zplus a theta \<Rightarrow> (if theta = 3 \<or> theta = 7 then 2 else 0)
     | _ \<Rightarrow> 0)"

section \<open>Movement partners\<close>

text \<open>
  The areas a courier of area \<open>a\<close> can come from or go to: the other areas of the region
  of \<open>a\<close>, in the order of the instance. These are the areas \<open>a'\<close> for which the movement
  variables \<open>y[a', a, theta]\<close> and \<open>y[a, a', theta]\<close> are declared.
\<close>

definition movement_partners :: "Instance \<Rightarrow> area \<Rightarrow> area list" where
  "movement_partners inst a =
     filter (\<lambda>a'. a' \<noteq> a \<and> map_of (area_regs inst) a' = map_of (area_regs inst) a) (areas inst)"

section \<open>The parcel estimates in closed form\<close>

text \<open>
  The required couriers and the demand of a scenario, area and period (0 where the
  instance has no value), the scenarios with a positive requirement at an area and
  period, and what the loop of the results extraction computes over them: the sum of
  the outsourced parcels, clamped at 0 after the summation and divided by their number,
  the same for the outsourced percentage, and the mean of the in-house parcels.
\<close>

definition srequired_at :: "Instance \<Rightarrow> int \<Rightarrow> area \<Rightarrow> int \<Rightarrow> real" where
  "srequired_at inst s a theta =
     (case map_of (srequired inst) (s, a, theta) of Some r \<Rightarrow> r | None \<Rightarrow> 0)"

definition sdemand_at :: "Instance \<Rightarrow> int \<Rightarrow> area \<Rightarrow> int \<Rightarrow> real" where
  "sdemand_at inst s a theta =
     (case map_of (sdemand inst) (s, a, theta) of Some d \<Rightarrow> d | None \<Rightarrow> 0)"

definition positive_scenarios :: "Instance \<Rightarrow> area \<Rightarrow> int \<Rightarrow> int list" where
  "positive_scenarios inst a theta =
     filter (\<lambda>s. 0 < srequired_at inst s a theta) (scenarios inst)"

definition summed_outsourced :: "Instance \<Rightarrow> (var \<Rightarrow> real) \<Rightarrow> area \<Rightarrow> int \<Rightarrow> real" where
  "summed_outsourced inst xs a theta =
     max (\<Sum>s\<leftarrow>positive_scenarios inst a theta.
            (srequired_at inst s a theta - xs (X a theta)) * sdemand_at inst s a theta
            / srequired_at inst s a theta) 0
     / real (length (positive_scenarios inst a theta))"

definition summed_outsourced_pct :: "Instance \<Rightarrow> (var \<Rightarrow> real) \<Rightarrow> area \<Rightarrow> int \<Rightarrow> real" where
  "summed_outsourced_pct inst xs a theta =
     max (\<Sum>s\<leftarrow>positive_scenarios inst a theta.
            100 * (srequired_at inst s a theta - xs (X a theta)) / srequired_at inst s a theta) 0
     / real (length (positive_scenarios inst a theta))"

definition mean_inhouse :: "Instance \<Rightarrow> (var \<Rightarrow> real) \<Rightarrow> area \<Rightarrow> int \<Rightarrow> real" where
  "mean_inhouse inst xs a theta =
     (\<Sum>s\<leftarrow>positive_scenarios inst a theta.
        sdemand_at inst s a theta * xs (X a theta) / srequired_at inst s a theta)
     / real (length (positive_scenarios inst a theta))"

text \<open>
  The estimates as the specification words them, and as the comment in the loop has
  them (no negative amount is outsourced): every scenario's outsourced amount is
  clamped at 0, and the clamped amounts are averaged.
\<close>

definition claimed_outsourced :: "Instance \<Rightarrow> (var \<Rightarrow> real) \<Rightarrow> area \<Rightarrow> int \<Rightarrow> real" where
  "claimed_outsourced inst xs a theta =
     (\<Sum>s\<leftarrow>positive_scenarios inst a theta.
        max ((srequired_at inst s a theta - xs (X a theta)) * sdemand_at inst s a theta
             / srequired_at inst s a theta) 0)
     / real (length (positive_scenarios inst a theta))"

definition claimed_outsourced_pct :: "Instance \<Rightarrow> (var \<Rightarrow> real) \<Rightarrow> area \<Rightarrow> int \<Rightarrow> real" where
  "claimed_outsourced_pct inst xs a theta =
     (\<Sum>s\<leftarrow>positive_scenarios inst a theta.
        max (100 * (srequired_at inst s a theta - xs (X a theta)) / srequired_at inst s a theta) 0)
     / real (length (positive_scenarios inst a theta))"

section \<open>Further sample inputs\<close>

text \<open>The sample command line with the model \<open>partflex\<close> and no shift cap.\<close>

definition ns_pf :: namespace where
  "ns_pf = ns_w\<lparr>a_model := ''partflex''\<rparr>"

text \<open>Keyword arguments for the model \<open>partflex\<close>, without and with the shift cap.\<close>

definition kw_none :: kwargs where
  "kw_none =
     \<lparr>k_model = ''partflex'', k_ibasename = ''paris_db=1'',
      k_outsourcing_cost_multiplier = 3 / 2, k_regional_multiplier = 3 / 2,
      k_global_multiplier = 1, k_max_n_shifts = None\<rparr>"

definition kw_cap :: kwargs where
  "kw_cap = kw_none\<lparr>k_max_n_shifts := Some 2\<rparr>"

definition inst_pf :: Instance where
  "inst_pf = projr (compute_data (Args ns_pf) js_w)"

definition inst_kw :: Instance where
  "inst_kw = projr (compute_data (Kwargs kw_cap) js_w)"

text \<open>
  The sample command line with the model \<open>partflex\<close> and a cap of two shift starts, and
  the partially flexible model built for it.
\<close>

definition ns_cap :: namespace where
  "ns_cap = ns_w\<lparr>a_model := ''partflex'', a_max_n_shifts := Some 2\<rparr>"

definition inst_cap :: Instance where
  "inst_cap = projr (compute_data (Args ns_cap) js_w)"

definition partflex_w :: Solver where
  "partflex_w = projr (build_partflex_model (new_Solver ns_cap inst_cap))"

text \<open>
  A staffing plan with a move: two couriers start in each area at periods 0 and 4; at
  period 1 one of them moves from area 0 to area 1 and stays there until the shift ends
  at period 3, so that area 0 outsources in periods 1 to 3.
\<close>

definition sol_mv :: "var \<Rightarrow> real" where
  "sol_mv v = (case v of
       X a theta \<Rightarrow> (if theta \<in> {1, 2, 3} then (if a = 0 then 1 else 3) else 2)
     | Omega a theta s \<Rightarrow> (if a = 0 \<and> theta \<in> {1, 2, 3} then 15 / 2 else 0)
     | Y a1 a2 theta \<Rightarrow> (if a1 = 0 \<and> a2 = 1 \<and> theta = 1 then 1 else 0)
     | Zminus a theta \<Rightarrow> (if theta = 0 \<or> theta = 4 then 2 else 0)
     | Zplus a theta \<Rightarrow> (if theta = 3 then (if a = 0 then 1 else 3) else if theta = 7 then 2 else 0)
     | W theta \<Rightarrow> (if theta = 0 \<or> theta = 4 then 1 else 0))"

text \<open>A solved base model of the sample instance: the staffing plan \<open>sol_w\<close>.\<close>

definition solved_w :: solved where
  "solved_w =
     \<lparr>val_X = sol_w, ObjVal = 32, Runtime = 1 / 10, NumVars = 32, NumConstrs = 32,
      NumNZs = 80\<rparr>"

text \<open>
  One area, two scenarios: one courier and 5 parcels in the first, three couriers and
  15 parcels in the second, in every period. The solved model hires two couriers and
  pays for the five parcels outsourced in the second scenario.
\<close>

definition js_two :: json_instance where
  "js_two =
     \<lparr>j_regions = [\<lparr>r_id = 0, r_areas = [0]\<rparr>],
      j_num_time_intervals = 8,
      j_num_scenarios = 2,
      j_demand_baseline = ''uniform'',
      j_demand_type = ''peak'',
      j_scenarios =
        [\<lparr>scenario_num = 0,
          data = [\<lparr>area_id = 0, demand = [5, 5, 5, 5, 5, 5, 5, 5],
                  required_couriers = [1, 1, 1, 1, 1, 1, 1, 1]\<rparr>]\<rparr>,
         \<lparr>scenario_num = 1,
          data = [\<lparr>area_id = 0, demand = [15, 15, 15, 15, 15, 15, 15, 15],
                  required_couriers = [3, 3, 3, 3, 3, 3, 3, 3]\<rparr>]\<rparr>]\<rparr>"

definition ns_two :: namespace where
  "ns_two =
     \<lparr>a_model = ''base'', a_ibasename = ''paris_db=2'',
      a_outsourcing_cost_multiplier = 1, a_regional_multiplier = 1,
      a_global_multiplier = 1, a_max_n_shifts = None\<rparr>"

definition inst_two :: Instance where
  "inst_two = projr (compute_data (Args ns_two) js_two)"

definition base_two :: Solver where
  "base_two = projr (build_base_model (new_Solver ns_two inst_two))"

definition solved_two :: solved where
  "solved_two =
     \<lparr>val_X = (\<lambda>v. case v of
                     X a theta \<Rightarrow> 2
                   | Omega a theta s \<Rightarrow> (if s = 1 then 5 else 0)
                   | _ \<Rightarrow> 0),
      ObjVal = 36, Runtime = 1 / 10, NumVars = 24, NumConstrs = 32, NumNZs = 56\<rparr>"

text \<open>One area that needs two fifths of a courier in every period.\<close>

definition js_low :: json_instance where
  "js_low =
     \<lparr>j_regions = [\<lparr>r_id = 0, r_areas = [0]\<rparr>],
      j_num_time_intervals = 8,
      j_num_scenarios = 1,
      j_demand_baseline = ''uniform'',
      j_demand_type = ''peak'',
      j_scenarios =
        [\<lparr>scenario_num = 0,
          data = [\<lparr>area_id = 0, demand = [2, 2, 2, 2, 2, 2, 2, 2],
                  required_couriers = [2 / 5, 2 / 5, 2 / 5, 2 / 5, 2 / 5, 2 / 5, 2 / 5, 2 / 5]\<rparr>]\<rparr>]\<rparr>"

definition inst_low :: Instance where
  "inst_low = projr (compute_data (Args ns_two) js_low)"

definition base_low :: Solver where
  "base_low = projr (build_base_model (new_Solver ns_two inst_low))"

text \<open>Its bounds are 0: the solved model hires nobody and outsources everything.\<close>

definition solved_low :: solved where
  "solved_low =
     \<lparr>val_X = (\<lambda>v. case v of Omega a theta s \<Rightarrow> 2 | _ \<Rightarrow> 0),
      ObjVal = 16, Runtime = 1 / 10, NumVars = 16, NumConstrs = 24, NumNZs = 32\<rparr>"

text \<open>One area that needs no courier at all.\<close>

definition js_zero :: json_instance where
  "js_zero =
     \<lparr>j_regions = [\<lparr>r_id = 0, r_areas = [0]\<rparr>],
      j_num_time_intervals = 8,
      j_num_scenarios = 1,
      j_demand_baseline = ''uniform'',
      j_demand_type = ''peak'',
      j_scenarios =
        [\<lparr>scenario_num = 0,
          data = [\<lparr>area_id = 0, demand = [0, 0, 0, 0, 0, 0, 0, 0],
                  required_couriers = [0, 0, 0, 0, 0, 0, 0, 0]\<rparr>]\<rparr>]\<rparr>"

definition inst_zero :: Instance where
  "inst_zero = projr (compute_data (Args ns_two) js_zero)"

definition base_zero :: Solver where
  "base_zero = projr (build_base_model (new_Solver ns_two inst_zero))"

definition solved_zero :: solved where
  "solved_zero =
     \<lparr>val_X = (\<lambda>v. 0), ObjVal = 0, Runtime = 1 / 10, NumVars = 16, NumConstrs = 24,
      NumNZs = 16\<rparr>"

section \<open>Errors and comprehensions\<close>

lemma ebind_Inr_iff: "ebind r f = Inr y \<longleftrightarrow> (\<exists>v. r = Inr v \<and> f v = Inr y)"
  by (cases r) (simp_all add: ebind_def)

lemma ebind_simps [simp]: "ebind (Inr v) f = f v" "ebind (Inl e) f = Inl e"
  by (simp_all add: ebind_def)

lemma emap_Cons_Inr:
  "emap f (x # xs) = Inr ys \<longleftrightarrow> (\<exists>y zs. f x = Inr y \<and> emap f xs = Inr zs \<and> ys = y # zs)"
  by (cases "f x"; cases "emap f xs") auto

lemma emap_mem: "emap f xs = Inr ys \<Longrightarrow> x \<in> set xs \<Longrightarrow> \<exists>y\<in>set ys. f x = Inr y"
proof (induction xs arbitrary: ys)
  case Nil
  then show ?case by simp
next
  case (Cons z zs)
  from Cons.prems(1) obtain y ws where *: "f z = Inr y" "emap f zs = Inr ws" "ys = y # ws"
    unfolding emap_Cons_Inr by blast
  show ?case
  proof (cases "x = z")
    case True
    with * show ?thesis by simp
  next
    case False
    with Cons.prems(2) have "x \<in> set zs" by simp
    from Cons.IH[OF *(2) this] *(3) show ?thesis by auto
  qed
qed

lemma emap_mem_rev: "emap f xs = Inr ys \<Longrightarrow> y \<in> set ys \<Longrightarrow> \<exists>x\<in>set xs. f x = Inr y"
proof (induction xs arbitrary: ys)
  case Nil
  then show ?case by simp
next
  case (Cons z zs)
  from Cons.prems(1) obtain y' ws where *: "f z = Inr y'" "emap f zs = Inr ws" "ys = y' # ws"
    unfolding emap_Cons_Inr by blast
  show ?case
  proof (cases "y = y'")
    case True
    with * show ?thesis by simp
  next
    case False
    with Cons.prems(2) * have "y \<in> set ws" by simp
    from Cons.IH[OF *(2) this] show ?thesis by auto
  qed
qed

lemma emap_map: "(\<And>x. x \<in> set xs \<Longrightarrow> f x = Inr (g x)) \<Longrightarrow> emap f xs = Inr (map g xs)"
  by (induction xs) simp_all

lemma emap_Inr_map: "emap f xs = Inr ys \<Longrightarrow> ys = map (\<lambda>x. projr (f x)) xs"
proof (induction xs arbitrary: ys)
  case Nil
  then show ?case by simp
next
  case (Cons z zs)
  from Cons.prems(1) obtain y ws where *: "f z = Inr y" "emap f zs = Inr ws" "ys = y # ws"
    unfolding emap_Cons_Inr by blast
  from Cons.IH[OF *(2)] * show ?case by simp
qed

section \<open>Instance derivation\<close>

lemma inst_w_ok: "compute_data (Args ns_w) js_w = Inr inst_w"
proof -
  have "\<not> isl (compute_data (Args ns_w) js_w)"
    by code_simp
  then show ?thesis
    by (simp add: inst_w_def)
qed

lemma get_shifts_init:
  "get_shifts (init_data cfg js ars\<lparr>ub_reg := ubr, ub_global := ubg\<rparr>) =
     (if j_num_time_intervals js = 8 then Inr [[0, 1, 2, 3], [4, 5, 6, 7]]
      else Inl NotImplementedError)"
  by (simp add: get_shifts_def init_data_def py_range_def py_range2_def upto.simps)

lemma set_max_n_shifts_fields:
  "set_max_n_shifts cfg i = Inr i' \<Longrightarrow> n_periods i' = n_periods i \<and> shifts i' = shifts i"
  by (auto simp: set_max_n_shifts_def split: if_splits config.splits option.splits)

text \<open>
  For a period count other than 8 the shift derivation is reached only after the
  inversion of \<open>reg_areas\<close> and the bounds: an exception of either comes first.
\<close>

lemma compute_data_other_periods:
  assumes "j_num_time_intervals js \<noteq> 8"
  shows "compute_data cfg js =
      (case emap (area_regs_entry (map r_id (j_regions js))
                    (py_dict (map (\<lambda>r. (r_id r, r_areas r)) (j_regions js))))
                 (concat (map r_areas (j_regions js))) of
         Inl e \<Rightarrow> Inl e
       | Inr ars \<Rightarrow>
           (case get_ubs (init_data cfg js (py_dict ars)) of
              Inl e \<Rightarrow> Inl e
            | Inr u \<Rightarrow> Inl NotImplementedError))"
  using assms
  by (simp add: compute_data_def Let_def get_shifts_init split: sum.splits prod.splits)

text \<open>
  Claim C5, amended. Instance derivation holds the partition [0..3], [4..7] whenever it
  returns an instance, and then the period count is 8. For every other period count it
  returns no instance, so that no model is built on a wrong partition: it raises the
  error of the inversion of \<open>reg_areas\<close> or of the bounds when one of them fails, both
  evaluated before the shifts, and the not-implemented error otherwise. The shift
  derivation itself, at the point where instance derivation calls it, yields the
  partition when the period count is 8 and raises the not-implemented error for every
  other count.
\<close>

theorem shift_partition_only_for_eight_periods:
  "(compute_data cfg js = Inr inst \<longrightarrow>
      j_num_time_intervals js = 8 \<and> n_periods inst = 8 \<and>
      shifts inst = [[0, 1, 2, 3], [4, 5, 6, 7]])
   \<and> (j_num_time_intervals js \<noteq> 8 \<longrightarrow>
        isl (compute_data cfg js)
        \<and> compute_data cfg js =
          (case emap (area_regs_entry (map r_id (j_regions js))
                        (py_dict (map (\<lambda>r. (r_id r, r_areas r)) (j_regions js))))
                     (concat (map r_areas (j_regions js))) of
             Inl e \<Rightarrow> Inl e
           | Inr ars' \<Rightarrow>
               (case get_ubs (init_data cfg js (py_dict ars')) of
                  Inl e \<Rightarrow> Inl e
                | Inr u \<Rightarrow> Inl NotImplementedError)))
   \<and> get_shifts (init_data cfg js ars\<lparr>ub_reg := ubr, ub_global := ubg\<rparr>) =
       (if j_num_time_intervals js = 8 then Inr [[0, 1, 2, 3], [4, 5, 6, 7]]
        else Inl NotImplementedError)"
proof -
  have ret: "j_num_time_intervals js = 8 \<and> n_periods i = 8 \<and>
      shifts i = [[0, 1, 2, 3], [4, 5, 6, 7]]" if "compute_data cfg js = Inr i" for i
  proof -
    from that obtain ars' ubr' ubg' sh where
      sh: "get_shifts (init_data cfg js (py_dict ars')\<lparr>ub_reg := ubr', ub_global := ubg'\<rparr>) = Inr sh"
      and fin: "set_max_n_shifts cfg
                  (init_data cfg js (py_dict ars')\<lparr>ub_reg := ubr', ub_global := ubg', shifts := sh\<rparr>)
                = Inr i"
      by (auto simp: compute_data_def ebind_Inr_iff Let_def)
    from sh have n8: "j_num_time_intervals js = 8" and shv: "sh = [[0, 1, 2, 3], [4, 5, 6, 7]]"
      by (auto simp: get_shifts_init split: if_splits)
    from set_max_n_shifts_fields[OF fin] n8 shv show ?thesis
      by (simp add: init_data_def)
  qed
  have fails: "isl (compute_data cfg js)" if "j_num_time_intervals js \<noteq> 8"
    using ret that by (cases "compute_data cfg js") auto
  have gs: "get_shifts (init_data cfg js ars\<lparr>ub_reg := ubr, ub_global := ubg\<rparr>) =
       (if j_num_time_intervals js = 8 then Inr [[0, 1, 2, 3], [4, 5, 6, 7]]
        else Inl NotImplementedError)"
    by (rule get_shifts_init)
  from ret[of inst] fails compute_data_other_periods[of js cfg] gs show ?thesis
    by (intro conjI impI) blast+
qed

text \<open>
  The steps of instance derivation on the city with six periods, where the bounds are
  derived and the shift derivation raises, and on the city with no period: there the
  mean over the periods is NaN, and \<open>int\<close> of the bound raises \<open>ValueError\<close> before the
  shifts are derived.
\<close>

lemma six_periods_steps:
  "j_num_time_intervals js_six \<noteq> 8"
  "emap (area_regs_entry (map r_id (j_regions js_six))
           (py_dict (map (\<lambda>r. (r_id r, r_areas r)) (j_regions js_six))))
        (concat (map r_areas (j_regions js_six))) = Inr [(0, 0)]"
  "get_ubs (init_data (Args ns_w) js_six (py_dict [(0, 0)])) = Inr ([(0, 3)], 3)"
  by code_simp+

lemma nil_periods_steps:
  "j_num_time_intervals js_nil \<noteq> 8"
  "emap (area_regs_entry (map r_id (j_regions js_nil))
           (py_dict (map (\<lambda>r. (r_id r, r_areas r)) (j_regions js_nil))))
        (concat (map r_areas (j_regions js_nil))) = Inr [(0, 0)]"
  "get_ubs (init_data (Args ns_w) js_nil (py_dict [(0, 0)])) = Inl ValueError"
  by code_simp+

theorem shift_partition_only_for_eight_periods_counterexample:
  "j_num_time_intervals js_nil \<noteq> 8
   \<and> compute_data (Args ns_w) js_nil = Inl ValueError
   \<and> compute_data (Args ns_w) js_nil \<noteq> Inl NotImplementedError"
  by code_simp

theorem shift_partition_only_for_eight_periods_witness:
  "compute_data (Args ns_w) js_w = Inr inst_w \<and> j_num_time_intervals js_w = 8
   \<and> n_periods inst_w = 8 \<and> shifts inst_w = [[0, 1, 2, 3], [4, 5, 6, 7]]
   \<and> j_num_time_intervals js_six \<noteq> 8
   \<and> compute_data (Args ns_w) js_six = Inl NotImplementedError
   \<and> j_num_time_intervals js_nil \<noteq> 8
   \<and> compute_data (Args ns_w) js_nil = Inl ValueError"
proof -
  from shift_partition_only_for_eight_periods[of "Args ns_w" js_w inst_w] inst_w_ok
  have w: "j_num_time_intervals js_w = 8" "n_periods inst_w = 8"
    "shifts inst_w = [[0, 1, 2, 3], [4, 5, 6, 7]]" by simp_all
  from shift_partition_only_for_eight_periods[of "Args ns_w" js_six] six_periods_steps(1)
  have "compute_data (Args ns_w) js_six =
          (case emap (area_regs_entry (map r_id (j_regions js_six))
                        (py_dict (map (\<lambda>r. (r_id r, r_areas r)) (j_regions js_six))))
                     (concat (map r_areas (j_regions js_six))) of
             Inl e \<Rightarrow> Inl e
           | Inr ars' \<Rightarrow>
               (case get_ubs (init_data (Args ns_w) js_six (py_dict ars')) of
                  Inl e \<Rightarrow> Inl e
                | Inr u \<Rightarrow> Inl NotImplementedError))" by blast
  then have six: "compute_data (Args ns_w) js_six = Inl NotImplementedError"
    by (simp add: six_periods_steps(2,3))
  from shift_partition_only_for_eight_periods[of "Args ns_w" js_nil] nil_periods_steps(1)
  have "compute_data (Args ns_w) js_nil =
          (case emap (area_regs_entry (map r_id (j_regions js_nil))
                        (py_dict (map (\<lambda>r. (r_id r, r_areas r)) (j_regions js_nil))))
                     (concat (map r_areas (j_regions js_nil))) of
             Inl e \<Rightarrow> Inl e
           | Inr ars' \<Rightarrow>
               (case get_ubs (init_data (Args ns_w) js_nil (py_dict ars')) of
                  Inl e \<Rightarrow> Inl e
                | Inr u \<Rightarrow> Inl NotImplementedError))" by blast
  then have nil: "compute_data (Args ns_w) js_nil = Inl ValueError"
    by (simp add: nil_periods_steps(2,3))
  from inst_w_ok w six_periods_steps(1) six nil_periods_steps(1) nil show ?thesis
    by (intro conjI)
qed

section \<open>Dictionaries and the model library\<close>

lemma lookup_Inr_iff: "lookup d k = Inr v \<longleftrightarrow> map_of d k = Some v"
  by (simp add: lookup_def split: option.splits)

lemma td_get_Inr_iff: "td_get keys mk k = Inr e \<longleftrightarrow> k \<in> set keys \<and> e = V (mk k)"
  by (auto simp: td_get_def)

lemma m_vars_addVars:
  "m_vars (addVars idx mk vt lb ob md) =
     m_vars md @ map (\<lambda>k. \<lparr>v_var = mk k, v_type = vt, v_lb = lb, v_ub = None, v_obj = ob\<rparr>) idx"
  by (simp add: addVars_def)

lemma m_constrs_addVars: "m_constrs (addVars idx mk vt lb ob md) = m_constrs md"
  by (simp add: addVars_def)

lemma addConstrs_Inr_iff:
  "addConstrs gen idx md = Inr md' \<longleftrightarrow>
     (\<exists>cs. emap gen idx = Inr cs \<and> md' = md\<lparr>m_constrs := m_constrs md @ cs\<rparr>)"
  by (auto simp: addConstrs_def ebind_Inr_iff)

lemma addConstrs_D:
  assumes "addConstrs gen idx md = Inr md'"
  shows "m_vars md' = m_vars md"
    and "set (m_constrs md) \<subseteq> set (m_constrs md')"
    and "k \<in> set idx \<Longrightarrow> \<exists>c\<in>set (m_constrs md'). gen k = Inr c"
proof -
  from assms obtain cs where cs: "emap gen idx = Inr cs" "md' = md\<lparr>m_constrs := m_constrs md @ cs\<rparr>"
    unfolding addConstrs_Inr_iff by blast
  show "m_vars md' = m_vars md" "set (m_constrs md) \<subseteq> set (m_constrs md')"
    using cs(2) by simp_all
  show "\<exists>c\<in>set (m_constrs md'). gen k = Inr c" if "k \<in> set idx"
    using emap_mem[OF cs(1) that] cs(2) by auto
qed

lemma feasible_holds: "feasible sol md \<Longrightarrow> c \<in> set (m_constrs md) \<Longrightarrow> holds sol c"
  by (simp add: feasible_def list_all_iff)


lemma omega_keys_mem:
  "(a, theta, s) \<in> set (omega_keys inst) \<longleftrightarrow>
     a \<in> set (areas inst) \<and> theta \<in> set (periods inst) \<and> s \<in> set (scenarios inst)"
  by (auto simp: omega_keys_def)

text \<open>What a successful construction of the base model leaves behind.\<close>

lemma build_base_model_D:
  assumes "build_base_model sv = Inr sv'"
  shows "s_i sv' = s_i sv" and "s_x sv' = x_keys (s_i sv)" and "s_y sv' = s_y sv"
    and "n_scenarios (s_i sv) \<noteq> 0"
    and "m_vars (s_m sv') =
           map (\<lambda>k. \<lparr>v_var = mkX k, v_type = INTEGER, v_lb = 0, v_ub = None, v_obj = 1\<rparr>)
               (x_keys (s_i sv)) @
           map (\<lambda>k. \<lparr>v_var = mkOmega k, v_type = CONTINUOUS, v_lb = 0, v_ub = None,
                     v_obj = 1 / real_of_int (n_scenarios (s_i sv))\<rparr>)
               (omega_keys (s_i sv))"
    and "k \<in> set (omega_keys (s_i sv)) \<Longrightarrow> \<exists>c\<in>set (m_constrs (s_m sv')). set_omega (s_i sv) k = Inr c"
    and "rt \<in> set (List.product (regions (s_i sv)) (periods (s_i sv))) \<Longrightarrow>
           \<exists>c\<in>set (m_constrs (s_m sv')). reg_bound (s_i sv) rt = Inr c"
proof -
  let ?i = "s_i sv"
  from assms obtain w m3 m4 m5 where
    w: "py_truediv 1 (real_of_int (n_scenarios ?i)) = Inr w"
    and m3: "addConstrs (reg_bound ?i) (List.product (regions ?i) (periods ?i))
               (addVars (omega_keys ?i) mkOmega CONTINUOUS 0 w
                  (addVars (x_keys ?i) mkX INTEGER 0 1 \<lparr>m_vars = [], m_constrs = []\<rparr>)) = Inr m3"
    and m4: "addConstrs (global_bound ?i) (periods ?i) m3 = Inr m4"
    and m5: "addConstrs (set_omega ?i) (omega_keys ?i) m4 = Inr m5"
    and sv': "sv' = sv\<lparr>s_m := m5, s_x := x_keys ?i, s_omega := omega_keys ?i\<rparr>"
    unfolding build_base_model_def Let_def ebind_Inr_iff by blast
  from w have n0: "n_scenarios ?i \<noteq> 0" and wv: "w = 1 / real_of_int (n_scenarios ?i)"
    by (auto simp: py_truediv_def split: if_splits)
  show "s_i sv' = s_i sv" "s_x sv' = x_keys (s_i sv)" "s_y sv' = s_y sv"
    using sv' by simp_all
  show "n_scenarios ?i \<noteq> 0" by (rule n0)
  show "m_vars (s_m sv') =
           map (\<lambda>k. \<lparr>v_var = mkX k, v_type = INTEGER, v_lb = 0, v_ub = None, v_obj = 1\<rparr>)
               (x_keys ?i) @
           map (\<lambda>k. \<lparr>v_var = mkOmega k, v_type = CONTINUOUS, v_lb = 0, v_ub = None,
                     v_obj = 1 / real_of_int (n_scenarios ?i)\<rparr>)
               (omega_keys ?i)"
    using addConstrs_D(1)[OF m3] addConstrs_D(1)[OF m4] addConstrs_D(1)[OF m5] sv' wv
    by (simp add: m_vars_addVars)
  show "\<exists>c\<in>set (m_constrs (s_m sv')). set_omega ?i k = Inr c" if "k \<in> set (omega_keys ?i)"
    using addConstrs_D(3)[OF m5 that] sv' by simp
  show "\<exists>c\<in>set (m_constrs (s_m sv')). reg_bound ?i rt = Inr c"
    if "rt \<in> set (List.product (regions ?i) (periods ?i))"
    using addConstrs_D(3)[OF m3 that] addConstrs_D(2)[OF m4] addConstrs_D(2)[OF m5] sv' by auto
qed



section \<open>Derived instances\<close>

lemma map_of_fold_update:
  "map_of (fold (\<lambda>(k, v). AList.update k v) kvs acc) = map_of acc ++ map_of (rev kvs)"
proof (induction kvs arbitrary: acc)
  case Nil
  show ?case by simp
next
  case (Cons kv kvs)
  obtain k v where kv: "kv = (k, v)" by (cases kv)
  show ?case
    unfolding kv by (simp add: Cons.IH update_conv' map_add_def fun_eq_iff split: option.splits)
qed

lemma map_of_py_dict: "map_of (py_dict kvs) = map_of (rev kvs)"
  by (simp add: py_dict_def map_of_fold_update)

lemma py_dict_SomeD: "map_of (py_dict kvs) k = Some v \<Longrightarrow> (k, v) \<in> set kvs"
  unfolding map_of_py_dict by (drule map_of_SomeD) simp

lemma py_dict_dom: "k \<in> fst ` set kvs \<Longrightarrow> \<exists>v. map_of (py_dict kvs) k = Some v"
  unfolding map_of_py_dict
  by (metis image_set map_of_eq_None_iff not_None_eq set_rev)

lemma py_dict_None: "k \<notin> fst ` set kvs \<Longrightarrow> map_of (py_dict kvs) k = None"
  unfolding map_of_py_dict by (simp add: map_of_eq_None_iff)

lemma efilter_Cons_Inr:
  "efilter p (x # xs) = Inr ys \<longleftrightarrow>
     (\<exists>b zs. p x = Inr b \<and> efilter p xs = Inr zs \<and> ys = (if b then x # zs else zs))"
  by (cases "p x"; cases "efilter p xs") auto

lemma efilter_Inr_D:
  "efilter p xs = Inr ys \<Longrightarrow> ys = filter (\<lambda>x. p x = Inr True) xs \<and> (\<forall>x\<in>set xs. \<exists>b. p x = Inr b)"
proof (induction xs arbitrary: ys)
  case Nil
  then show ?case by simp
next
  case (Cons z zs)
  from Cons.prems obtain b ws where *: "p z = Inr b" "efilter p zs = Inr ws"
    "ys = (if b then z # ws else ws)"
    unfolding efilter_Cons_Inr by blast
  from Cons.IH[OF *(2)] * show ?case by auto
qed

lemma efilter_filter:
  "(\<And>x. x \<in> set xs \<Longrightarrow> p x = Inr (q x)) \<Longrightarrow> efilter p xs = Inr (filter q xs)"
  by (induction xs) simp_all

lemma set_max_n_shifts_D:
  "set_max_n_shifts cfg i = Inr i' \<Longrightarrow>
     i' = i\<lparr>max_n_shift := max_n_shift i', max_n_shifts := max_n_shifts i'\<rparr>"
  by (auto simp: set_max_n_shifts_def split: if_splits config.splits option.splits)

lemma mhat2_entry_cong:
  "mhat2_entry (i\<lparr>ub_reg := u, ub_global := g, shifts := sh, max_n_shift := v, max_n_shifts := w\<rparr>) m
     = mhat2_entry i m"
  by (rule ext) (simp add: mhat2_entry_def)

lemma ub_reg_entry_cong:
  "ub_reg_entry (i\<lparr>ub_reg := u, ub_global := g, shifts := sh, max_n_shift := v, max_n_shifts := w\<rparr>) m
     = ub_reg_entry i m"
  by (rule ext) (simp add: ub_reg_entry_def)

lemma get_ubs_cong:
  "get_ubs (i\<lparr>ub_reg := u, ub_global := g, shifts := sh, max_n_shift := v, max_n_shifts := w\<rparr>) = get_ubs i"
  by (simp add: get_ubs_def mhat1_entry_def mhat2_entry_cong ub_reg_entry_cong)

lemma area_regs_entry_Inr:
  assumes "area_regs_entry rs ras a = Inr kv"
  obtains region rest where
    "efilter (\<lambda>region. ebind (lookup ras region) (\<lambda>as. Inr (a \<in> set as))) rs = Inr (region # rest)"
    "kv = (a, region)"
proof -
  from assms obtain found where
    fo: "efilter (\<lambda>region. ebind (lookup ras region) (\<lambda>as. Inr (a \<in> set as))) rs = Inr found"
    and c: "(case found of [] \<Rightarrow> Inl IndexError | region # _ \<Rightarrow> Inr (a, region)) = Inr kv"
    unfolding area_regs_entry_def ebind_Inr_iff by blast
  show thesis
  proof (cases found)
    case Nil
    with c show ?thesis by simp
  next
    case (Cons region rest)
    with c fo that show ?thesis by simp
  qed
qed

text \<open>The shape of every instance that instance derivation returns.\<close>

lemma compute_data_D:
  assumes "compute_data cfg js = Inr inst"
  obtains ars ubr ubg v w where
    "emap (area_regs_entry (map r_id (j_regions js))
             (py_dict (map (\<lambda>r. (r_id r, r_areas r)) (j_regions js))))
          (concat (map r_areas (j_regions js))) = Inr ars"
    "get_ubs (init_data cfg js (py_dict ars)) = Inr (ubr, ubg)"
    "j_num_time_intervals js = 8"
    "inst = init_data cfg js (py_dict ars)
       \<lparr>ub_reg := ubr, ub_global := ubg, shifts := [[0, 1, 2, 3], [4, 5, 6, 7]],
        max_n_shift := v, max_n_shifts := w\<rparr>"
proof -
  from assms obtain ars ubr ubg sh where
    ars: "emap (area_regs_entry (map r_id (j_regions js))
             (py_dict (map (\<lambda>r. (r_id r, r_areas r)) (j_regions js))))
          (concat (map r_areas (j_regions js))) = Inr ars"
    and ubs: "get_ubs (init_data cfg js (py_dict ars)) = Inr (ubr, ubg)"
    and sh: "get_shifts (init_data cfg js (py_dict ars)\<lparr>ub_reg := ubr, ub_global := ubg\<rparr>) = Inr sh"
    and fin: "set_max_n_shifts cfg
                (init_data cfg js (py_dict ars)\<lparr>ub_reg := ubr, ub_global := ubg, shifts := sh\<rparr>)
              = Inr inst"
    by (auto simp: compute_data_def ebind_Inr_iff Let_def)
  from sh have n8: "j_num_time_intervals js = 8" and shv: "sh = [[0, 1, 2, 3], [4, 5, 6, 7]]"
    by (auto simp: get_shifts_init split: if_splits)
  from set_max_n_shifts_D[OF fin] shv
  have "inst = init_data cfg js (py_dict ars)
       \<lparr>ub_reg := ubr, ub_global := ubg, shifts := [[0, 1, 2, 3], [4, 5, 6, 7]],
        max_n_shift := max_n_shift inst, max_n_shifts := max_n_shifts inst\<rparr>"
    by simp
  with ars ubs n8 that show thesis by blast
qed

lemma compute_data_periods:
  assumes "compute_data cfg js = Inr inst"
  shows "n_periods inst = 8" and "periods inst = [0, 1, 2, 3, 4, 5, 6, 7]"
    and "shifts inst = [[0, 1, 2, 3], [4, 5, 6, 7]]"
    and "scenarios inst = py_range (n_scenarios inst)"
    and "get_ubs inst = Inr (ub_reg inst, ub_global inst)"
proof -
  from assms obtain ars ubr ubg v w where
    ubs: "get_ubs (init_data cfg js (py_dict ars)) = Inr (ubr, ubg)"
    and n8: "j_num_time_intervals js = 8"
    and inst: "inst = init_data cfg js (py_dict ars)
       \<lparr>ub_reg := ubr, ub_global := ubg, shifts := [[0, 1, 2, 3], [4, 5, 6, 7]],
        max_n_shift := v, max_n_shifts := w\<rparr>"
    by (rule compute_data_D)
  show "n_periods inst = 8" "periods inst = [0, 1, 2, 3, 4, 5, 6, 7]"
    "shifts inst = [[0, 1, 2, 3], [4, 5, 6, 7]]" "scenarios inst = py_range (n_scenarios inst)"
    unfolding inst using n8 by (simp_all add: init_data_def py_range_def upto.simps)
  show "get_ubs inst = Inr (ub_reg inst, ub_global inst)"
    unfolding inst get_ubs_cong using ubs by simp
qed

lemma compute_data_regions:
  assumes "compute_data cfg js = Inr inst"
  shows "region \<in> set (regions inst) \<Longrightarrow>
           \<exists>ras. lookup (reg_areas inst) region = Inr ras \<and> set ras \<subseteq> set (areas inst)"
    and "a \<in> set (areas inst) \<Longrightarrow>
           \<exists>region\<in>set (regions inst). \<exists>ras. lookup (reg_areas inst) region = Inr ras \<and> a \<in> set ras"
    and "a \<in> set (areas inst) \<Longrightarrow> \<exists>r. lookup (area_regs inst) a = Inr r"
proof -
  let ?rs = "map r_id (j_regions js)"
  let ?ras = "py_dict (map (\<lambda>r. (r_id r, r_areas r)) (j_regions js))"
  let ?as = "concat (map r_areas (j_regions js))"
  from assms obtain ars ubr ubg v w where
    ars: "emap (area_regs_entry ?rs ?ras) ?as = Inr ars"
    and inst: "inst = init_data cfg js (py_dict ars)
       \<lparr>ub_reg := ubr, ub_global := ubg, shifts := [[0, 1, 2, 3], [4, 5, 6, 7]],
        max_n_shift := v, max_n_shifts := w\<rparr>"
    by (rule compute_data_D)
  have f: "regions inst = ?rs" "areas inst = ?as" "reg_areas inst = ?ras"
    "area_regs inst = py_dict ars"
    unfolding inst by (simp_all add: init_data_def)
  show "\<exists>ras. lookup (reg_areas inst) region = Inr ras \<and> set ras \<subseteq> set (areas inst)"
    if "region \<in> set (regions inst)"
  proof -
    from that have "region \<in> fst ` set (map (\<lambda>r. (r_id r, r_areas r)) (j_regions js))"
      unfolding f by force
    from py_dict_dom[OF this] obtain ras where ras: "map_of ?ras region = Some ras" by blast
    from py_dict_SomeD[OF this] have "set ras \<subseteq> set ?as" by auto
    with ras show ?thesis unfolding f by (auto simp: lookup_Inr_iff)
  qed
  show "\<exists>region\<in>set (regions inst). \<exists>ras. lookup (reg_areas inst) region = Inr ras \<and> a \<in> set ras"
    if "a \<in> set (areas inst)"
  proof -
    from that have "a \<in> set ?as" unfolding f .
    from emap_mem[OF ars this] obtain kv where "area_regs_entry ?rs ?ras a = Inr kv" by blast
    then obtain region rest where
      fo: "efilter (\<lambda>region. ebind (lookup ?ras region) (\<lambda>as. Inr (a \<in> set as))) ?rs
             = Inr (region # rest)"
      by (rule area_regs_entry_Inr)
    have rf: "region \<in> set (region # rest)" by simp
    from efilter_Inr_D[OF fo] rf have "region \<in> set ?rs"
      and "ebind (lookup ?ras region) (\<lambda>as. Inr (a \<in> set as)) = Inr True"
      by simp_all
    then show ?thesis unfolding f by (auto simp: ebind_Inr_iff)
  qed
  show "\<exists>r. lookup (area_regs inst) a = Inr r" if "a \<in> set (areas inst)"
  proof -
    from that have "a \<in> set ?as" unfolding f .
    from emap_mem[OF ars this] obtain kv where kv: "kv \<in> set ars"
      "area_regs_entry ?rs ?ras a = Inr kv" by blast
    from kv(2) have "fst kv = a"
      by (rule area_regs_entry_Inr) simp
    with kv(1) have "a \<in> fst ` set ars" by force
    from py_dict_dom[OF this] show ?thesis unfolding f by (simp add: lookup_Inr_iff)
  qed
qed

section \<open>The fixed model\<close>

lemma emap_td_get:
  assumes "emap (\<lambda>a. td_get keys mk (g a)) as = Inr es"
  shows "es = map (\<lambda>a. V (mk (g a))) as"
proof -
  have "es = map (\<lambda>a. projr (td_get keys mk (g a))) as"
    using emap_Inr_map[OF assms] .
  also have "\<dots> = map (\<lambda>a. V (mk (g a))) as"
  proof (rule map_cong[OF refl])
    fix a assume "a \<in> set as"
    from emap_mem[OF assms this] obtain e where "td_get keys mk (g a) = Inr e" by blast
    then show "projr (td_get keys mk (g a)) = V (mk (g a))"
      by (simp add: td_get_def split: if_splits)
  qed
  finally show ?thesis .
qed

lemma eval_Sum_vars: "eval sol (Sum (map (\<lambda>a. V (f a)) as)) = (\<Sum>a\<leftarrow>as. sol (f a))"
  by (simp add: comp_def)

lemma add_y_vars_D:
  assumes "add_y_vars sv = Inr sv'"
  obtains yk where "y_idx (s_i sv) = Inr yk"
    "sv' = sv\<lparr>s_m := addVars yk mkY INTEGER 0 EPS (s_m sv), s_y := Some yk\<rparr>"
  using assms unfolding add_y_vars_def ebind_Inr_iff by blast

lemma region_area_pairs_mem:
  assumes "region_area_pairs inst = Inr rps" "region \<in> set (regions inst)"
    "lookup (reg_areas inst) region = Inr ras" "a \<in> set ras"
  shows "(region, a) \<in> set rps"
proof -
  from assms(1) obtain ps where ps: "emap (\<lambda>region. ebind (lookup (reg_areas inst) region)
                              (\<lambda>ras. Inr (map (Pair region) ras))) (regions inst) = Inr ps"
    and rps: "rps = concat ps"
    unfolding region_area_pairs_def ebind_Inr_iff by auto
  from emap_mem[OF ps assms(2)] assms(3) have "map (Pair region) ras \<in> set ps"
    by auto
  moreover from assms(4) have "(region, a) \<in> set (map (Pair region) ras)" by simp
  ultimately show ?thesis unfolding rps set_concat by blast
qed

text \<open>What a successful construction of the fixed model leaves behind.\<close>

lemma build_fixed_model_D:
  assumes "build_fixed_model sv = Inr sv'"
  shows "s_i sv' = s_i sv"
    and "k \<in> set (List.product (regions (s_i sv)) (shift_tail_pairs (s_i sv))) \<Longrightarrow>
           \<exists>c\<in>set (m_constrs (s_m sv')). fix_region_fixed (s_i sv) k = Inr c"
    and "\<exists>sv1. build_base_model sv = Inr sv1 \<and> s_x sv' = s_x sv1"
proof -
  from assms obtain sv1 sv2 m1 rps yk m2 where
    b: "build_base_model sv = Inr sv1" and y: "add_y_vars sv1 = Inr sv2"
    and m1: "addConstrs (fix_region_fixed (s_i sv2))
               (List.product (regions (s_i sv2)) (shift_tail_pairs (s_i sv2))) (s_m sv2) = Inr m1"
    and m2: "addConstrs (flow_balance_fixed (s_i sv2) yk)
               (List.product rps (shift_tail_pairs (s_i sv2))) m1 = Inr m2"
    and sv': "sv' = sv2\<lparr>s_m := m2\<rparr>"
    unfolding build_fixed_model_def Let_def ebind_Inr_iff by blast
  from add_y_vars_D[OF y] obtain yk' where
    sv2: "sv2 = sv1\<lparr>s_m := addVars yk' mkY INTEGER 0 EPS (s_m sv1), s_y := Some yk'\<rparr>" by blast
  have i2: "s_i sv2 = s_i sv" using sv2 build_base_model_D(1)[OF b] by simp
  show "s_i sv' = s_i sv" using sv' i2 by simp
  show "\<exists>c\<in>set (m_constrs (s_m sv')). fix_region_fixed (s_i sv) k = Inr c"
    if "k \<in> set (List.product (regions (s_i sv)) (shift_tail_pairs (s_i sv)))"
    using addConstrs_D(3)[OF m1[unfolded i2] that] addConstrs_D(2)[OF m2] sv' by auto
  show "\<exists>sv1. build_base_model sv = Inr sv1 \<and> s_x sv' = s_x sv1"
    using b sv' sv2 by auto
qed

lemma fix_region_fixed_Inr:
  assumes "fix_region_fixed inst (region, shift, theta) = Inr c"
    and "lookup (reg_areas inst) region = Inr ras" and "theta \<in> set (tl shift)"
  shows "c = \<lparr>c_name = ''fix_region_n_couriers_in_shift'',
              c_lhs = Sum (map (\<lambda>a. V (X a theta)) ras), c_sense = EQ,
              c_rhs = Sum (map (\<lambda>a. V (X a (hd shift))) ras)\<rparr>"
proof -
  from assms(3) obtain t0 rest where sh: "shift = t0 # rest" by (cases shift) auto
  from assms(1,2) obtain xs1 xs2 where
    x1: "emap (\<lambda>a. td_get (x_keys inst) mkX (a, theta)) ras = Inr xs1"
    and x2: "emap (\<lambda>a. td_get (x_keys inst) mkX (a, t0)) ras = Inr xs2"
    and c: "c = \<lparr>c_name = ''fix_region_n_couriers_in_shift'', c_lhs = Sum xs1, c_sense = EQ,
               c_rhs = Sum xs2\<rparr>"
    unfolding fix_region_fixed_def sh by (auto simp: ebind_Inr_iff)
  from emap_td_get[OF x1] emap_td_get[OF x2] c sh show ?thesis
    by (simp add: mkX_def)
qed

text \<open>
  Claim C4. In the fixed model, for every region, every shift and every period of the
  shift after its first, the constraint that the region's total of hired couriers at
  that period equals its total at the shift's first period is in the model; so in
  every solution the region's total is the same at any two periods of one shift.
\<close>

theorem fixed_model_region_total_constant:
  assumes cd: "compute_data cfg js = Inr inst" and si: "s_i sv = inst"
    and b: "build_fixed_model sv = Inr sv'"
    and r: "region \<in> set (regions inst)" and sh: "shift \<in> set (shifts inst)"
  shows "\<exists>ras. lookup (reg_areas inst) region = Inr ras
       \<and> (\<forall>theta\<in>set (tl shift).
            \<lparr>c_name = ''fix_region_n_couriers_in_shift'',
             c_lhs = Sum (map (\<lambda>a. V (X a theta)) ras), c_sense = EQ,
             c_rhs = Sum (map (\<lambda>a. V (X a (hd shift))) ras)\<rparr> \<in> set (m_constrs (s_m sv')))
       \<and> (\<forall>sol. feasible sol (s_m sv') \<longrightarrow>
            (\<forall>theta\<in>set shift. \<forall>theta'\<in>set shift.
               (\<Sum>a\<leftarrow>ras. sol (X a theta)) = (\<Sum>a\<leftarrow>ras. sol (X a theta'))))"
proof -
  from compute_data_regions(1)[OF cd r] obtain ras where
    ras: "lookup (reg_areas inst) region = Inr ras" by blast
  have mem: "\<lparr>c_name = ''fix_region_n_couriers_in_shift'',
             c_lhs = Sum (map (\<lambda>a. V (X a theta)) ras), c_sense = EQ,
             c_rhs = Sum (map (\<lambda>a. V (X a (hd shift))) ras)\<rparr> \<in> set (m_constrs (s_m sv'))"
    if t: "theta \<in> set (tl shift)" for theta
  proof -
    have "(region, shift, theta) \<in> set (List.product (regions inst) (shift_tail_pairs inst))"
      using r sh t by (auto simp: shift_tail_pairs_def)
    from build_fixed_model_D(2)[OF b, unfolded si, OF this] obtain c where
      c: "c \<in> set (m_constrs (s_m sv'))" "fix_region_fixed inst (region, shift, theta) = Inr c"
      by blast
    from fix_region_fixed_Inr[OF c(2) ras t] c(1) show ?thesis by simp
  qed
  have sem: "(\<Sum>a\<leftarrow>ras. sol (X a theta)) = (\<Sum>a\<leftarrow>ras. sol (X a theta'))"
    if f: "feasible sol (s_m sv')" and t: "theta \<in> set shift" and t': "theta' \<in> set shift"
    for sol theta theta'
  proof -
    have eq: "(\<Sum>a\<leftarrow>ras. sol (X a th)) = (\<Sum>a\<leftarrow>ras. sol (X a (hd shift)))"
      if "th \<in> set shift" for th
    proof (cases "th \<in> set (tl shift)")
      case True
      from feasible_holds[OF f mem[OF True]] show ?thesis
        by (simp add: holds_def comp_def)
    next
      case False
      with that have "th = hd shift" by (cases shift) auto
      then show ?thesis by simp
    qed
    from eq[OF t] eq[OF t'] show ?thesis by simp
  qed
  from ras mem sem show ?thesis by blast
qed

section \<open>The flexible models\<close>

lemma efold_set_UB_constrs:
  "efold (set_UB keys mk u) ks md = Inr md' \<Longrightarrow> m_constrs md' = m_constrs md"
proof (induction ks arbitrary: md)
  case Nil
  then show ?case by simp
next
  case (Cons k ks)
  show ?case
  proof (cases "set_UB keys mk u k md")
    case (Inl e)
    with Cons.prems show ?thesis by simp
  next
    case (Inr md1)
    then have "m_constrs md1 = m_constrs md"
      by (auto simp: set_UB_def split: if_splits)
    moreover from Cons.prems Inr have "efold (set_UB keys mk u) ks md1 = Inr md'" by simp
    ultimately show ?thesis using Cons.IH by simp
  qed
qed

lemma flow_balance_flex_Inr:
  "flow_balance_flex inst yk zpk zmk ((region, a), theta) = Inr c \<Longrightarrow>
     c = \<lparr>c_name = ''flow_balance'', c_lhs = V (X a theta), c_sense = EQ,
          c_rhs = Sub (Add (Sub (Add (V (X a (theta - 1))) (y_sum_in yk a theta))
                                (y_sum_out yk a theta))
                           (V (Zminus a theta)))
                      (V (Zplus a (theta - 1)))\<rparr>"
  by (auto simp: flow_balance_flex_def ebind_Inr_iff td_get_Inr_iff mkX_def mkZminus_def mkZplus_def)

lemma flow_balance_first_period_Inr:
  "flow_balance_first_period inst zmk a = Inr c \<Longrightarrow>
     c = \<lparr>c_name = ''flow_balance_first_period'', c_lhs = V (X a 0), c_sense = EQ,
          c_rhs = V (Zminus a 0)\<rparr>"
  by (auto simp: flow_balance_first_period_def ebind_Inr_iff td_get_Inr_iff mkX_def mkZminus_def)

text \<open>What a successful construction of the flexible model leaves behind.\<close>

lemma build_flexible_model_D:
  assumes b: "build_flexible_model sv = Inr sv'" and n8: "n_periods (s_i sv) = 8"
  obtains yk rps sv1 where
    "build_base_model sv = Inr sv1" "s_x sv' = s_x sv1"
    "s_i sv' = s_i sv" "y_idx (s_i sv) = Inr yk" "s_y sv' = Some yk"
    "s_zminus sv' = Some (x_keys (s_i sv))"
    "region_area_pairs (s_i sv) = Inr rps"
    "\<And>k. k \<in> set (List.product rps (filter (\<lambda>theta. theta > 0) (periods (s_i sv)))) \<Longrightarrow>
       \<exists>c\<in>set (m_constrs (s_m sv')).
         flow_balance_flex (s_i sv) yk (x_keys (s_i sv)) (x_keys (s_i sv)) k = Inr c"
    "\<And>a. a \<in> set (areas (s_i sv)) \<Longrightarrow>
       \<exists>c\<in>set (m_constrs (s_m sv')). flow_balance_first_period (s_i sv) (x_keys (s_i sv)) a = Inr c"
proof -
  from b obtain sv1 sv2 where
    b1: "build_base_model sv = Inr sv1" and y: "add_y_vars sv1 = Inr sv2"
    unfolding build_flexible_model_def ebind_Inr_iff by blast
  from add_y_vars_D[OF y] obtain yk where
    yk: "y_idx (s_i sv1) = Inr yk"
    and sv2: "sv2 = sv1\<lparr>s_m := addVars yk mkY INTEGER 0 EPS (s_m sv1), s_y := Some yk\<rparr>" by blast
  have i1: "s_i sv1 = s_i sv" using build_base_model_D(1)[OF b1] .
  have i2: "s_i sv2 = s_i sv" using sv2 i1 by simp
  have y2: "s_y sv2 = Some yk" using sv2 by simp
  let ?i = "s_i sv"
  let ?zk = "x_keys ?i"
  from b b1 y i2 n8 y2 obtain m3 m4 m5 rps m6 m7 where
    m5: "addConstrs (fix_region_flex ?i ?zk ?zk 4)
           (List.product (regions ?i) (filter (\<lambda>theta. theta < n_periods ?i + 1 - 4) (periods ?i)))
           m4 = Inr m5"
    and rps: "region_area_pairs ?i = Inr rps"
    and m6: "addConstrs (flow_balance_flex ?i yk ?zk ?zk)
               (List.product rps (filter (\<lambda>theta. theta > 0) (periods ?i))) m5 = Inr m6"
    and m7: "addConstrs (flow_balance_first_period ?i ?zk) (areas ?i) m6 = Inr m7"
    and sv': "sv' = sv2\<lparr>s_m := m7, s_zplus := Some ?zk, s_zminus := Some ?zk\<rparr>"
    unfolding build_flexible_model_def
    by (auto simp: ebind_Inr_iff Let_def attr_def)
  show thesis
  proof (rule that[OF b1 _ _ _ _ _ rps])
    show "s_x sv' = s_x sv1" using sv' sv2 by simp
    show "s_i sv' = s_i sv" using sv' i2 by simp
    show "y_idx ?i = Inr yk" using yk i1 by simp
    show "s_y sv' = Some yk" using sv' y2 by simp
    show "s_zminus sv' = Some ?zk" using sv' by simp
    show "\<exists>c\<in>set (m_constrs (s_m sv')). flow_balance_flex ?i yk ?zk ?zk k = Inr c"
      if "k \<in> set (List.product rps (filter (\<lambda>theta. theta > 0) (periods ?i)))" for k
      using addConstrs_D(3)[OF m6 that] addConstrs_D(2)[OF m7] sv' by auto
    show "\<exists>c\<in>set (m_constrs (s_m sv')). flow_balance_first_period ?i ?zk a = Inr c"
      if "a \<in> set (areas ?i)" for a
      using addConstrs_D(3)[OF m7 that] sv' by auto
  qed
qed

text \<open>The partially flexible model keeps every constraint of the flexible model.\<close>

lemma build_partflex_model_D:
  assumes b: "build_partflex_model sv = Inr sv'" and n8: "n_periods (s_i sv) = 8"
  obtains svf where "build_flexible_model sv = Inr svf"
    "s_i sv' = s_i svf" "s_y sv' = s_y svf" "s_x sv' = s_x svf"
    "set (m_constrs (s_m svf)) \<subseteq> set (m_constrs (s_m sv'))"
proof -
  from b obtain svf where f: "build_flexible_model sv = Inr svf"
    unfolding build_partflex_model_def ebind_Inr_iff by blast
  from build_flexible_model_D[OF f n8] have i: "s_i svf = s_i sv" by metis
  from b f i n8 obtain zmk m2 c where
    m2: "addConstrs (link_z_w (s_i sv) zmk (py_range (n_periods (s_i sv) - 4 + 1)))
           (List.product (regions (s_i sv)) (py_range (n_periods (s_i sv) - 4 + 1)))
           (addVars (py_range (n_periods (s_i sv) - 4 + 1)) W BINARY 0 0 (s_m svf)) = Inr m2"
    and sv': "sv' = svf\<lparr>s_m := m2\<lparr>m_constrs := m_constrs m2 @ [c]\<rparr>,
                         s_w := Some (py_range (n_periods (s_i sv) - 4 + 1))\<rparr>"
    unfolding build_partflex_model_def
    by (auto simp: ebind_Inr_iff Let_def)
  show thesis
  proof (rule that[OF f])
    show "s_i sv' = s_i svf" "s_y sv' = s_y svf" "s_x sv' = s_x svf" using sv' by simp_all
    show "set (m_constrs (s_m svf)) \<subseteq> set (m_constrs (s_m sv'))"
      using addConstrs_D(2)[OF m2] sv' by (auto simp: m_constrs_addVars)
  qed
qed

lemma flexible_flow_constraints:
  assumes cd: "compute_data cfg js = Inr inst" and si: "s_i sv = inst"
    and b: "build_flexible_model sv = Inr svf" and a: "a \<in> set (areas inst)"
  shows "\<exists>yk. y_idx inst = Inr yk \<and> s_y svf = Some yk
       \<and> \<lparr>c_name = ''flow_balance_first_period'', c_lhs = V (X a 0), c_sense = EQ,
          c_rhs = V (Zminus a 0)\<rparr> \<in> set (m_constrs (s_m svf))
       \<and> (\<forall>theta\<in>set (periods inst). theta > 0 \<longrightarrow>
            \<lparr>c_name = ''flow_balance'', c_lhs = V (X a theta), c_sense = EQ,
             c_rhs = Sub (Add (Sub (Add (V (X a (theta - 1))) (y_sum_in yk a theta))
                                   (y_sum_out yk a theta))
                              (V (Zminus a theta)))
                         (V (Zplus a (theta - 1)))\<rparr> \<in> set (m_constrs (s_m svf)))"
proof -
  have n8: "n_periods (s_i sv) = 8" using compute_data_periods(1)[OF cd] si by simp
  from build_flexible_model_D[OF b n8, unfolded si] obtain yk rps where
    yk: "y_idx inst = Inr yk" "s_y svf = Some yk"
    and rps: "region_area_pairs inst = Inr rps"
    and fl: "\<And>k. k \<in> set (List.product rps (filter (\<lambda>theta. theta > 0) (periods inst))) \<Longrightarrow>
       \<exists>c\<in>set (m_constrs (s_m svf)).
         flow_balance_flex inst yk (x_keys inst) (x_keys inst) k = Inr c"
    and fp: "\<And>a. a \<in> set (areas inst) \<Longrightarrow>
       \<exists>c\<in>set (m_constrs (s_m svf)). flow_balance_first_period inst (x_keys inst) a = Inr c"
    by metis
  from compute_data_regions(2)[OF cd a] obtain region ras where
    r: "region \<in> set (regions inst)" "lookup (reg_areas inst) region = Inr ras" "a \<in> set ras"
    by blast
  have p: "(region, a) \<in> set rps" using region_area_pairs_mem[OF rps r] .
  have first: "\<lparr>c_name = ''flow_balance_first_period'', c_lhs = V (X a 0), c_sense = EQ,
          c_rhs = V (Zminus a 0)\<rparr> \<in> set (m_constrs (s_m svf))"
    using fp[OF a] flow_balance_first_period_Inr by metis
  have later: "\<lparr>c_name = ''flow_balance'', c_lhs = V (X a theta), c_sense = EQ,
             c_rhs = Sub (Add (Sub (Add (V (X a (theta - 1))) (y_sum_in yk a theta))
                                   (y_sum_out yk a theta))
                              (V (Zminus a theta)))
                         (V (Zplus a (theta - 1)))\<rparr> \<in> set (m_constrs (s_m svf))"
    if "theta \<in> set (periods inst)" "theta > 0" for theta
  proof -
    have "((region, a), theta) \<in> set (List.product rps (filter (\<lambda>theta. theta > 0) (periods inst)))"
      using p that by simp
    from fl[OF this] flow_balance_flex_Inr show ?thesis by metis
  qed
  from yk first later show ?thesis by blast
qed

text \<open>Selections from a list without repetitions.\<close>

lemma filter_eq_single: "distinct xs \<Longrightarrow> x \<in> set xs \<Longrightarrow> filter (\<lambda>y. y = x) xs = [x]"
  by (induction xs) (auto simp: filter_empty_conv)

lemma concat_map_if_single:
  "distinct xs \<Longrightarrow> x \<in> set xs \<Longrightarrow> concat (map (\<lambda>y. if y = x then f y else []) xs) = f x"
proof (induction xs)
  case Nil
  then show ?case by simp
next
  case (Cons z zs)
  show ?case
  proof (cases "z = x")
    case True
    with Cons.prems have "x \<notin> set zs" by simp
    then have "concat (map (\<lambda>y. if y = x then f y else []) zs) = []"
      by (induction zs) auto
    with True show ?thesis by simp
  next
    case False
    with Cons show ?thesis by simp
  qed
qed

lemma concat_map_if_filter:
  "concat (map (\<lambda>x. if P x then [f x] else []) xs) = map f (filter P xs)"
  by (induction xs) simp_all

lemma filter_concat_map:
  "filter P (concat (map f xs)) = concat (map (\<lambda>x. filter P (f x)) xs)"
  by (induction xs) simp_all

text \<open>The keys of one destination, and of one origin, among the keys of a kind of pairs.\<close>

lemma triples_in:
  assumes "distinct as" "a \<in> set as" "distinct ps" "theta \<in> set ps"
  shows "filter (\<lambda>(a1, a2, t). a2 = a \<and> t = theta)
           (filter (\<lambda>(a1, a2, t). C a1 a2)
              (concat (map (\<lambda>a1. concat (map (\<lambda>a2. map (\<lambda>th. (a1, a2, th)) ps) as)) as)))
         = map (\<lambda>a'. (a', a, theta)) (filter (\<lambda>a'. C a' a) as)"
proof -
  let ?P = "\<lambda>(a1, a2, t). a2 = a \<and> t = theta"
  let ?Q = "\<lambda>(a1, a2, t). C a1 a2"
  have inner: "filter ?P (filter ?Q (map (\<lambda>th. (x, y, th)) ps))
       = (if y = a then (if C x a then [(x, a, theta)] else []) else [])" for x y :: 'a
    using filter_eq_single[OF assms(3,4)] by (auto simp: filter_map comp_def)
  have mid: "filter ?P (filter ?Q (concat (map (\<lambda>a2. map (\<lambda>th. (x, a2, th)) ps) as)))
       = (if C x a then [(x, a, theta)] else [])" for x
  proof -
    have "filter ?P (filter ?Q (concat (map (\<lambda>a2. map (\<lambda>th. (x, a2, th)) ps) as)))
        = concat (map (\<lambda>y. filter ?P (filter ?Q (map (\<lambda>th. (x, y, th)) ps))) as)"
      by (simp only: filter_concat_map map_map comp_def)
    also have "\<dots> = concat (map (\<lambda>y. if y = a then (if C x a then [(x, a, theta)] else []) else []) as)"
      by (simp only: inner)
    also have "\<dots> = (if C x a then [(x, a, theta)] else [])"
      by (rule concat_map_if_single[OF assms(1,2)])
    finally show ?thesis .
  qed
  have "filter ?P (filter ?Q (concat (map (\<lambda>a1. concat (map (\<lambda>a2. map (\<lambda>th. (a1, a2, th)) ps) as)) as)))
      = concat (map (\<lambda>x. filter ?P (filter ?Q (concat (map (\<lambda>a2. map (\<lambda>th. (x, a2, th)) ps) as)))) as)"
    by (simp only: filter_concat_map map_map comp_def)
  also have "\<dots> = concat (map (\<lambda>x. if C x a then [(x, a, theta)] else []) as)"
    by (simp only: mid)
  also have "\<dots> = map (\<lambda>a'. (a', a, theta)) (filter (\<lambda>a'. C a' a) as)"
    by (rule concat_map_if_filter)
  finally show ?thesis .
qed

lemma triples_out:
  assumes "distinct as" "a \<in> set as" "distinct ps" "theta \<in> set ps"
  shows "filter (\<lambda>(a1, a2, t). a1 = a \<and> t = theta)
           (filter (\<lambda>(a1, a2, t). C a1 a2)
              (concat (map (\<lambda>a1. concat (map (\<lambda>a2. map (\<lambda>th. (a1, a2, th)) ps) as)) as)))
         = map (\<lambda>a'. (a, a', theta)) (filter (\<lambda>a'. C a a') as)"
proof -
  let ?P = "\<lambda>(a1, a2, t). a1 = a \<and> t = theta"
  let ?Q = "\<lambda>(a1, a2, t). C a1 a2"
  have inner: "filter ?P (filter ?Q (map (\<lambda>th. (x, y, th)) ps))
       = (if x = a then (if C a y then [(a, y, theta)] else []) else [])" for x y :: 'a
    using filter_eq_single[OF assms(3,4)] by (auto simp: filter_map comp_def)
  have mid: "filter ?P (filter ?Q (concat (map (\<lambda>a2. map (\<lambda>th. (x, a2, th)) ps) as)))
       = (if x = a then map (\<lambda>a'. (a, a', theta)) (filter (\<lambda>a'. C a a') as) else [])" for x
  proof -
    have "filter ?P (filter ?Q (concat (map (\<lambda>a2. map (\<lambda>th. (x, a2, th)) ps) as)))
        = concat (map (\<lambda>y. filter ?P (filter ?Q (map (\<lambda>th. (x, y, th)) ps))) as)"
      by (simp only: filter_concat_map map_map comp_def)
    also have "\<dots> = concat (map (\<lambda>y. if x = a then (if C a y then [(a, y, theta)] else []) else []) as)"
      by (simp only: inner)
    also have "\<dots> = (if x = a then concat (map (\<lambda>y. if C a y then [(a, y, theta)] else []) as) else [])"
      by (cases "x = a") simp_all
    also have "\<dots> = (if x = a then map (\<lambda>a'. (a, a', theta)) (filter (\<lambda>a'. C a a') as) else [])"
      by (simp only: concat_map_if_filter)
    finally show ?thesis .
  qed
  have "filter ?P (filter ?Q (concat (map (\<lambda>a1. concat (map (\<lambda>a2. map (\<lambda>th. (a1, a2, th)) ps) as)) as)))
      = concat (map (\<lambda>x. filter ?P (filter ?Q (concat (map (\<lambda>a2. map (\<lambda>th. (x, a2, th)) ps) as)))) as)"
    by (simp only: filter_concat_map map_map comp_def)
  also have "\<dots> = concat (map (\<lambda>x. if x = a then map (\<lambda>a'. (a, a', theta)) (filter (\<lambda>a'. C a a') as) else []) as)"
    by (simp only: mid)
  also have "\<dots> = map (\<lambda>a'. (a, a', theta)) (filter (\<lambda>a'. C a a') as)"
    by (rule concat_map_if_single[OF assms(1,2)])
  finally show ?thesis .
qed

lemma y_idx_filter:
  assumes y: "y_idx inst = Inr yk"
    and ar: "\<And>a. a \<in> set (areas inst) \<Longrightarrow> \<exists>r. lookup (area_regs inst) a = Inr r"
  shows "yk = filter (\<lambda>(a1, a2, theta). a1 \<noteq> a2 \<and> map_of (area_regs inst) a1 = map_of (area_regs inst) a2)
                (concat (map (\<lambda>a1. concat (map (\<lambda>a2. map (\<lambda>theta. (a1, a2, theta)) (periods inst))
                                       (areas inst))) (areas inst)))"
proof -
  let ?p = "\<lambda>(a1, a2, theta).
                if a1 \<noteq> a2 then
                  ebind (lookup (area_regs inst) a1) (\<lambda>r1.
                  ebind (lookup (area_regs inst) a2) (\<lambda>r2. Inr (r1 = r2)))
                else Inr False"
  let ?q = "\<lambda>(a1, a2, theta). a1 \<noteq> a2 \<and> map_of (area_regs inst) a1 = map_of (area_regs inst) a2"
  let ?ts = "concat (map (\<lambda>a1. concat (map (\<lambda>a2. map (\<lambda>theta. (a1, a2, theta)) (periods inst))
                                       (areas inst))) (areas inst))"
  have pq: "?p k = Inr (?q k)" if "k \<in> set ?ts" for k
  proof -
    obtain a1 a2 theta where k: "k = (a1, a2, theta)" by (cases k)
    from that k have a1: "a1 \<in> set (areas inst)" and a2: "a2 \<in> set (areas inst)" by auto
    from ar[OF a1] ar[OF a2] obtain r1 r2 where
      r: "lookup (area_regs inst) a1 = Inr r1" "lookup (area_regs inst) a2 = Inr r2" by blast
    then have "map_of (area_regs inst) a1 = Some r1" "map_of (area_regs inst) a2 = Some r2"
      by (simp_all add: lookup_Inr_iff)
    with r show ?thesis unfolding k by simp
  qed
  have "efilter ?p ?ts = Inr (filter ?q ?ts)"
    by (rule efilter_filter) (rule pq)
  with y show ?thesis by (simp add: y_idx_def)
qed

text \<open>
  On an instance with distinct areas, \<open>y.sum('*', a, theta)\<close> adds the variables of the
  moves into \<open>a\<close> from the other areas of its region, and \<open>y.sum(a, '*', theta)\<close> those of
  the moves out of \<open>a\<close> to them.
\<close>

lemma y_sums:
  assumes y: "y_idx inst = Inr yk"
    and ar: "\<And>a. a \<in> set (areas inst) \<Longrightarrow> \<exists>r. lookup (area_regs inst) a = Inr r"
    and d: "distinct (areas inst)" and a: "a \<in> set (areas inst)"
    and dp: "distinct (periods inst)" and t: "theta \<in> set (periods inst)"
  shows "y_sum_in yk a theta = Sum (map (\<lambda>a'. V (Y a' a theta)) (movement_partners inst a))"
    and "y_sum_out yk a theta = Sum (map (\<lambda>a'. V (Y a a' theta)) (movement_partners inst a))"
proof -
  let ?C = "\<lambda>a1 a2. a1 \<noteq> a2 \<and> map_of (area_regs inst) a1 = map_of (area_regs inst) a2"
  have yk: "yk = filter (\<lambda>(a1, a2, theta). ?C a1 a2)
                (concat (map (\<lambda>a1. concat (map (\<lambda>a2. map (\<lambda>theta. (a1, a2, theta)) (periods inst))
                                       (areas inst))) (areas inst)))"
    by (rule y_idx_filter[OF y]) (rule ar)
  have "filter (\<lambda>(a1, a2, t). a2 = a \<and> t = theta) yk
      = map (\<lambda>a'. (a', a, theta)) (filter (\<lambda>a'. ?C a' a) (areas inst))"
    by (subst yk) (rule triples_in[OF d a dp t])
  then show "y_sum_in yk a theta = Sum (map (\<lambda>a'. V (Y a' a theta)) (movement_partners inst a))"
    by (simp add: y_sum_in_def movement_partners_def comp_def mkY_def)
  have "filter (\<lambda>(a1, a2, t). a1 = a \<and> t = theta) yk
      = map (\<lambda>a'. (a, a', theta)) (filter (\<lambda>a'. ?C a a') (areas inst))"
    by (subst yk) (rule triples_out[OF d a dp t])
  also have "filter (\<lambda>a'. ?C a a') (areas inst) = movement_partners inst a"
    unfolding movement_partners_def by (rule filter_cong[OF refl]) auto
  finally show "y_sum_out yk a theta = Sum (map (\<lambda>a'. V (Y a a' theta)) (movement_partners inst a))"
    by (simp add: y_sum_out_def comp_def mkY_def)
qed

text \<open>
  Claim C3. In the flexible and the partially flexible model of an instance whose areas
  are distinct (every area is listed once, in the region it belongs to), for every area
  a the constraint x[a, 0] = zminus[a, 0] is in the model,
  and for every period theta > 0 the constraint
  x[a, theta] = x[a, theta - 1] + (sum of y[a', a, theta]) - (sum of y[a, a', theta])
  + zminus[a, theta] - zplus[a, theta - 1], the sums over the other areas a' of the
  region of a; so the values of x, y, zplus and zminus in every solution of the model
  satisfy both identities with equality.
\<close>

theorem flex_flow_balance:
  assumes cd: "compute_data cfg js = Inr inst" and si: "s_i sv = inst"
    and b: "build_flexible_model sv = Inr sv' \<or> build_partflex_model sv = Inr sv'"
    and d: "distinct (areas inst)" and a: "a \<in> set (areas inst)"
  shows "\<lparr>c_name = ''flow_balance_first_period'', c_lhs = V (X a 0), c_sense = EQ,
          c_rhs = V (Zminus a 0)\<rparr> \<in> set (m_constrs (s_m sv'))
       \<and> (\<forall>theta\<in>set (periods inst). theta > 0 \<longrightarrow>
            \<lparr>c_name = ''flow_balance'', c_lhs = V (X a theta), c_sense = EQ,
             c_rhs = Sub (Add (Sub (Add (V (X a (theta - 1)))
                                        (Sum (map (\<lambda>a'. V (Y a' a theta))
                                                  (movement_partners inst a))))
                                   (Sum (map (\<lambda>a'. V (Y a a' theta))
                                             (movement_partners inst a))))
                              (V (Zminus a theta)))
                         (V (Zplus a (theta - 1)))\<rparr> \<in> set (m_constrs (s_m sv')))
       \<and> (\<forall>sol. feasible sol (s_m sv') \<longrightarrow>
            sol (X a 0) = sol (Zminus a 0)
            \<and> (\<forall>theta\<in>set (periods inst). theta > 0 \<longrightarrow>
                 sol (X a theta) =
                   sol (X a (theta - 1))
                   + (\<Sum>a'\<leftarrow>movement_partners inst a. sol (Y a' a theta))
                   - (\<Sum>a'\<leftarrow>movement_partners inst a. sol (Y a a' theta))
                   + sol (Zminus a theta) - sol (Zplus a (theta - 1))))"
proof -
  have n8: "n_periods (s_i sv) = 8" using compute_data_periods(1)[OF cd] si by simp
  have dp: "distinct (periods inst)" unfolding compute_data_periods(2)[OF cd] by simp
  from b obtain svf where f: "build_flexible_model sv = Inr svf"
    and sub: "set (m_constrs (s_m svf)) \<subseteq> set (m_constrs (s_m sv'))"
  proof
    assume "build_flexible_model sv = Inr sv'"
    then show ?thesis using that by blast
  next
    assume "build_partflex_model sv = Inr sv'"
    from build_partflex_model_D[OF this n8] show ?thesis using that by metis
  qed
  from flexible_flow_constraints[OF cd si f a] obtain yk where
    yk: "y_idx inst = Inr yk"
    and first0: "\<lparr>c_name = ''flow_balance_first_period'', c_lhs = V (X a 0), c_sense = EQ,
          c_rhs = V (Zminus a 0)\<rparr> \<in> set (m_constrs (s_m svf))"
    and later0: "\<forall>theta\<in>set (periods inst). theta > 0 \<longrightarrow>
            \<lparr>c_name = ''flow_balance'', c_lhs = V (X a theta), c_sense = EQ,
             c_rhs = Sub (Add (Sub (Add (V (X a (theta - 1))) (y_sum_in yk a theta))
                                   (y_sum_out yk a theta))
                              (V (Zminus a theta)))
                         (V (Zplus a (theta - 1)))\<rparr> \<in> set (m_constrs (s_m svf))"
    by blast
  have ar: "\<exists>r. lookup (area_regs inst) a' = Inr r" if "a' \<in> set (areas inst)" for a'
    using compute_data_regions(3)[OF cd that] .
  have first: "\<lparr>c_name = ''flow_balance_first_period'', c_lhs = V (X a 0), c_sense = EQ,
          c_rhs = V (Zminus a 0)\<rparr> \<in> set (m_constrs (s_m sv'))"
    using first0 sub by blast
  have later: "\<lparr>c_name = ''flow_balance'', c_lhs = V (X a theta), c_sense = EQ,
             c_rhs = Sub (Add (Sub (Add (V (X a (theta - 1)))
                                        (Sum (map (\<lambda>a'. V (Y a' a theta))
                                                  (movement_partners inst a))))
                                   (Sum (map (\<lambda>a'. V (Y a a' theta))
                                             (movement_partners inst a))))
                              (V (Zminus a theta)))
                         (V (Zplus a (theta - 1)))\<rparr> \<in> set (m_constrs (s_m sv'))"
    if t: "theta \<in> set (periods inst)" and pos: "theta > 0" for theta
  proof -
    have i: "y_sum_in yk a theta = Sum (map (\<lambda>a'. V (Y a' a theta)) (movement_partners inst a))"
      by (rule y_sums(1)[OF yk ar d a dp t])
    have out: "y_sum_out yk a theta = Sum (map (\<lambda>a'. V (Y a a' theta)) (movement_partners inst a))"
      by (rule y_sums(2)[OF yk ar d a dp t])
    from mp[OF bspec[OF later0 t] pos] sub show ?thesis unfolding i out by blast
  qed
  have sem0: "sol (X a 0) = sol (Zminus a 0)" if "feasible sol (s_m sv')" for sol
    using feasible_holds[OF that first] by (simp add: holds_def)
  have sem: "sol (X a theta) =
                   sol (X a (theta - 1))
                   + (\<Sum>a'\<leftarrow>movement_partners inst a. sol (Y a' a theta))
                   - (\<Sum>a'\<leftarrow>movement_partners inst a. sol (Y a a' theta))
                   + sol (Zminus a theta) - sol (Zplus a (theta - 1))"
    if "feasible sol (s_m sv')" "theta \<in> set (periods inst)" "theta > 0" for sol theta
    using feasible_holds[OF that(1) later[OF that(2,3)]]
    by (simp add: holds_def comp_def)
  from first later sem0 sem show ?thesis by blast
qed

section \<open>The sample instance\<close>


lemma fixed_w_ok: "build_fixed_model (new_Solver ns_w inst_w) = Inr fixed_w"
proof -
  have "\<not> isl (build_fixed_model (new_Solver ns_w inst_w))"
    unfolding inst_w_def by code_simp
  then show ?thesis by (simp add: fixed_w_def)
qed

lemma flex_w_ok: "build_flexible_model (new_Solver ns_w inst_w) = Inr flex_w"
proof -
  have "\<not> isl (build_flexible_model (new_Solver ns_w inst_w))"
    unfolding inst_w_def by code_simp
  then show ?thesis by (simp add: flex_w_def)
qed

lemma inst_w_fields:
  "areas inst_w = [0, 1]" "regions inst_w = [0]" "scenarios inst_w = [0]"
  "periods inst_w = [0, 1, 2, 3, 4, 5, 6, 7]" "ub_reg inst_w = [(0, 5)]" "ub_global inst_w = 5"
  unfolding inst_w_def by code_simp+

lemma fixed_w_feasible: "feasible sol_w (s_m fixed_w)"
  unfolding fixed_w_def inst_w_def by code_simp

lemma inst_w_reg_areas: "lookup (reg_areas inst_w) 0 = Inr [0, 1]"
  unfolding inst_w_def by code_simp

lemma s_i_new_Solver: "s_i (new_Solver ns inst) = inst"
  by (simp add: new_Solver_def)


theorem fixed_model_region_total_constant_witness:
  "compute_data (Args ns_w) js_w = Inr inst_w
   \<and> build_fixed_model (new_Solver ns_w inst_w) = Inr fixed_w
   \<and> 0 \<in> set (regions inst_w) \<and> [4, 5, 6, 7] \<in> set (shifts inst_w)
   \<and> feasible sol_w (s_m fixed_w)
   \<and> lookup (reg_areas inst_w) 0 = Inr [0, 1]
   \<and> \<lparr>c_name = ''fix_region_n_couriers_in_shift'',
       c_lhs = Sum (map (\<lambda>a. V (X a 5)) [0, 1]), c_sense = EQ,
       c_rhs = Sum (map (\<lambda>a. V (X a (hd [4, 5, 6, 7]))) [0, 1])\<rparr> \<in> set (m_constrs (s_m fixed_w))
   \<and> (\<Sum>a\<leftarrow>[0, 1]. sol_w (X a 5)) = (\<Sum>a\<leftarrow>[0, 1]. sol_w (X a 7))"
proof -
  have r: "0 \<in> set (regions inst_w)" by (simp add: inst_w_fields)
  have sh: "[4, 5, 6, 7] \<in> set (shifts inst_w)"
    using compute_data_periods(3)[OF inst_w_ok] by simp
  from fixed_model_region_total_constant[OF inst_w_ok s_i_new_Solver fixed_w_ok r sh]
  obtain ras where ras: "lookup (reg_areas inst_w) 0 = Inr ras"
    and mem: "\<forall>theta\<in>set (tl [4, 5, 6, 7]).
            \<lparr>c_name = ''fix_region_n_couriers_in_shift'',
             c_lhs = Sum (map (\<lambda>a. V (X a theta)) ras), c_sense = EQ,
             c_rhs = Sum (map (\<lambda>a. V (X a (hd [4, 5, 6, 7]))) ras)\<rparr>
              \<in> set (m_constrs (s_m fixed_w))"
    and sem: "\<forall>sol. feasible sol (s_m fixed_w) \<longrightarrow>
            (\<forall>theta\<in>set [4, 5, 6, 7]. \<forall>theta'\<in>set [4, 5, 6, 7].
               (\<Sum>a\<leftarrow>ras. sol (X a theta)) = (\<Sum>a\<leftarrow>ras. sol (X a theta')))"
    by blast
  from ras inst_w_reg_areas have rv: "ras = [0, 1]" by simp
  have t5: "(5::int) \<in> set (tl [4, 5, 6, 7])" by simp
  have c: "\<lparr>c_name = ''fix_region_n_couriers_in_shift'',
       c_lhs = Sum (map (\<lambda>a. V (X a 5)) [0, 1]), c_sense = EQ,
       c_rhs = Sum (map (\<lambda>a. V (X a (hd [4, 5, 6, 7]))) [0, 1])\<rparr> \<in> set (m_constrs (s_m fixed_w))"
    using bspec[OF mem t5] unfolding rv .
  have m5: "(5::int) \<in> set [4, 5, 6, 7]" and m7: "(7::int) \<in> set [4, 5, 6, 7]" by simp_all
  from sem fixed_w_feasible
  have "\<forall>theta\<in>set [4, 5, 6, 7]. \<forall>theta'\<in>set [4, 5, 6, 7].
               (\<Sum>a\<leftarrow>ras. sol_w (X a theta)) = (\<Sum>a\<leftarrow>ras. sol_w (X a theta'))"
    by blast
  from bspec[OF bspec[OF this m5] m7]
  have s: "(\<Sum>a\<leftarrow>[0, 1]. sol_w (X a 5)) = (\<Sum>a\<leftarrow>[0, 1]. sol_w (X a 7))"
    unfolding rv .
  from inst_w_ok fixed_w_ok r sh fixed_w_feasible inst_w_reg_areas c s show ?thesis
    by (intro conjI)
qed

lemma inst_cap_ok: "compute_data (Args ns_cap) js_w = Inr inst_cap"
proof -
  have "\<not> isl (compute_data (Args ns_cap) js_w)"
    by code_simp
  then show ?thesis by (simp add: inst_cap_def)
qed

lemma partflex_w_ok: "build_partflex_model (new_Solver ns_cap inst_cap) = Inr partflex_w"
proof -
  have "\<not> isl (build_partflex_model (new_Solver ns_cap inst_cap))"
    unfolding inst_cap_def by code_simp
  then show ?thesis by (simp add: partflex_w_def)
qed

lemma sol_mv_feasible:
  "feasible sol_mv (s_m flex_w)" "feasible sol_mv (s_m partflex_w)"
  unfolding flex_w_def inst_w_def partflex_w_def inst_cap_def by code_simp+

lemma sample_partners:
  "distinct (areas inst_w)" "movement_partners inst_w 0 = [1]"
  "0 \<in> set (areas inst_w)" "1 \<in> set (periods inst_w)"
  "distinct (areas inst_cap)" "movement_partners inst_cap 1 = [0]"
  "1 \<in> set (areas inst_cap)" "1 \<in> set (periods inst_cap)"
  unfolding inst_w_def inst_cap_def by code_simp+

lemma sol_mv_values:
  "sol_mv (X 0 1) = 1" "sol_mv (X 0 (1 - 1)) = 2" "sol_mv (Y 0 1 1) = 1" "sol_mv (Y 1 0 1) = 0"
  "sol_mv (X 1 1) = 3" "sol_mv (X 1 (1 - 1)) = 2"
  by (simp_all add: sol_mv_def)

theorem flex_flow_balance_witness:
  "compute_data (Args ns_w) js_w = Inr inst_w
   \<and> build_flexible_model (new_Solver ns_w inst_w) = Inr flex_w
   \<and> compute_data (Args ns_cap) js_w = Inr inst_cap
   \<and> build_partflex_model (new_Solver ns_cap inst_cap) = Inr partflex_w
   \<and> distinct (areas inst_w) \<and> 0 \<in> set (areas inst_w) \<and> 1 \<in> set (periods inst_w)
   \<and> distinct (areas inst_cap) \<and> 1 \<in> set (areas inst_cap) \<and> 1 \<in> set (periods inst_cap)
   \<and> feasible sol_mv (s_m flex_w) \<and> feasible sol_mv (s_m partflex_w)
   \<and> \<lparr>c_name = ''flow_balance'', c_lhs = V (X 0 1), c_sense = EQ,
       c_rhs = Sub (Add (Sub (Add (V (X 0 (1 - 1)))
                                  (Sum (map (\<lambda>a'. V (Y a' 0 1)) [1])))
                             (Sum (map (\<lambda>a'. V (Y 0 a' 1)) [1])))
                        (V (Zminus 0 1)))
                   (V (Zplus 0 (1 - 1)))\<rparr> \<in> set (m_constrs (s_m flex_w))
   \<and> \<lparr>c_name = ''flow_balance'', c_lhs = V (X 1 1), c_sense = EQ,
       c_rhs = Sub (Add (Sub (Add (V (X 1 (1 - 1)))
                                  (Sum (map (\<lambda>a'. V (Y a' 1 1)) [0])))
                             (Sum (map (\<lambda>a'. V (Y 1 a' 1)) [0])))
                        (V (Zminus 1 1)))
                   (V (Zplus 1 (1 - 1)))\<rparr> \<in> set (m_constrs (s_m partflex_w))
   \<and> sol_mv (X 0 0) = sol_mv (Zminus 0 0)
   \<and> sol_mv (X 0 1) =
       sol_mv (X 0 (1 - 1)) + (\<Sum>a'\<leftarrow>[1]. sol_mv (Y a' 0 1)) - (\<Sum>a'\<leftarrow>[1]. sol_mv (Y 0 a' 1))
       + sol_mv (Zminus 0 1) - sol_mv (Zplus 0 (1 - 1))
   \<and> sol_mv (X 1 1) =
       sol_mv (X 1 (1 - 1)) + (\<Sum>a'\<leftarrow>[0]. sol_mv (Y a' 1 1)) - (\<Sum>a'\<leftarrow>[0]. sol_mv (Y 1 a' 1))
       + sol_mv (Zminus 1 1) - sol_mv (Zplus 1 (1 - 1))
   \<and> sol_mv (X 0 1) = 1 \<and> sol_mv (X 0 (1 - 1)) = 2 \<and> sol_mv (Y 0 1 1) = 1"
proof -
  have pos: "(1::int) > 0" by simp
  note f = flex_flow_balance[OF inst_w_ok s_i_new_Solver disjI1[OF flex_w_ok]
      sample_partners(1,3)]
  note p = flex_flow_balance[OF inst_cap_ok s_i_new_Solver disjI2[OF partflex_w_ok]
      sample_partners(5,7)]
  from mp[OF bspec[OF conjunct1[OF conjunct2[OF f]] sample_partners(4)] pos]
  have cf: "\<lparr>c_name = ''flow_balance'', c_lhs = V (X 0 1), c_sense = EQ,
       c_rhs = Sub (Add (Sub (Add (V (X 0 (1 - 1)))
                                  (Sum (map (\<lambda>a'. V (Y a' 0 1)) [1])))
                             (Sum (map (\<lambda>a'. V (Y 0 a' 1)) [1])))
                        (V (Zminus 0 1)))
                   (V (Zplus 0 (1 - 1)))\<rparr> \<in> set (m_constrs (s_m flex_w))"
    unfolding sample_partners(2) .
  from mp[OF bspec[OF conjunct1[OF conjunct2[OF p]] sample_partners(8)] pos]
  have cp: "\<lparr>c_name = ''flow_balance'', c_lhs = V (X 1 1), c_sense = EQ,
       c_rhs = Sub (Add (Sub (Add (V (X 1 (1 - 1)))
                                  (Sum (map (\<lambda>a'. V (Y a' 1 1)) [0])))
                             (Sum (map (\<lambda>a'. V (Y 1 a' 1)) [0])))
                        (V (Zminus 1 1)))
                   (V (Zplus 1 (1 - 1)))\<rparr> \<in> set (m_constrs (s_m partflex_w))"
    unfolding sample_partners(6) .
  note sf = mp[OF spec[OF conjunct2[OF conjunct2[OF f]], of sol_mv] sol_mv_feasible(1)]
  note sp = mp[OF spec[OF conjunct2[OF conjunct2[OF p]], of sol_mv] sol_mv_feasible(2)]
  have s0: "sol_mv (X 0 0) = sol_mv (Zminus 0 0)" using conjunct1[OF sf] .
  from mp[OF bspec[OF conjunct2[OF sf] sample_partners(4)] pos]
  have s1: "sol_mv (X 0 1) =
       sol_mv (X 0 (1 - 1)) + (\<Sum>a'\<leftarrow>[1]. sol_mv (Y a' 0 1)) - (\<Sum>a'\<leftarrow>[1]. sol_mv (Y 0 a' 1))
       + sol_mv (Zminus 0 1) - sol_mv (Zplus 0 (1 - 1))"
    unfolding sample_partners(2) .
  from mp[OF bspec[OF conjunct2[OF sp] sample_partners(8)] pos]
  have s2: "sol_mv (X 1 1) =
       sol_mv (X 1 (1 - 1)) + (\<Sum>a'\<leftarrow>[0]. sol_mv (Y a' 1 1)) - (\<Sum>a'\<leftarrow>[0]. sol_mv (Y 1 a' 1))
       + sol_mv (Zminus 1 1) - sol_mv (Zplus 1 (1 - 1))"
    unfolding sample_partners(6) .
  from inst_w_ok flex_w_ok inst_cap_ok partflex_w_ok sample_partners(1,3,4,5,7,8)
    sol_mv_feasible cf cp s0 s1 s2 sol_mv_values(1,2,3)
  show ?thesis by (intro conjI)
qed

section \<open>Dictionary comprehensions and the bounds\<close>

lemma map_of_map_keyed:
  "(\<And>k. k \<in> set ks \<Longrightarrow> fst (g k) = k) \<Longrightarrow> k \<in> set ks \<Longrightarrow>
     map_of (map g ks) k = Some (snd (g k))"
proof (induction ks)
  case Nil
  then show ?case by simp
next
  case (Cons z zs)
  obtain k' v' where gz: "g z = (k', v')" by (cases "g z")
  with Cons.prems(1)[of z] have k': "k' = z" by simp
  show ?case
  proof (cases "k = z")
    case True
    with gz k' show ?thesis by simp
  next
    case False
    with Cons.prems have "k \<in> set zs" by simp
    with Cons.IH Cons.prems(1) have "map_of (map g zs) k = Some (snd (g k))" by simp
    with False gz k' show ?thesis by simp
  qed
qed

text \<open>A dictionary comprehension \<open>{k: v(k) for k in ks}\<close>, looked up at one of its keys.\<close>

lemma emap_py_dict_lookup:
  assumes e: "emap f ks = Inr kvs"
    and key: "\<And>k kv. k \<in> set ks \<Longrightarrow> f k = Inr kv \<Longrightarrow> fst kv = k"
    and k: "k \<in> set ks"
  shows "\<exists>v. f k = Inr (k, v) \<and> map_of (py_dict kvs) k = Some v"
proof -
  have kvs: "kvs = map (\<lambda>x. projr (f x)) ks" using emap_Inr_map[OF e] .
  have fk: "fst (projr (f x)) = x" if "x \<in> set ks" for x
  proof -
    from emap_mem[OF e that] obtain kv where "f x = Inr kv" by blast
    with key[OF that this] show ?thesis by simp
  qed
  have "map_of (py_dict kvs) k = map_of (map (\<lambda>x. projr (f x)) (rev ks)) k"
    unfolding map_of_py_dict kvs by (simp add: rev_map)
  also have "\<dots> = Some (snd (projr (f k)))"
    by (rule map_of_map_keyed) (use fk k in auto)
  finally have m: "map_of (py_dict kvs) k = Some (snd (projr (f k)))" .
  from emap_mem[OF e k] obtain kv where kv: "f k = Inr kv" by blast
  with fk[OF k] have "kv = (k, snd (projr (f k)))" by (cases kv) simp
  with kv m show ?thesis by simp
qed

lemma get_ubs_D:
  assumes "get_ubs inst = Inr (ubr, ubg)"
  obtains kvs1 kvs2 kvs3 where
    "emap (mhat1_entry inst) (List.product (areas inst) (periods inst)) = Inr kvs1"
    "emap (mhat2_entry inst (py_dict kvs1)) (areas inst) = Inr kvs2"
    "emap (ub_reg_entry inst (py_dict kvs2)) (regions inst) = Inr kvs3"
    "ubr = py_dict kvs3"
    "ubg = py_int (glb_multiplier inst * real_of_int (sum_list (map snd ubr)))"
  using assms unfolding get_ubs_def Let_def ebind_Inr_iff by auto

section \<open>Parcel estimates\<close>

lemma lookup_srequired_at:
  "lookup (srequired inst) (s, a, theta) = Inr r \<Longrightarrow> r = srequired_at inst s a theta"
  by (simp add: lookup_Inr_iff srequired_at_def)

lemma lookup_sdemand_at:
  "lookup (sdemand inst) (s, a, theta) = Inr d \<Longrightarrow> d = sdemand_at inst s a theta"
  by (simp add: lookup_Inr_iff sdemand_at_def)

lemma td_X_Inr_iff: "td_X keys mk sol k = Inr v \<longleftrightarrow> k \<in> set keys \<and> v = val_X sol (mk k)"
  by (auto simp: td_X_def)

lemma py_truediv_Inr_iff: "py_truediv a b = Inr q \<longleftrightarrow> b \<noteq> 0 \<and> q = a / b"
  by (auto simp: py_truediv_def)

text \<open>The scenarios kept by the filter are those with a positive requirement.\<close>

lemma scenarios_with_demand_Inr:
  assumes "scenarios_with_demand inst a theta = Inr swd"
  shows "swd = positive_scenarios inst a theta"
proof -
  let ?p = "\<lambda>s. ebind (lookup (srequired inst) (s, a, theta)) (\<lambda>r. Inr (r > 0))"
  from assms have e: "efilter ?p (scenarios inst) = Inr swd"
    by (simp add: scenarios_with_demand_def)
  from efilter_Inr_D[OF e] have sw: "swd = filter (\<lambda>s. ?p s = Inr True) (scenarios inst)"
    and all: "\<forall>s\<in>set (scenarios inst). \<exists>b. ?p s = Inr b" by simp_all
  have "filter (\<lambda>s. ?p s = Inr True) (scenarios inst)
      = filter (\<lambda>s. 0 < srequired_at inst s a theta) (scenarios inst)"
  proof (rule filter_cong[OF refl])
    fix s assume "s \<in> set (scenarios inst)"
    with all obtain b where "?p s = Inr b" by blast
    then obtain r where r: "lookup (srequired inst) (s, a, theta) = Inr r" "b = (r > 0)"
      by (auto simp: ebind_Inr_iff)
    from lookup_srequired_at[OF r(1)] r
    show "(?p s = Inr True) = (0 < srequired_at inst s a theta)" by simp
  qed
  with sw show ?thesis by (simp add: positive_scenarios_def)
qed

lemma emap_terms:
  assumes e: "emap f ss = Inr ts" and v: "\<And>s t. s \<in> set ss \<Longrightarrow> f s = Inr t \<Longrightarrow> t = g s"
  shows "ts = map g ss"
proof -
  have "ts = map (\<lambda>s. projr (f s)) ss" using emap_Inr_map[OF e] .
  also have "\<dots> = map g ss"
  proof (rule map_cong[OF refl])
    fix s assume s: "s \<in> set ss"
    from emap_mem[OF e s] obtain t where "f s = Inr t" by blast
    with v[OF s this] show "projr (f s) = g s" by simp
  qed
  finally show ?thesis .
qed

text \<open>What one pass of the loop computes, whenever it does not raise.\<close>

lemma parcel_estimates_Inr:
  assumes pe: "parcel_estimates sv sol a theta = Inr e" and si: "s_i sv = inst"
  shows "e = (if positive_scenarios inst a theta = [] then (0, 0, 0)
              else (summed_outsourced inst (val_X sol) a theta,
                    summed_outsourced_pct inst (val_X sol) a theta,
                    mean_inhouse inst (val_X sol) a theta))"
proof -
  from pe obtain swd where swd: "scenarios_with_demand inst a theta = Inr swd"
    unfolding parcel_estimates_def si ebind_Inr_iff by blast
  have sw: "swd = positive_scenarios inst a theta" using scenarios_with_demand_Inr[OF swd] .
  show ?thesis
  proof (cases "swd = []")
    case True
    with pe swd sw show ?thesis by (simp add: parcel_estimates_def si)
  next
    case False
    with pe swd obtain ts1 ts2 ts3 where
      t1: "emap (outsourced_term sv sol a theta) swd = Inr ts1"
      and t2: "emap (outsourced_pct_term sv sol a theta) swd = Inr ts2"
      and t3: "emap (inhouse_term sv sol a theta) swd = Inr ts3"
      and ev: "e = (max (sum_list ts1) 0 / real (length swd),
                    max (sum_list ts2) 0 / real (length swd),
                    sum_list ts3 / real (length swd))"
      unfolding parcel_estimates_def si
      by (auto simp: ebind_Inr_iff Let_def py_truediv_Inr_iff)
    have v1: "ts1 = map (\<lambda>s. (srequired_at inst s a theta - val_X sol (X a theta))
                             * sdemand_at inst s a theta / srequired_at inst s a theta) swd"
    proof (rule emap_terms[OF t1])
      fix s t assume "outsourced_term sv sol a theta s = Inr t"
      then show "t = (srequired_at inst s a theta - val_X sol (X a theta))
                             * sdemand_at inst s a theta / srequired_at inst s a theta"
        unfolding outsourced_term_def si
        by (auto simp: ebind_Inr_iff py_truediv_Inr_iff td_X_Inr_iff mkX_def
            dest!: lookup_srequired_at lookup_sdemand_at)
    qed
    have v2: "ts2 = map (\<lambda>s. 100 * (srequired_at inst s a theta - val_X sol (X a theta))
                             / srequired_at inst s a theta) swd"
    proof (rule emap_terms[OF t2])
      fix s t assume "outsourced_pct_term sv sol a theta s = Inr t"
      then show "t = 100 * (srequired_at inst s a theta - val_X sol (X a theta))
                             / srequired_at inst s a theta"
        unfolding outsourced_pct_term_def si
        by (auto simp: ebind_Inr_iff py_truediv_Inr_iff td_X_Inr_iff mkX_def
            dest!: lookup_srequired_at)
    qed
    have v3: "ts3 = map (\<lambda>s. sdemand_at inst s a theta * val_X sol (X a theta)
                             / srequired_at inst s a theta) swd"
    proof (rule emap_terms[OF t3])
      fix s t assume "inhouse_term sv sol a theta s = Inr t"
      then show "t = sdemand_at inst s a theta * val_X sol (X a theta)
                             / srequired_at inst s a theta"
        unfolding inhouse_term_def si
        by (auto simp: ebind_Inr_iff py_truediv_Inr_iff td_X_Inr_iff mkX_def
            dest!: lookup_srequired_at lookup_sdemand_at)
    qed
    from False sw ev show ?thesis
      unfolding v1 v2 v3 summed_outsourced_def summed_outsourced_pct_def mean_inhouse_def
      by simp
  qed
qed

lemma emap_Inl_D: "emap f xs = Inl e \<Longrightarrow> \<exists>x\<in>set xs. f x = Inl e"
proof (induction xs)
  case Nil
  then show ?case by simp
next
  case (Cons z zs)
  show ?case
  proof (cases "f z")
    case (Inl e')
    with Cons.prems show ?thesis by simp
  next
    case (Inr y)
    with Cons.prems have "emap f zs = Inl e" by (cases "emap f zs") simp_all
    from Cons.IH[OF this] show ?thesis by auto
  qed
qed

lemma efilter_Inl_D: "efilter p xs = Inl e \<Longrightarrow> \<exists>x\<in>set xs. p x = Inl e"
proof (induction xs)
  case Nil
  then show ?case by simp
next
  case (Cons z zs)
  show ?case
  proof (cases "p z")
    case (Inl e')
    with Cons.prems show ?thesis by simp
  next
    case (Inr y)
    with Cons.prems have "efilter p zs = Inl e" by (cases "efilter p zs") simp_all
    from Cons.IH[OF this] show ?thesis by auto
  qed
qed

lemma lookup_Inl: "lookup d k = Inl e \<Longrightarrow> e = KeyError"
  by (simp add: lookup_def split: option.splits)

lemma scenarios_with_demand_positive:
  assumes "scenarios_with_demand inst a theta = Inr swd" and "s \<in> set swd"
  shows "\<exists>r. lookup (srequired inst) (s, a, theta) = Inr r \<and> 0 < r"
proof -
  let ?p = "\<lambda>s. ebind (lookup (srequired inst) (s, a, theta)) (\<lambda>r. Inr (r > 0))"
  from assms(1) have e: "efilter ?p (scenarios inst) = Inr swd"
    by (simp add: scenarios_with_demand_def)
  from efilter_Inr_D[OF e] assms(2) have "?p s = Inr True" by simp
  then show ?thesis by (auto simp: ebind_Inr_iff)
qed

text \<open>No pass of the loop divides by zero.\<close>

lemma parcel_estimates_no_ZeroDivisionError:
  "parcel_estimates sv sol a theta \<noteq> Inl ZeroDivisionError"
proof
  assume pe: "parcel_estimates sv sol a theta = Inl ZeroDivisionError"
  let ?i = "s_i sv"
  show False
  proof (cases "scenarios_with_demand ?i a theta")
    case (Inl e)
    with pe have "e = ZeroDivisionError" by (simp add: parcel_estimates_def)
    with Inl obtain s where
      "ebind (lookup (srequired ?i) (s, a, theta)) (\<lambda>r. Inr (r > 0)) = Inl ZeroDivisionError"
      unfolding scenarios_with_demand_def by (blast dest: efilter_Inl_D)
    then show False
      by (cases "lookup (srequired ?i) (s, a, theta)") (auto dest: lookup_Inl)
  next
    case swd: (Inr swd)
    have pos: "\<exists>r. lookup (srequired ?i) (s, a, theta) = Inr r \<and> 0 < r" if "s \<in> set swd" for s
      using scenarios_with_demand_positive[OF swd that] .
    have n1: "outsourced_term sv sol a theta s \<noteq> Inl ZeroDivisionError" if "s \<in> set swd" for s
      using pos[OF that]
      by (auto simp: outsourced_term_def td_X_def py_truediv_def lookup_def split: option.splits)
    have n2: "outsourced_pct_term sv sol a theta s \<noteq> Inl ZeroDivisionError" if "s \<in> set swd" for s
      using pos[OF that]
      by (auto simp: outsourced_pct_term_def td_X_def py_truediv_def lookup_def split: option.splits)
    have n3: "inhouse_term sv sol a theta s \<noteq> Inl ZeroDivisionError" if "s \<in> set swd" for s
      using pos[OF that]
      by (auto simp: inhouse_term_def td_X_def py_truediv_def lookup_def split: option.splits)
    show False
    proof (cases "swd = []")
      case True
      with pe swd show False by (simp add: parcel_estimates_def)
    next
      case ne: False
      show False
      proof (cases "emap (outsourced_term sv sol a theta) swd")
        case (Inl e)
        with pe swd ne have "e = ZeroDivisionError" by (simp add: parcel_estimates_def)
        with Inl n1 show False by (blast dest: emap_Inl_D)
      next
        case t1: (Inr ts1)
        show False
        proof (cases "emap (outsourced_pct_term sv sol a theta) swd")
          case (Inl e)
          with pe swd ne t1 have "e = ZeroDivisionError" by (simp add: parcel_estimates_def)
          with Inl n2 show False by (blast dest: emap_Inl_D)
        next
          case t2: (Inr ts2)
          show False
          proof (cases "emap (inhouse_term sv sol a theta) swd")
            case (Inl e)
            with pe swd ne t1 t2 have "e = ZeroDivisionError" by (simp add: parcel_estimates_def)
            with Inl n3 show False by (blast dest: emap_Inl_D)
          next
            case t3: (Inr ts3)
            with pe swd ne t1 t2 show False
              by (simp add: parcel_estimates_def Let_def py_truediv_def)
          qed
        qed
      qed
    qed
  qed
qed

lemma emap_py_dict_lookup_map:
  assumes e: "emap f ks = Inr kvs"
    and key: "\<And>k kv. k \<in> set ks \<Longrightarrow> f k = Inr kv \<Longrightarrow> fst (h kv) = k"
    and k: "k \<in> set ks"
  shows "\<exists>kv. f k = Inr kv \<and> map_of (py_dict (map h kvs)) k = Some (snd (h kv))"
proof -
  have kvs: "kvs = map (\<lambda>x. projr (f x)) ks" using emap_Inr_map[OF e] .
  have fk: "fst (h (projr (f x))) = x" if "x \<in> set ks" for x
  proof -
    from emap_mem[OF e that] obtain kv where "f x = Inr kv" by blast
    with key[OF that this] show ?thesis by simp
  qed
  have "map_of (py_dict (map h kvs)) k = map_of (map (\<lambda>x. h (projr (f x))) (rev ks)) k"
    unfolding map_of_py_dict kvs by (simp add: rev_map comp_def)
  also have "\<dots> = Some (snd (h (projr (f k))))"
    by (rule map_of_map_keyed) (use fk k in auto)
  finally have m: "map_of (py_dict (map h kvs)) k = Some (snd (h (projr (f k))))" .
  from emap_mem[OF e k] obtain kv where kv: "f k = Inr kv" by blast
  with m show ?thesis by simp
qed

lemma basic_results_entries:
  assumes "basic_results sv sol = Inr results"
  shows "\<exists>ests. emap (area_estimates sv sol) (areas (s_i sv)) = Inr ests
       \<and> map_of results ''outsourced_parcels''
           = Some (RFloatSeries (py_dict (map (\<lambda>(a, os, ps, hs). (a, os)) ests)))
       \<and> map_of results ''inhouse_parcels''
           = Some (RFloatSeries (py_dict (map (\<lambda>(a, os, ps, hs). (a, hs)) ests)))"
  using assms unfolding basic_results_def Let_def ebind_Inr_iff
  by (auto simp: update_conv')

text \<open>The two series of parcel estimates in a results dictionary.\<close>

lemma basic_results_series:
  assumes br: "basic_results sv sol = Inr results" and a: "a \<in> set (areas (s_i sv))"
  obtains es f h where
    "emap (parcel_estimates sv sol a) (periods (s_i sv)) = Inr es"
    "map_of results ''outsourced_parcels'' = Some (RFloatSeries f)"
    "map_of f a = Some (map fst es)"
    "map_of results ''inhouse_parcels'' = Some (RFloatSeries h)"
    "map_of h a = Some (map (\<lambda>e. snd (snd e)) es)"
proof -
  from basic_results_entries[OF br] obtain ests where
    ests: "emap (area_estimates sv sol) (areas (s_i sv)) = Inr ests"
    and o: "map_of results ''outsourced_parcels''
           = Some (RFloatSeries (py_dict (map (\<lambda>(a, os, ps, hs). (a, os)) ests)))"
    and h: "map_of results ''inhouse_parcels''
           = Some (RFloatSeries (py_dict (map (\<lambda>(a, os, ps, hs). (a, hs)) ests)))"
    by blast
  have shape: "\<exists>es. emap (parcel_estimates sv sol a') (periods (s_i sv)) = Inr es
           \<and> kv = (a', map fst es, map (\<lambda>e. fst (snd e)) es, map (\<lambda>e. snd (snd e)) es)"
    if "area_estimates sv sol a' = Inr kv" for a' kv
    using that unfolding area_estimates_def ebind_Inr_iff by auto
  let ?h1 = "\<lambda>(a, os, ps, hs). (a, os) :: area \<times> real list"
  let ?h2 = "\<lambda>(a, os, ps, hs). (a, hs) :: area \<times> real list"
  have k1: "fst (?h1 kv) = a'"
    if "a' \<in> set (areas (s_i sv))" "area_estimates sv sol a' = Inr kv" for a' kv
    using shape[OF that(2)] by auto
  have k2: "fst (?h2 kv) = a'"
    if "a' \<in> set (areas (s_i sv))" "area_estimates sv sol a' = Inr kv" for a' kv
    using shape[OF that(2)] by auto
  have "\<exists>kv. area_estimates sv sol a = Inr kv \<and> map_of (py_dict (map ?h1 ests)) a = Some (snd (?h1 kv))"
    using ests k1 a by (rule emap_py_dict_lookup_map[where h = ?h1])
  then obtain kv where
    kv: "area_estimates sv sol a = Inr kv"
    and m1: "map_of (py_dict (map ?h1 ests)) a = Some (snd (?h1 kv))"
    by blast
  have "\<exists>kv. area_estimates sv sol a = Inr kv \<and> map_of (py_dict (map ?h2 ests)) a = Some (snd (?h2 kv))"
    using ests k2 a by (rule emap_py_dict_lookup_map[where h = ?h2])
  with kv have m2: "map_of (py_dict (map ?h2 ests)) a = Some (snd (?h2 kv))"
    by auto
  from shape[OF kv] obtain es where
    es: "emap (parcel_estimates sv sol a) (periods (s_i sv)) = Inr es"
    and kvv: "kv = (a, map fst es, map (\<lambda>e. fst (snd e)) es, map (\<lambda>e. snd (snd e)) es)"
    by blast
  show thesis
    by (rule that[OF es o _ h]) (use m1 m2 kvv in simp_all)
qed

lemma emap_nth:
  assumes "emap f xs = Inr ys" and "i < length xs"
  shows "i < length ys \<and> f (xs ! i) = Inr (ys ! i)"
proof -
  have ys: "ys = map (\<lambda>x. projr (f x)) xs" using emap_Inr_map[OF assms(1)] .
  from emap_mem[OF assms(1), of "xs ! i"] assms(2) obtain y where "f (xs ! i) = Inr y"
    by auto
  with ys assms(2) show ?thesis by simp
qed

text \<open>
  Claim C8, amended. Whenever extraction returns a results dictionary, then for every
  area and period where no scenario has positive required couriers the loop computes 0
  for the outsourced parcels, the outsourced percentage and the in-house parcels, and
  the series \<open>outsourced_parcels\<close> and \<open>inhouse_parcels\<close> of the dictionary hold 0
  there; and computing the parcel estimates never raises a division error, at any area
  and period.
\<close>

theorem parcel_estimates_zero_required:
  assumes br: "basic_results sv sol = Inr results" and a: "a \<in> set (areas (s_i sv))"
    and i: "i < length (periods (s_i sv))"
    and zero: "positive_scenarios (s_i sv) a (periods (s_i sv) ! i) = []"
  shows "parcel_estimates sv sol a (periods (s_i sv) ! i) = Inr (0, 0, 0)
       \<and> (\<exists>f os. map_of results ''outsourced_parcels'' = Some (RFloatSeries f)
             \<and> map_of f a = Some os \<and> os ! i = 0)
       \<and> (\<exists>h hs. map_of results ''inhouse_parcels'' = Some (RFloatSeries h)
             \<and> map_of h a = Some hs \<and> hs ! i = 0)
       \<and> (\<forall>a' theta'. parcel_estimates sv sol a' theta' \<noteq> Inl ZeroDivisionError)"
proof -
  from basic_results_series[OF br a] obtain es f h where
    es: "emap (parcel_estimates sv sol a) (periods (s_i sv)) = Inr es"
    and o: "map_of results ''outsourced_parcels'' = Some (RFloatSeries f)" "map_of f a = Some (map fst es)"
    and h: "map_of results ''inhouse_parcels'' = Some (RFloatSeries h)"
      "map_of h a = Some (map (\<lambda>e. snd (snd e)) es)"
    by blast
  from emap_nth[OF es i] have il: "i < length es"
    and pe: "parcel_estimates sv sol a (periods (s_i sv) ! i) = Inr (es ! i)" by simp_all
  from parcel_estimates_Inr[OF pe refl] zero have ev: "es ! i = (0, 0, 0)" by simp
  from il ev have "map fst es ! i = 0" and "map (\<lambda>e. snd (snd e)) es ! i = 0"
    by simp_all
  with pe ev o h parcel_estimates_no_ZeroDivisionError show ?thesis by auto
qed

section \<open>Division by the bounds\<close>

lemma emap_total:
  assumes "\<And>x. x \<in> set xs \<Longrightarrow> \<exists>y. f x = Inr y"
  shows "emap f xs = Inr (map (\<lambda>x. projr (f x)) xs)"
proof (rule emap_map)
  fix x assume "x \<in> set xs"
  from assms[OF this] show "f x = Inr (projr (f x))" by auto
qed

lemma emap_Inl_I:
  assumes "\<And>x. x \<in> set xs \<Longrightarrow> f x = Inl e \<or> (\<exists>y. f x = Inr y)"
    and "\<exists>x\<in>set xs. f x = Inl e"
  shows "emap f xs = Inl e"
  using assms
proof (induction xs)
  case Nil
  then show ?case by simp
next
  case (Cons z zs)
  show ?case
  proof (cases "f z")
    case (Inl e')
    with Cons.prems(1)[of z] show ?thesis by simp
  next
    case (Inr y)
    with Cons.prems(2) have "\<exists>x\<in>set zs. f x = Inl e" by auto
    with Cons.IH Cons.prems(1) have "emap f zs = Inl e" by simp
    with Inr show ?thesis by simp
  qed
qed

lemma compute_data_ub_reg:
  assumes cd: "compute_data cfg js = Inr inst" and r: "region \<in> set (regions inst)"
  shows "\<exists>u. lookup (ub_reg inst) region = Inr u"
proof -
  from compute_data_periods(5)[OF cd] obtain kvs1 kvs2 kvs3 where
    e3: "emap (ub_reg_entry inst (py_dict kvs2)) (regions inst) = Inr kvs3"
    and ur: "ub_reg inst = py_dict kvs3"
    by (rule get_ubs_D)
  have key: "fst kv = k" if "ub_reg_entry inst (py_dict kvs2) k = Inr kv" for k kv
    using that by (auto simp: ub_reg_entry_def ebind_Inr_iff)
  from emap_py_dict_lookup[OF e3 key r] obtain u where
    "map_of (py_dict kvs3) region = Some u" by blast
  then show ?thesis unfolding ur by (simp add: lookup_def)
qed

text \<open>After the base model has been built, every value the extraction looks up is there.\<close>

lemma base_model_lookups:
  assumes b: "build_base_model sv0 = Inr sv1"
    and a: "a \<in> set (areas (s_i sv0))" and t: "theta \<in> set (periods (s_i sv0))"
    and s: "s \<in> set (scenarios (s_i sv0))"
  shows "\<exists>r. lookup (srequired (s_i sv0)) (s, a, theta) = Inr r"
    and "\<exists>d. lookup (sdemand (s_i sv0)) (s, a, theta) = Inr d"
proof -
  have "(a, theta, s) \<in> set (omega_keys (s_i sv0))" using a t s by (simp add: omega_keys_mem)
  from build_base_model_D(6)[OF b this] obtain c where
    "set_omega (s_i sv0) (a, theta, s) = Inr c" by blast
  then show "\<exists>r. lookup (srequired (s_i sv0)) (s, a, theta) = Inr r"
    "\<exists>d. lookup (sdemand (s_i sv0)) (s, a, theta) = Inr d"
    by (auto simp: set_omega_def ebind_Inr_iff)
qed

lemma parcel_estimates_total:
  assumes x: "(a, theta) \<in> set (s_x sv)"
    and r: "\<And>s. s \<in> set (scenarios (s_i sv)) \<Longrightarrow> \<exists>r. lookup (srequired (s_i sv)) (s, a, theta) = Inr r"
    and d: "\<And>s. s \<in> set (scenarios (s_i sv)) \<Longrightarrow> \<exists>d. lookup (sdemand (s_i sv)) (s, a, theta) = Inr d"
  shows "\<exists>e. parcel_estimates sv sol a theta = Inr e"
proof -
  let ?i = "s_i sv"
  have "efilter (\<lambda>s. ebind (lookup (srequired ?i) (s, a, theta)) (\<lambda>r. Inr (r > 0))) (scenarios ?i)
          = Inr (filter (\<lambda>s. 0 < srequired_at ?i s a theta) (scenarios ?i))"
  proof (rule efilter_filter)
    fix s assume "s \<in> set (scenarios ?i)"
    from r[OF this] obtain rv where rv: "lookup (srequired ?i) (s, a, theta) = Inr rv" by blast
    with lookup_srequired_at[OF rv]
    show "ebind (lookup (srequired ?i) (s, a, theta)) (\<lambda>r. Inr (r > 0))
            = Inr (0 < srequired_at ?i s a theta)" by simp
  qed
  then have swd: "scenarios_with_demand ?i a theta = Inr (positive_scenarios ?i a theta)"
    by (simp add: scenarios_with_demand_def positive_scenarios_def)
  let ?swd = "positive_scenarios ?i a theta"
  have ok: "\<exists>rv dv. lookup (srequired ?i) (s, a, theta) = Inr rv \<and> 0 < rv
              \<and> lookup (sdemand ?i) (s, a, theta) = Inr dv" if "s \<in> set ?swd" for s
  proof -
    from that have sc: "s \<in> set (scenarios ?i)" by (simp add: positive_scenarios_def)
    from scenarios_with_demand_positive[OF swd that] d[OF sc] show ?thesis by blast
  qed
  have t1: "\<exists>y. outsourced_term sv sol a theta s = Inr y" if "s \<in> set ?swd" for s
    using ok[OF that] x by (auto simp: outsourced_term_def td_X_def py_truediv_def)
  have t2: "\<exists>y. outsourced_pct_term sv sol a theta s = Inr y" if "s \<in> set ?swd" for s
    using ok[OF that] x by (auto simp: outsourced_pct_term_def td_X_def py_truediv_def)
  have t3: "\<exists>y. inhouse_term sv sol a theta s = Inr y" if "s \<in> set ?swd" for s
    using ok[OF that] x by (auto simp: inhouse_term_def td_X_def py_truediv_def)
  have e1: "emap (outsourced_term sv sol a theta) ?swd
      = Inr (map (\<lambda>s. projr (outsourced_term sv sol a theta s)) ?swd)"
    using t1 by (rule emap_total)
  have e2: "emap (outsourced_pct_term sv sol a theta) ?swd
      = Inr (map (\<lambda>s. projr (outsourced_pct_term sv sol a theta s)) ?swd)"
    using t2 by (rule emap_total)
  have e3: "emap (inhouse_term sv sol a theta) ?swd
      = Inr (map (\<lambda>s. projr (inhouse_term sv sol a theta s)) ?swd)"
    using t3 by (rule emap_total)
  show ?thesis
    unfolding parcel_estimates_def swd
    by (simp add: e1 e2 e3 Let_def py_truediv_def)
qed

text \<open>Every model is built on the base model and keeps its instance and its \<open>x\<close>.\<close>

lemma any_build_base:
  assumes b: "build_base_model sv0 = Inr sv \<or> build_fixed_model sv0 = Inr sv
            \<or> build_flexible_model sv0 = Inr sv \<or> build_partflex_model sv0 = Inr sv"
    and n8: "n_periods (s_i sv0) = 8"
  shows "\<exists>sv1. build_base_model sv0 = Inr sv1 \<and> s_x sv = x_keys (s_i sv0) \<and> s_i sv = s_i sv0"
proof -
  have flexD: "\<exists>sv1. build_base_model sv0 = Inr sv1 \<and> s_x svf = x_keys (s_i sv0) \<and> s_i svf = s_i sv0"
    if "build_flexible_model sv0 = Inr svf" for svf
  proof -
    from build_flexible_model_D[OF that n8] obtain sv1 where
      "build_base_model sv0 = Inr sv1" "s_x svf = s_x sv1" "s_i svf = s_i sv0" by metis
    with build_base_model_D(2)[OF this(1)] show ?thesis by auto
  qed
  from b consider (base) "build_base_model sv0 = Inr sv" | (fixed) "build_fixed_model sv0 = Inr sv"
    | (flex) "build_flexible_model sv0 = Inr sv" | (partflex) "build_partflex_model sv0 = Inr sv"
    by blast
  then show ?thesis
  proof cases
    case base
    with build_base_model_D(1,2)[OF base] show ?thesis by auto
  next
    case fixed
    from build_fixed_model_D(3)[OF fixed] obtain sv1 where
      "build_base_model sv0 = Inr sv1" "s_x sv = s_x sv1" by blast
    with build_base_model_D(2)[OF this(1)] build_fixed_model_D(1)[OF fixed] show ?thesis by auto
  next
    case flex
    then show ?thesis by (rule flexD)
  next
    case partflex
    from build_partflex_model_D[OF partflex n8] obtain svf where
      f: "build_flexible_model sv0 = Inr svf" and "s_i sv = s_i svf" "s_x sv = s_x svf" by metis
    with flexD[OF f] show ?thesis by auto
  qed
qed

lemma regional_hired_pct_entry_cases:
  assumes r: "lookup (reg_areas (s_i sv)) region = Inr ras"
    and sub: "set ras \<subseteq> set (areas (s_i sv))"
    and x: "s_x sv = x_keys (s_i sv)"
    and u: "lookup (ub_reg (s_i sv)) region = Inr u"
  shows "regional_hired_pct_entry sv sol region =
           (if u * n_periods (s_i sv) = 0 then Inl ZeroDivisionError
            else Inr (region,
                      100 * sum_list (map (\<lambda>k. val_X sol (mkX k)) (List.product ras (periods (s_i sv))))
                      / real_of_int (u * n_periods (s_i sv))))"
proof -
  have "emap (td_X (s_x sv) mkX sol) (List.product ras (periods (s_i sv)))
          = Inr (map (\<lambda>k. val_X sol (mkX k)) (List.product ras (periods (s_i sv))))"
    by (rule emap_map) (use sub x in \<open>auto simp: td_X_def x_keys_def\<close>)
  with r u show ?thesis
    by (simp add: regional_hired_pct_entry_def py_truediv_def)
qed

text \<open>
  Claim C9. Extraction divides by \<open>ub_reg[region] * n_periods\<close> and by
  \<open>ub_global * n_periods\<close> without a guard: for a derived instance with a regional
  bound of 0 or a global bound of 0, extraction on any of the four models, whatever
  the solver returned, raises a division by zero instead of returning a results
  dictionary.
\<close>

theorem extraction_divides_by_zero_bound:
  assumes cd: "compute_data cfg js = Inr inst" and si: "s_i sv0 = inst"
    and b: "build_base_model sv0 = Inr sv \<or> build_fixed_model sv0 = Inr sv
            \<or> build_flexible_model sv0 = Inr sv \<or> build_partflex_model sv0 = Inr sv"
    and z: "(\<exists>region\<in>set (regions inst). lookup (ub_reg inst) region = Inr 0) \<or> ub_global inst = 0"
  shows "basic_results sv sol = Inl ZeroDivisionError
       \<and> fixed_results sv sol = Inl ZeroDivisionError
       \<and> flex_results sv sol = Inl ZeroDivisionError"
proof -
  have n8: "n_periods inst = 8" using compute_data_periods(1)[OF cd] .
  from any_build_base[OF b] n8 si obtain sv1 where
    b1: "build_base_model sv0 = Inr sv1" and sx: "s_x sv = x_keys inst" and i: "s_i sv = inst"
    by auto
  have hired: "\<exists>h. emap (hired_couriers_entry sv sol) (areas inst) = Inr h"
  proof -
    have "\<exists>y. hired_couriers_entry sv sol a = Inr y" if "a \<in> set (areas inst)" for a
    proof -
      have "emap (\<lambda>theta. td_X (s_x sv) mkX sol (a, theta)) (periods inst)
              = Inr (map (\<lambda>theta. val_X sol (mkX (a, theta))) (periods inst))"
        by (rule emap_map) (use that sx in \<open>auto simp: td_X_def x_keys_def\<close>)
      then show ?thesis by (simp add: hired_couriers_entry_def i)
    qed
    then have "emap (hired_couriers_entry sv sol) (areas inst)
        = Inr (map (\<lambda>a. projr (hired_couriers_entry sv sol a)) (areas inst))"
      by (rule emap_total)
    then show ?thesis by blast
  qed
  have ests: "\<exists>e. emap (area_estimates sv sol) (areas inst) = Inr e"
  proof -
    have "\<exists>y. area_estimates sv sol a = Inr y" if a: "a \<in> set (areas inst)" for a
    proof -
      have "\<exists>e. parcel_estimates sv sol a theta = Inr e" if t: "theta \<in> set (periods inst)" for theta
      proof (rule parcel_estimates_total)
        show "(a, theta) \<in> set (s_x sv)" using a t sx by (simp add: x_keys_def)
        show "\<exists>r. lookup (srequired (s_i sv)) (s, a, theta) = Inr r"
          if "s \<in> set (scenarios (s_i sv))" for s
          using base_model_lookups(1)[OF b1, unfolded si, OF a t] that i by simp
        show "\<exists>d. lookup (sdemand (s_i sv)) (s, a, theta) = Inr d"
          if "s \<in> set (scenarios (s_i sv))" for s
          using base_model_lookups(2)[OF b1, unfolded si, OF a t] that i by simp
      qed
      then have "emap (parcel_estimates sv sol a) (periods inst)
          = Inr (map (\<lambda>theta. projr (parcel_estimates sv sol a theta)) (periods inst))"
        by (rule emap_total)
      then show ?thesis
        by (simp add: area_estimates_def i)
    qed
    then have "emap (area_estimates sv sol) (areas inst)
        = Inr (map (\<lambda>a. projr (area_estimates sv sol a)) (areas inst))"
      by (rule emap_total)
    then show ?thesis by blast
  qed
  have entry: "regional_hired_pct_entry sv sol region = Inl ZeroDivisionError
                 \<or> (\<exists>y. regional_hired_pct_entry sv sol region = Inr y)"
    and entry0: "lookup (ub_reg inst) region = Inr 0 \<Longrightarrow>
                   regional_hired_pct_entry sv sol region = Inl ZeroDivisionError"
    if r: "region \<in> set (regions inst)" for region
  proof -
    from compute_data_regions(1)[OF cd r] obtain ras where
      ras: "lookup (reg_areas inst) region = Inr ras" "set ras \<subseteq> set (areas inst)" by blast
    from compute_data_ub_reg[OF cd r] obtain u where u: "lookup (ub_reg inst) region = Inr u"
      by blast
    note c = regional_hired_pct_entry_cases[of sv, unfolded i, OF ras sx u]
    from c show "regional_hired_pct_entry sv sol region = Inl ZeroDivisionError
                 \<or> (\<exists>y. regional_hired_pct_entry sv sol region = Inr y)"
      by (cases "u * n_periods inst = 0") simp_all
    show "regional_hired_pct_entry sv sol region = Inl ZeroDivisionError"
      if "lookup (ub_reg inst) region = Inr 0"
      using c that u by simp
  qed
  from hired ests obtain h e where
    h: "emap (hired_couriers_entry sv sol) (areas inst) = Inr h"
    and e: "emap (area_estimates sv sol) (areas inst) = Inr e" by blast
  have br: "basic_results sv sol = Inl ZeroDivisionError"
  proof (cases "\<exists>region\<in>set (regions inst). lookup (ub_reg inst) region = Inr 0")
    case True
    then have "\<exists>region\<in>set (regions inst). regional_hired_pct_entry sv sol region = Inl ZeroDivisionError"
      using entry0 by blast
    with entry have "emap (regional_hired_pct_entry sv sol) (regions inst) = Inl ZeroDivisionError"
      by (intro emap_Inl_I) auto
    with h e show ?thesis by (simp add: basic_results_def i Let_def)
  next
    case False
    with z have g0: "ub_global inst = 0" by simp
    show ?thesis
    proof (cases "emap (regional_hired_pct_entry sv sol) (regions inst)")
      case (Inl err)
      from emap_Inl_D[OF this] entry have "err = ZeroDivisionError" by force
      with Inl h e show ?thesis by (simp add: basic_results_def i Let_def)
    next
      case (Inr rhp)
      with h e g0 show ?thesis by (simp add: basic_results_def i Let_def py_truediv_def)
    qed
  qed
  then show ?thesis by (simp add: fixed_results_def flex_results_def)
qed

section \<open>The shift cap\<close>

lemma init_data_max_n_shifts:
  "init_data (Args (ns\<lparr>a_max_n_shifts := v\<rparr>)) js ars = init_data (Args ns) js ars"
  by (simp add: init_data_def)

lemma model_init_data:
  "model (init_data cfg js ars\<lparr>ub_reg := ubr, ub_global := ubg, shifts := sh\<rparr>) =
     (case cfg of Kwargs kw \<Rightarrow> k_model kw | Args ns \<Rightarrow> a_model ns)"
  by (simp add: init_data_def)

text \<open>Instance derivation from a command line never looks at the value of the shift cap.\<close>

lemma compute_data_Args_max_n_shifts:
  "isl (compute_data (Args (ns\<lparr>a_max_n_shifts := v\<rparr>)) js) = isl (compute_data (Args ns) js)"
proof -
  let ?ars = "emap (area_regs_entry (map r_id (j_regions js))
                    (py_dict (map (\<lambda>r. (r_id r, r_areas r)) (j_regions js))))
                 (concat (map r_areas (j_regions js)))"
  show ?thesis
  proof (cases ?ars)
    case (Inl e)
    then show ?thesis by (simp add: compute_data_def)
  next
    case ars: (Inr ars)
    show ?thesis
    proof (cases "get_ubs (init_data (Args ns) js (py_dict ars))")
      case (Inl e)
      with ars show ?thesis by (simp add: compute_data_def init_data_max_n_shifts)
    next
      case ubs: (Inr u)
      obtain ubr ubg where u: "u = (ubr, ubg)" by (cases u)
      show ?thesis
        using ars ubs unfolding u compute_data_def
        by (simp add: init_data_max_n_shifts get_shifts_init set_max_n_shifts_def model_init_data
            Let_def)
    qed
  qed
qed

lemma compute_data_max_n_shifts:
  assumes cd: "compute_data cfg js = Inr inst"
  shows "(case cfg of Kwargs kw \<Rightarrow> k_model kw | Args ns \<Rightarrow> a_model ns) = ''partflex'' \<Longrightarrow>
           (case cfg of
              Kwargs kw \<Rightarrow> k_max_n_shifts kw \<noteq> None \<and> max_n_shift inst = k_max_n_shifts kw
                           \<and> max_n_shifts inst = None
            | Args ns \<Rightarrow> max_n_shifts inst = Some (a_max_n_shifts ns))"
proof -
  assume m: "(case cfg of Kwargs kw \<Rightarrow> k_model kw | Args ns \<Rightarrow> a_model ns) = ''partflex''"
  from cd obtain ars ubr ubg sh where
    fin: "set_max_n_shifts cfg
                (init_data cfg js (py_dict ars)\<lparr>ub_reg := ubr, ub_global := ubg, shifts := sh\<rparr>)
              = Inr inst"
    by (auto simp: compute_data_def ebind_Inr_iff Let_def)
  have i0: "max_n_shifts (init_data cfg js (py_dict ars)\<lparr>ub_reg := ubr, ub_global := ubg, shifts := sh\<rparr>) = None"
    by (simp add: init_data_def)
  from fin m i0 show ?thesis
    unfolding set_max_n_shifts_def model_init_data
    by (auto split: config.splits option.splits)
qed

text \<open>On a derived instance the link constraints of the partially flexible model are built.\<close>

lemma link_z_w_total:
  assumes cd: "compute_data cfg js = Inr inst"
    and k: "k \<in> set (List.product (regions inst) (py_range (n_periods inst - 4 + 1)))"
  shows "\<exists>c. link_z_w inst (x_keys inst) (py_range (n_periods inst - 4 + 1)) k = Inr c"
proof -
  obtain region theta where kv: "k = (region, theta)" by (cases k)
  from k kv have r: "region \<in> set (regions inst)"
    and t: "theta \<in> set (py_range (n_periods inst - 4 + 1))" by simp_all
  have n8: "n_periods inst = 8" and ps: "periods inst = [0, 1, 2, 3, 4, 5, 6, 7]"
    using compute_data_periods(1,2)[OF cd] by simp_all
  from t n8 have tp: "theta \<in> set (periods inst)"
    unfolding ps by (auto simp: py_range_def)
  from compute_data_regions(1)[OF cd r] obtain ras where
    ras: "lookup (reg_areas inst) region = Inr ras" "set ras \<subseteq> set (areas inst)" by blast
  from compute_data_ub_reg[OF cd r] obtain u where u: "lookup (ub_reg inst) region = Inr u"
    by blast
  have "emap (\<lambda>a. td_get (x_keys inst) mkZminus (a, theta)) ras
          = Inr (map (\<lambda>a. V (mkZminus (a, theta))) ras)"
    by (rule emap_map) (use ras(2) tp in \<open>auto simp: td_get_def x_keys_def\<close>)
  with ras u t show ?thesis
    unfolding kv by (simp add: link_z_w_def td_get_def)
qed

lemma build_partflex_model_limit:
  assumes cd: "compute_data cfg js = Inr inst" and si: "s_i sv0 = inst"
  shows "build_flexible_model sv0 = Inr svf \<Longrightarrow>
           build_partflex_model sv0 =
             (case limit_n_shifts inst (py_range (n_periods inst - 4 + 1)) of
                Inl e \<Rightarrow> Inl e
              | Inr c \<Rightarrow> build_partflex_model sv0)"
    and "build_partflex_model sv0 = Inr sv \<Longrightarrow>
           \<exists>c. limit_n_shifts inst (py_range (n_periods inst - 4 + 1)) = Inr c"
proof -
  have n8: "n_periods inst = 8" using compute_data_periods(1)[OF cd] .
  have n8': "n_periods (s_i sv0) = 8" using n8 si by simp
  show "\<exists>c. limit_n_shifts inst (py_range (n_periods inst - 4 + 1)) = Inr c"
    if b: "build_partflex_model sv0 = Inr sv"
  proof -
    from b obtain svf where f: "build_flexible_model sv0 = Inr svf"
      unfolding build_partflex_model_def ebind_Inr_iff by blast
    from build_flexible_model_D[OF f n8'] have i: "s_i svf = inst" using si by metis
    from b f i n8 show ?thesis
      unfolding build_partflex_model_def
      by (auto simp: ebind_Inr_iff Let_def)
  qed
  show "build_partflex_model sv0 =
             (case limit_n_shifts inst (py_range (n_periods inst - 4 + 1)) of
                Inl e \<Rightarrow> Inl e
              | Inr c \<Rightarrow> build_partflex_model sv0)"
    if f: "build_flexible_model sv0 = Inr svf"
  proof (cases "limit_n_shifts inst (py_range (n_periods inst - 4 + 1))")
    case (Inr c)
    then show ?thesis by simp
  next
    case (Inl e)
    from build_flexible_model_D[OF f n8'] have i: "s_i svf = inst"
      and zm: "s_zminus svf = Some (x_keys inst)" using si by metis+
    let ?w = "py_range (n_periods inst - 4 + 1)"
    have "\<exists>c. link_z_w inst (x_keys inst) ?w k = Inr c"
      if "k \<in> set (List.product (regions inst) ?w)" for k
      using link_z_w_total[OF cd that] .
    then have "emap (link_z_w inst (x_keys inst) ?w) (List.product (regions inst) ?w)
        = Inr (map (\<lambda>k. projr (link_z_w inst (x_keys inst) ?w k)) (List.product (regions inst) ?w))"
      by (rule emap_total)
    with f i zm n8 Inl show ?thesis
      unfolding build_partflex_model_def
      by (simp add: Let_def attr_def addConstrs_def)
  qed
qed

text \<open>
  Claim C10. When an instance is derived from keyword arguments for the model
  \<open>partflex\<close>, the shift cap was supplied and is stored under the attribute
  \<open>max_n_shift\<close>, the attribute \<open>max_n_shifts\<close> does not exist, and building the
  partially flexible model never succeeds: once the flexible part has been built, it
  fails with the missing-attribute error.
\<close>

theorem programmatic_shift_cap_is_lost:
  assumes cd: "compute_data (Kwargs kw) js = Inr inst" and m: "k_model kw = ''partflex''"
    and si: "s_i sv0 = inst"
  shows "k_max_n_shifts kw \<noteq> None \<and> max_n_shift inst = k_max_n_shifts kw
       \<and> max_n_shifts inst = None
       \<and> (\<forall>sv. build_partflex_model sv0 \<noteq> Inr sv)
       \<and> (\<forall>svf. build_flexible_model sv0 = Inr svf \<longrightarrow>
             build_partflex_model sv0 = Inl AttributeError)"
proof -
  from compute_data_max_n_shifts[OF cd] m
  have k: "k_max_n_shifts kw \<noteq> None" "max_n_shift inst = k_max_n_shifts kw"
    "max_n_shifts inst = None" by simp_all
  have lim: "limit_n_shifts inst w = Inl AttributeError" for w
    using k(3) by (simp add: limit_n_shifts_def)
  have no: "build_partflex_model sv0 \<noteq> Inr sv" for sv
    using build_partflex_model_limit(2)[OF cd si, of sv] lim by auto
  have fl: "build_partflex_model sv0 = Inl AttributeError"
    if "build_flexible_model sv0 = Inr svf" for svf
    using build_partflex_model_limit(1)[OF cd si that] lim by simp
  from k no fl show ?thesis by blast
qed

text \<open>
  Claim C6, amended. With the model \<open>partflex\<close> and no shift cap: a programmatic call
  fails during instance derivation, before any model is built; a command-line call
  derives the instance as it would with a cap, stores \<open>None\<close> as the cap, and fails only
  when the last constraint of the partially flexible model is built, after the
  flexible model has been built.
\<close>

theorem missing_shift_cap:
  "(k_model kw = ''partflex'' \<and> k_max_n_shifts kw = None \<longrightarrow>
      (\<forall>inst. compute_data (Kwargs kw) js \<noteq> Inr inst))
   \<and> (a_model ns = ''partflex'' \<and> a_max_n_shifts ns = None
        \<and> compute_data (Args ns) js = Inr inst \<and> s_i sv0 = inst \<longrightarrow>
        max_n_shifts inst = Some None
        \<and> (\<forall>sv. build_partflex_model sv0 \<noteq> Inr sv)
        \<and> (\<forall>svf. build_flexible_model sv0 = Inr svf \<longrightarrow>
              build_partflex_model sv0 = Inl GurobiError))
   \<and> isl (compute_data (Args (ns\<lparr>a_max_n_shifts := v\<rparr>)) js) = isl (compute_data (Args ns) js)"
proof (intro conjI impI allI)
  fix inst'
  assume "k_model kw = ''partflex'' \<and> k_max_n_shifts kw = None"
  then show "compute_data (Kwargs kw) js \<noteq> Inr inst'"
    using compute_data_max_n_shifts[of "Kwargs kw" js inst'] by auto
next
  assume a: "a_model ns = ''partflex'' \<and> a_max_n_shifts ns = None
        \<and> compute_data (Args ns) js = Inr inst \<and> s_i sv0 = inst"
  then have cd: "compute_data (Args ns) js = Inr inst" and si: "s_i sv0 = inst" by simp_all
  from compute_data_max_n_shifts[OF cd] a show mx: "max_n_shifts inst = Some None" by simp
  have lim: "limit_n_shifts inst w = Inl GurobiError" for w
    using mx by (simp add: limit_n_shifts_def)
  show "build_partflex_model sv0 \<noteq> Inr sv" for sv
    using build_partflex_model_limit(2)[OF cd si, of sv] lim by auto
  show "build_partflex_model sv0 = Inl GurobiError"
    if "build_flexible_model sv0 = Inr svf" for svf
    using build_partflex_model_limit(1)[OF cd si that] lim by simp
next
  show "isl (compute_data (Args (ns\<lparr>a_max_n_shifts := v\<rparr>)) js) = isl (compute_data (Args ns) js)"
    by (rule compute_data_Args_max_n_shifts)
qed

section \<open>Samples: the shift cap, the bounds and the estimates\<close>

lemma inst_pf_ok: "compute_data (Args ns_pf) js_w = Inr inst_pf"
proof -
  have "\<not> isl (compute_data (Args ns_pf) js_w)"
    by code_simp
  then show ?thesis
    by (simp add: inst_pf_def)
qed

lemma inst_kw_ok: "compute_data (Kwargs kw_cap) js_w = Inr inst_kw"
proof -
  have "\<not> isl (compute_data (Kwargs kw_cap) js_w)"
    by code_simp
  then show ?thesis
    by (simp add: inst_kw_def)
qed

lemma flex_pf_ok: "\<not> isl (build_flexible_model (new_Solver ns_pf inst_pf))"
  unfolding inst_pf_def by code_simp

lemma flex_kw_ok: "\<not> isl (build_flexible_model (new_Solver ns_pf inst_kw))"
  unfolding inst_kw_def by code_simp

lemma ns_pf_fields: "a_model ns_pf = ''partflex''" "a_max_n_shifts ns_pf = None"
  by (simp_all add: ns_pf_def ns_w_def)

lemma kw_fields: "k_model kw_none = ''partflex''" "k_max_n_shifts kw_none = None"
  "k_model kw_cap = ''partflex''" "k_max_n_shifts kw_cap = Some 2"
  by (simp_all add: kw_cap_def kw_none_def)

theorem missing_shift_cap_counterexample:
  "a_model ns_pf = ''partflex'' \<and> a_max_n_shifts ns_pf = None
   \<and> \<not> isl (compute_data (Args ns_pf) js_w)
   \<and> \<not> isl (build_flexible_model (new_Solver ns_pf (projr (compute_data (Args ns_pf) js_w))))"
proof -
  have d: "\<not> isl (compute_data (Args ns_pf) js_w)"
    by (simp add: inst_pf_ok)
  from flex_pf_ok
  have f: "\<not> isl (build_flexible_model (new_Solver ns_pf (projr (compute_data (Args ns_pf) js_w))))"
    unfolding inst_pf_def .
  from ns_pf_fields d f show ?thesis by (intro conjI)
qed

theorem missing_shift_cap_witness:
  "k_model kw_none = ''partflex'' \<and> k_max_n_shifts kw_none = None
   \<and> isl (compute_data (Kwargs kw_none) js_w)
   \<and> a_model ns_pf = ''partflex'' \<and> a_max_n_shifts ns_pf = None
   \<and> compute_data (Args ns_pf) js_w = Inr inst_pf
   \<and> max_n_shifts inst_pf = Some None
   \<and> build_partflex_model (new_Solver ns_pf inst_pf) = Inl GurobiError"
proof -
  note t = missing_shift_cap[of kw_none js_w ns_pf inst_pf "new_Solver ns_pf inst_pf" "Some 2"]
  from t kw_fields(1,2) have "\<forall>inst. compute_data (Kwargs kw_none) js_w \<noteq> Inr inst" by blast
  then have k: "isl (compute_data (Kwargs kw_none) js_w)"
    by (cases "compute_data (Kwargs kw_none) js_w") auto
  from t ns_pf_fields inst_pf_ok s_i_new_Solver
  have mx: "max_n_shifts inst_pf = Some None"
    and fl: "\<forall>svf. build_flexible_model (new_Solver ns_pf inst_pf) = Inr svf \<longrightarrow>
              build_partflex_model (new_Solver ns_pf inst_pf) = Inl GurobiError"
    by blast+
  from flex_pf_ok obtain svf where "build_flexible_model (new_Solver ns_pf inst_pf) = Inr svf"
    by (cases "build_flexible_model (new_Solver ns_pf inst_pf)") auto
  with fl have "build_partflex_model (new_Solver ns_pf inst_pf) = Inl GurobiError" by blast
  with kw_fields(1,2) k ns_pf_fields inst_pf_ok mx show ?thesis by (intro conjI)
qed

theorem programmatic_shift_cap_is_lost_witness:
  "compute_data (Kwargs kw_cap) js_w = Inr inst_kw \<and> k_model kw_cap = ''partflex''
   \<and> k_max_n_shifts kw_cap = Some 2
   \<and> max_n_shift inst_kw = Some 2 \<and> max_n_shifts inst_kw = None
   \<and> \<not> isl (build_flexible_model (new_Solver ns_pf inst_kw))
   \<and> build_partflex_model (new_Solver ns_pf inst_kw) = Inl AttributeError"
proof -
  from programmatic_shift_cap_is_lost[OF inst_kw_ok kw_fields(3) s_i_new_Solver, of ns_pf]
  have a: "max_n_shift inst_kw = k_max_n_shifts kw_cap" and b: "max_n_shifts inst_kw = None"
    and fl: "\<forall>svf. build_flexible_model (new_Solver ns_pf inst_kw) = Inr svf \<longrightarrow>
              build_partflex_model (new_Solver ns_pf inst_kw) = Inl AttributeError"
    by blast+
  from flex_kw_ok obtain svf where "build_flexible_model (new_Solver ns_pf inst_kw) = Inr svf"
    by (cases "build_flexible_model (new_Solver ns_pf inst_kw)") auto
  with fl have "build_partflex_model (new_Solver ns_pf inst_kw) = Inl AttributeError" by blast
  with inst_kw_ok kw_fields(3,4) a b flex_kw_ok show ?thesis by simp
qed

lemma inst_low_ok: "compute_data (Args ns_two) js_low = Inr inst_low"
proof -
  have "\<not> isl (compute_data (Args ns_two) js_low)"
    by code_simp
  then show ?thesis
    by (simp add: inst_low_def)
qed

lemma base_low_ok: "build_base_model (new_Solver ns_two inst_low) = Inr base_low"
proof -
  have "\<not> isl (build_base_model (new_Solver ns_two inst_low))"
    unfolding inst_low_def by code_simp
  then show ?thesis
    by (simp add: base_low_def)
qed

lemma inst_low_fields: "regions inst_low = [0]" "lookup (ub_reg inst_low) 0 = Inr 0"
  "ub_global inst_low = 0"
  unfolding inst_low_def by code_simp+

lemma base_low_feasible: "feasible (val_X solved_low) (s_m base_low)"
  unfolding base_low_def inst_low_def by code_simp

theorem extraction_divides_by_zero_bound_witness:
  "compute_data (Args ns_two) js_low = Inr inst_low
   \<and> build_base_model (new_Solver ns_two inst_low) = Inr base_low
   \<and> 0 \<in> set (regions inst_low) \<and> lookup (ub_reg inst_low) 0 = Inr 0
   \<and> feasible (val_X solved_low) (s_m base_low)
   \<and> basic_results base_low solved_low = Inl ZeroDivisionError"
proof -
  have r: "0 \<in> set (regions inst_low)" by (simp add: inst_low_fields)
  have z: "(\<exists>region\<in>set (regions inst_low). lookup (ub_reg inst_low) region = Inr 0)
             \<or> ub_global inst_low = 0"
    using r inst_low_fields(2) by blast
  from extraction_divides_by_zero_bound[OF inst_low_ok s_i_new_Solver disjI1[OF base_low_ok] z]
  have "basic_results base_low solved_low = Inl ZeroDivisionError" by blast
  with inst_low_ok base_low_ok r inst_low_fields(2) base_low_feasible show ?thesis
    by (intro conjI)
qed

lemma basic_results_w_ok: "\<not> isl (basic_results base_w solved_w)"
  unfolding base_w_def inst_w_def by code_simp

lemma base_w_fields:
  "1 \<in> set (areas (s_i base_w))" "4 < length (periods (s_i base_w))"
  "periods (s_i base_w) ! 4 = 4"
  "positive_scenarios (s_i base_w) 1 4 = []"
  unfolding base_w_def inst_w_def by code_simp+

text \<open>
  Claim C7. One area, requirements 1 and 3 and demands 5 and 15 in the two scenarios, two
  couriers hired. The second scenario outsources (3 - 2) * 15 / 3 = 5 parcels, a third
  of its parcels, and the solved model pays for them; the first has a courier too many,
  and its term is -5. The extraction adds the two terms before it clamps: it computes 0
  outsourced parcels, 0 percent outsourced and 10 parcels in house, and the results
  dictionary reports 0 outsourced parcels in every period. The average of the
  scenarios' outsourced amounts, none of them negative, is 5 / 2, and 50 / 3 percent.
\<close>

theorem outsourced_parcels_clamped_after_summation:
  "feasible (val_X solved_two) (s_m base_two)
   \<and> \<not> isl (basic_results base_two solved_two)
   \<and> positive_scenarios (s_i base_two) 0 0 = [0, 1]
   \<and> outsourced_term base_two solved_two 0 0 0 = Inr (- 5)
   \<and> outsourced_term base_two solved_two 0 0 1 = Inr 5
   \<and> val_X solved_two (Omega 0 0 1) = 5
   \<and> parcel_estimates base_two solved_two 0 0 = Inr (0, 0, 10)
   \<and> map_of (projr (basic_results base_two solved_two)) ''outsourced_parcels''
       = Some (RFloatSeries [(0, [0, 0, 0, 0, 0, 0, 0, 0])])
   \<and> map_of (projr (basic_results base_two solved_two)) ''inhouse_parcels''
       = Some (RFloatSeries [(0, [10, 10, 10, 10, 10, 10, 10, 10])])
   \<and> claimed_outsourced (s_i base_two) (val_X solved_two) 0 0 = 5 / 2
   \<and> claimed_outsourced_pct (s_i base_two) (val_X solved_two) 0 0 = 50 / 3"
  unfolding base_two_def inst_two_def by code_simp

theorem parcel_estimates_zero_required_counterexample:
  "feasible (val_X solved_w) (s_m base_w)
   \<and> \<not> isl (basic_results base_w solved_w)
   \<and> positive_scenarios (s_i base_w) 1 4 = []
   \<and> map_of (projr (basic_results base_w solved_w)) ''outsourced_parcels_pct'' = None
   \<and> \<not> isl (compute_data (Args ns_two) js_zero)
   \<and> \<not> isl (build_base_model (new_Solver ns_two inst_zero))
   \<and> feasible (val_X solved_zero) (s_m base_zero)
   \<and> positive_scenarios (s_i base_zero) 0 0 = []
   \<and> basic_results base_zero solved_zero = Inl ZeroDivisionError"
  unfolding base_w_def inst_w_def base_zero_def inst_zero_def by code_simp

theorem parcel_estimates_zero_required_witness:
  "basic_results base_w solved_w = Inr (projr (basic_results base_w solved_w))
   \<and> 1 \<in> set (areas (s_i base_w)) \<and> 4 < length (periods (s_i base_w))
   \<and> positive_scenarios (s_i base_w) 1 (periods (s_i base_w) ! 4) = []
   \<and> parcel_estimates base_w solved_w 1 (periods (s_i base_w) ! 4) = Inr (0, 0, 0)"
proof -
  have br: "basic_results base_w solved_w = Inr (projr (basic_results base_w solved_w))"
    using basic_results_w_ok by simp
  have zero: "positive_scenarios (s_i base_w) 1 (periods (s_i base_w) ! 4) = []"
    unfolding base_w_fields(3) by (rule base_w_fields(4))
  from parcel_estimates_zero_required[OF br base_w_fields(1,2) zero]
  have "parcel_estimates base_w solved_w 1 (periods (s_i base_w) ! 4) = Inr (0, 0, 0)"
    by blast
  with br base_w_fields(1,2) zero show ?thesis by (intro conjI)
qed

end
